(* ===== verification/Prelude.thy ===== *)
theory Prelude
  imports Main "HOL-Library.Word"
begin

section \<open>Prelude: machine types, results, panics and effects\<close>

text \<open>
  Shared by every theory of the development:
  \<^item> the integer types of the source at their width (\<open>u8\<close>, \<open>u16\<close>, \<open>u32\<close>, \<open>i32\<close>), byte vectors
    and the clock values of \<^verbatim>\<open>tokio::time::Instant\<close>;
  \<^item> \<open>outcome\<close>, a Rust \<^verbatim>\<open>Result\<close> with a third branch for a panic, and \<open>prog\<close>, a computation that
    passes a world state along and ends in an outcome.  A panic or an early return keeps the
    state reached so far: nothing is rolled back, as in the code;
  \<^item> the combinators the translated code is written with: \<open>and_then\<close> is sequencing under the
    question mark operator, \<open>ok_or\<close> and \<open>unwrap_or_panic\<close> are the ways the code leaves an
    \<^verbatim>\<open>Option\<close>, \<open>map_err\<close> and \<open>unwrap_result\<close> the ways it leaves a \<^verbatim>\<open>Result\<close>;
  \<^item> enumerations of a map, for code that iterates over a \<^verbatim>\<open>HashMap\<close>, whose order is unspecified.
\<close>

subsection \<open>Machine types\<close>

type_synonym u8 = "8 word"
type_synonym u16 = "16 word"
type_synonym u32 = "32 word"
type_synonym i32 = "32 word" \<comment> \<open>two's complement, read with \<open>sint\<close>\<close>
type_synonym i64 = int
type_synonym bytes = "u8 list"

text \<open>Clock values and durations, in milliseconds.\<close>

type_synonym instant = nat
type_synonym duration = nat

lemma unat_ucast_u8_i32 [simp]: "unat (ucast (v :: u8) :: i32) = unat v"
  using unsigned_less [of v, where ?'a = nat]
  by (simp add: unsigned_ucast_eq take_bit_nat_eq_self)

lemma ucast_u8_i32_inject [simp]: "(ucast (v :: u8) :: i32) = ucast (x :: u8) \<longleftrightarrow> v = x"
proof
  assume "(ucast v :: i32) = ucast x"
  then have "unat (ucast v :: i32) = unat (ucast x :: i32)" by (rule arg_cong)
  then have "unat v = unat x" by simp
  then show "v = x" by (simp only: word_unat_eq_iff)
qed simp

subsection \<open>Outcomes and programs\<close>

datatype ('a, 'e) outcome = Ok 'a | Err 'e | Panic

type_synonym ('w, 'a, 'e) prog = "'w \<Rightarrow> ('a, 'e) outcome \<times> 'w"

named_theorems prog_simps \<open>unfolding and evaluation of the combinators\<close>

definition ret :: "'a \<Rightarrow> ('w, 'a, 'e) prog" where
  "ret x w = (Ok x, w)"

definition throw :: "'e \<Rightarrow> ('w, 'a, 'e) prog" where
  "throw e w = (Err e, w)"

definition panic :: "('w, 'a, 'e) prog" where
  "panic w = (Panic, w)"

definition and_then ::
  "('w, 'a, 'e) prog \<Rightarrow> ('a \<Rightarrow> ('w, 'b, 'e) prog) \<Rightarrow> ('w, 'b, 'e) prog" where
  "and_then p k w =
     (case p w of
        (Ok x, w') \<Rightarrow> k x w'
      | (Err e, w') \<Rightarrow> (Err e, w')
      | (Panic, w') \<Rightarrow> (Panic, w'))"

definition ok_or :: "'e \<Rightarrow> 'a option \<Rightarrow> ('w, 'a, 'e) prog" where
  "ok_or e x = (case x of None \<Rightarrow> throw e | Some y \<Rightarrow> ret y)"

definition unwrap_or_panic :: "'a option \<Rightarrow> ('w, 'a, 'e) prog" where
  "unwrap_or_panic x = (case x of None \<Rightarrow> panic | Some y \<Rightarrow> ret y)"

definition map_err :: "('e \<Rightarrow> 'f) \<Rightarrow> ('w, 'a, 'e) prog \<Rightarrow> ('w, 'a, 'f) prog" where
  "map_err f p w =
     (case p w of
        (Ok x, w') \<Rightarrow> (Ok x, w')
      | (Err e, w') \<Rightarrow> (Err (f e), w')
      | (Panic, w') \<Rightarrow> (Panic, w'))"

text \<open>\<^verbatim>\<open>Result::unwrap\<close> and \<^verbatim>\<open>Result::ok\<close>: the error becomes a panic, or is dropped.\<close>

definition unwrap_result :: "('w, 'a, 'e) prog \<Rightarrow> ('w, 'a, 'f) prog" where
  "unwrap_result p w =
     (case p w of
        (Ok x, w') \<Rightarrow> (Ok x, w')
      | (_, w') \<Rightarrow> (Panic, w'))"

definition result_ok :: "('w, 'a, 'e) prog \<Rightarrow> ('w, 'a option, 'f) prog" where
  "result_ok p w =
     (case p w of
        (Ok x, w') \<Rightarrow> (Ok (Some x), w')
      | (Err _, w') \<Rightarrow> (Ok None, w')
      | (Panic, w') \<Rightarrow> (Panic, w'))"

text \<open>A state-passing function that cannot fail, as a program; reading the state.\<close>

definition total :: "('w \<Rightarrow> 'a \<times> 'w) \<Rightarrow> ('w, 'a, 'e) prog" where
  "total f w = (case f w of (x, w') \<Rightarrow> (Ok x, w'))"

definition reads :: "('w \<Rightarrow> 'a) \<Rightarrow> ('w, 'a, 'e) prog" where
  "reads f w = (Ok (f w), w)"

text \<open>A program on one part of the state, run on the whole.\<close>

definition zoom :: "('w \<Rightarrow> 's) \<Rightarrow> ('s \<Rightarrow> 'w \<Rightarrow> 'w) \<Rightarrow> ('s, 'a, 'e) prog \<Rightarrow> ('w, 'a, 'e) prog" where
  "zoom get put p w = (case p (get w) of (r, s) \<Rightarrow> (r, put s w))"

lemmas prog_defs [prog_simps] =
  ret_def throw_def panic_def and_then_def map_err_def total_def reads_def zoom_def

text \<open>The laws of sequencing: it is a monad, and a panic or an error cuts the rest off.\<close>

lemma and_then_ret [simp]: "and_then (ret x) k = k x"
  by (rule ext) (simp add: prog_simps)

lemma and_then_throw [simp]: "and_then (throw e) k = throw e"
  by (rule ext) (simp add: prog_simps)

lemma and_then_panic [simp]: "and_then panic k = panic"
  by (rule ext) (simp add: prog_simps)

lemma and_then_ret_right [simp]: "and_then p ret = p"
  by (rule ext) (auto simp: prog_simps split: prod.splits outcome.splits)

lemma and_then_assoc: "and_then (and_then p f) g = and_then p (\<lambda>x. and_then (f x) g)"
  by (rule ext) (auto simp: prog_simps split: prod.splits outcome.splits)

lemma ok_or_simps [simp]: "ok_or e None = throw e" "ok_or e (Some x) = ret x"
  by (simp_all add: ok_or_def)

lemma unwrap_or_panic_simps [simp]:
  "unwrap_or_panic None = panic" "unwrap_or_panic (Some x) = ret x"
  by (simp_all add: unwrap_or_panic_def)

text \<open>Running a program whose first step is known.\<close>

lemma and_then_Ok [simp]: "p w = (Ok x, w') \<Longrightarrow> and_then p k w = k x w'"
  by (simp add: and_then_def)

lemma and_then_Err [simp]: "p w = (Err e, w') \<Longrightarrow> and_then p k w = (Err e, w')"
  by (simp add: and_then_def)

lemma and_then_Panic [simp]: "p w = (Panic, w') \<Longrightarrow> and_then p k w = (Panic, w')"
  by (simp add: and_then_def)

lemma and_then_OkD:
  assumes "and_then p k w = (Ok y, w')"
  obtains x v where "p w = (Ok x, v)" and "k x v = (Ok y, w')"
  using assms by (auto simp: and_then_def split: prod.splits outcome.splits)

subsection \<open>Maps\<close>

text \<open>
  A \<^verbatim>\<open>HashMap\<close> is a map \<open>'k \<rightharpoonup> 'v\<close>.  Code that iterates over one sees its keys in an order the
  library does not specify; such code takes the order \<open>ks\<close> as an argument, and the theorems hold
  for every \<open>ks\<close> that enumerates the map.
\<close>

definition enumerates :: "'k list \<Rightarrow> ('k \<rightharpoonup> 'v) \<Rightarrow> bool" where
  "enumerates ks m \<longleftrightarrow> distinct ks \<and> set ks = dom m"

lemma enumeratesD:
  assumes "enumerates ks m"
  shows "distinct ks" "set ks = dom m" "finite (dom m)" "length ks = card (dom m)"
proof -
  from assms show d: "distinct ks" and s: "set ks = dom m"
    by (simp_all add: enumerates_def)
  from s show "finite (dom m)" by (metis List.finite_set)
  from d s show "length ks = card (dom m)" by (metis distinct_card)
qed

definition map_filter_vals :: "('v \<Rightarrow> bool) \<Rightarrow> ('k \<rightharpoonup> 'v) \<Rightarrow> ('k \<rightharpoonup> 'v)" where
  "map_filter_vals P m k = (case m k of None \<Rightarrow> None | Some v \<Rightarrow> if P v then Some v else None)"

lemma map_filter_vals_Some [simp]:
  "map_filter_vals P m k = Some v \<longleftrightarrow> m k = Some v \<and> P v"
  by (auto simp: map_filter_vals_def split: option.splits)

lemma map_filter_vals_None:
  "map_filter_vals P m k = None \<longleftrightarrow> (\<forall>v. m k = Some v \<longrightarrow> \<not> P v)"
  by (auto simp: map_filter_vals_def split: option.splits)

lemma map_filter_vals_empty [simp]: "map_filter_vals P Map.empty = Map.empty"
  by (rule ext) (simp add: map_filter_vals_def)

lemma map_filter_vals_upd:
  "map_filter_vals P (m(k \<mapsto> v)) =
     (if P v then (map_filter_vals P m)(k \<mapsto> v) else (map_filter_vals P m)(k := None))"
  by (rule ext) (simp add: map_filter_vals_def)

lemma dom_map_filter_vals: "dom (map_filter_vals P m) \<subseteq> dom m"
  by (auto simp: map_filter_vals_def split: option.splits)

text \<open>Removing a list of keys, one after the other, in any order.\<close>

definition remove_all :: "'k list \<Rightarrow> ('k \<rightharpoonup> 'v) \<Rightarrow> ('k \<rightharpoonup> 'v)" where
  "remove_all ks m = foldl (\<lambda>m k. m(k := None)) m ks"

lemma remove_all_apply [simp]: "remove_all ks m k = (if k \<in> set ks then None else m k)"
  by (induction ks arbitrary: m) (auto simp: remove_all_def)

lemma remove_all_Nil [simp]: "remove_all [] m = m"
  by (simp add: remove_all_def)

lemma remove_all_Cons: "remove_all (k # ks) m = remove_all ks (m(k := None))"
  by (simp add: remove_all_def)

subsection \<open>Lists\<close>

lemma set_map_filter: "set (List.map_filter f xs) = {y. \<exists>x \<in> set xs. f x = Some y}"
  by (induction xs) (auto simp: List.map_filter_simps split: option.splits)

lemma distinct_map_filter:
  assumes "distinct xs"
    and "\<And>x x' y y'. x \<in> set xs \<Longrightarrow> x' \<in> set xs \<Longrightarrow> f x = Some y \<Longrightarrow> f x' = Some y' \<Longrightarrow>
           g y = g y' \<Longrightarrow> x = x'"
  shows "distinct (map g (List.map_filter f xs))"
  using assms
proof (induction xs)
  case Nil
  then show ?case by (simp add: List.map_filter_simps)
next
  case (Cons x xs)
  have IH: "distinct (map g (List.map_filter f xs))"
    by (rule Cons.IH) (use Cons.prems in \<open>auto\<close>)
  show ?case
  proof (cases "f x")
    case None
    with IH show ?thesis by (simp add: List.map_filter_simps)
  next
    case (Some y)
    have "g y \<notin> g ` set (List.map_filter f xs)"
    proof
      assume "g y \<in> g ` set (List.map_filter f xs)"
      then obtain x' y' where "x' \<in> set xs" "f x' = Some y'" "g y = g y'"
        by (auto simp: set_map_filter)
      with Cons.prems(2) [of x x' y y'] Some have "x = x'" by simp
      with \<open>x' \<in> set xs\<close> Cons.prems(1) show False by simp
    qed
    with IH Some show ?thesis by (simp add: List.map_filter_simps)
  qed
qed

end
