(* ===== verification/Rust_Std.thy ===== *)
theory Rust_Std
  imports Prelude
begin

section \<open>The parts of the Rust standard library the program uses\<close>

text \<open>
  A Rust \<^verbatim>\<open>String\<close> or \<^verbatim>\<open>&str\<close> is its UTF-8 encoding, one HOL \<open>char\<close> per byte; lengths and
  indices count bytes, as they do in Rust.  Modelled here: white space in the sense of Unicode's
  \<^verbatim>\<open>White_Space\<close> property on UTF-8 text, \<^verbatim>\<open>trim\<close>, \<^verbatim>\<open>split_whitespace\<close>, \<^verbatim>\<open>str::find\<close>, lower-casing of
  the ASCII letters, decimal printing and parsing of unsigned integers, \<^verbatim>\<open>as_bytes\<close> and
  \<^verbatim>\<open>String::from_utf8_lossy\<close>.
\<close>

subsection \<open>White space\<close>

text \<open>
  \<open>ws_len s\<close> is the number of bytes of the white-space character \<open>s\<close> begins with, 0 if it begins
  with none.  The lead bytes tested for never occur as continuation bytes of UTF-8, so scanning
  byte by byte meets exactly the white-space characters of the text.
\<close>

definition byte :: "char \<Rightarrow> nat" where
  "byte c = of_char c"

definition ws1 :: "nat \<Rightarrow> bool" where
  "ws1 a \<longleftrightarrow> 9 \<le> a \<and> a \<le> 13 \<or> a = 32"

definition ws2 :: "nat \<Rightarrow> nat \<Rightarrow> bool" where
  "ws2 a b \<longleftrightarrow> a = 0xC2 \<and> (b = 0x85 \<or> b = 0xA0)"

definition ws3 :: "nat \<Rightarrow> nat \<Rightarrow> nat \<Rightarrow> bool" where
  "ws3 a b c \<longleftrightarrow>
     a = 0xE1 \<and> b = 0x9A \<and> c = 0x80
   \<or> a = 0xE2 \<and> b = 0x80 \<and> (0x80 \<le> c \<and> c \<le> 0x8A \<or> c = 0xA8 \<or> c = 0xA9 \<or> c = 0xAF)
   \<or> a = 0xE2 \<and> b = 0x81 \<and> c = 0x9F
   \<or> a = 0xE3 \<and> b = 0x80 \<and> c = 0x80"

fun ws_len :: "string \<Rightarrow> nat" where
  "ws_len [] = 0"
| "ws_len [a] = (if ws1 (byte a) then 1 else 0)"
| "ws_len [a, b] = (if ws1 (byte a) then 1 else if ws2 (byte a) (byte b) then 2 else 0)"
| "ws_len (a # b # c # s) =
     (if ws1 (byte a) then 1
      else if ws2 (byte a) (byte b) then 2
      else if ws3 (byte a) (byte b) (byte c) then 3 else 0)"

lemma ws_len_le: "ws_len s \<le> length s"
  by (cases s rule: ws_len.cases) simp_all

text \<open>\<open>str::trim\<close>: white space is dropped at both ends.\<close>

function trim_start :: "string \<Rightarrow> string" where
  "trim_start s = (if ws_len s = 0 then s else trim_start (drop (ws_len s) s))"
  by pat_completeness auto
termination
proof (relation "measure length")
  fix s :: string
  assume "ws_len s \<noteq> 0"
  with ws_len_le [of s] show "(drop (ws_len s) s, s) \<in> measure length" by simp
qed simp

declare trim_start.simps [simp del]

primrec trim_end :: "string \<Rightarrow> string" where
  "trim_end [] = []"
| "trim_end (c # s) = (if trim_start (c # s) = [] then [] else c # trim_end s)"

definition trim :: "string \<Rightarrow> string" where
  "trim s = trim_end (trim_start s)"

text \<open>
  \<open>str::split_whitespace\<close>: the maximal runs without white space, left to right.  \<open>token s\<close> is the
  run \<open>s\<close> begins with and \<open>after_token s\<close> what follows it.
\<close>

primrec token :: "string \<Rightarrow> string" where
  "token [] = []"
| "token (c # s) = (if ws_len (c # s) = 0 then c # token s else [])"

primrec after_token :: "string \<Rightarrow> string" where
  "after_token [] = []"
| "after_token (c # s) = (if ws_len (c # s) = 0 then after_token s else c # s)"

lemma token_append_after: "token s @ after_token s = s"
  by (induction s) auto

lemma length_trim_start: "length (trim_start s) \<le> length s"
proof (induction s rule: trim_start.induct)
  case (1 s)
  then show ?case
    by (subst trim_start.simps) (cases "ws_len s = 0", auto intro: le_trans)
qed

lemma ws_len_trim_start: "ws_len (trim_start s) = 0"
proof (induction s rule: trim_start.induct)
  case (1 s)
  then show ?case by (subst trim_start.simps) (cases "ws_len s = 0", auto)
qed

lemma length_after_token:
  "ws_len s = 0 \<Longrightarrow> s \<noteq> [] \<Longrightarrow> length (after_token s) < length s"
proof -
  have "length (after_token s) \<le> length s" for s
    by (induction s) auto
  then show "ws_len s = 0 \<Longrightarrow> s \<noteq> [] \<Longrightarrow> length (after_token s) < length s"
    by (cases s) (auto simp: le_imp_less_Suc simp del: ws_len.simps)
qed

function split_whitespace :: "string \<Rightarrow> string list" where
  "split_whitespace s =
     (if trim_start s = [] then []
      else token (trim_start s) # split_whitespace (after_token (trim_start s)))"
  by pat_completeness auto
termination
proof (relation "measure length")
  fix s :: string
  assume "trim_start s \<noteq> []"
  then have "length (after_token (trim_start s)) < length (trim_start s)"
    by (intro length_after_token ws_len_trim_start)
  with length_trim_start [of s]
  show "(after_token (trim_start s), s) \<in> measure length" by simp
qed simp

declare split_whitespace.simps [simp del]

subsection \<open>Searching and lower case\<close>

definition starts_with :: "string \<Rightarrow> string \<Rightarrow> bool" where
  "starts_with p s \<longleftrightarrow> take (length p) s = p"

text \<open>\<open>str::find\<close> with a string pattern: the byte index of the first occurrence.\<close>

fun find :: "string \<Rightarrow> string \<Rightarrow> nat option" where
  "find p [] = (if p = [] then Some 0 else None)"
| "find p (c # s) = (if starts_with p (c # s) then Some 0 else map_option Suc (find p s))"

text \<open>
  Lower case of the ASCII letters.  The program only compares lower-cased words with ASCII
  literals that contain no \<open>k\<close> and no \<open>i\<close>, the only ASCII letters that occur in the lower case of
  a character outside ASCII, so the other characters can stay as they are.
\<close>

definition lower_char :: "char \<Rightarrow> char" where
  "lower_char c = (if 65 \<le> byte c \<and> byte c \<le> 90 then char_of (byte c + 32) else c)"

definition to_lowercase :: "string \<Rightarrow> string" where
  "to_lowercase = map lower_char"

subsection \<open>Unsigned integers in decimal\<close>

definition digit :: "nat \<Rightarrow> char" where
  "digit n = char_of (48 + n)"

definition digit_value :: "char \<Rightarrow> nat option" where
  "digit_value c = (if 48 \<le> byte c \<and> byte c \<le> 57 then Some (byte c - 48) else None)"

text \<open>\<open>Display\<close> of an unsigned integer.\<close>

fun show_nat :: "nat \<Rightarrow> string" where
  "show_nat n = (if n < 10 then [digit n] else show_nat (n div 10) @ [digit (n mod 10)])"

declare show_nat.simps [simp del]

text \<open>
  \<open>str::parse\<close> at an unsigned type with values below \<open>lim\<close>: an optional plus sign, at least one
  digit, no other character, and an error as soon as the value overflows.
\<close>

fun parse_digits :: "nat \<Rightarrow> nat \<Rightarrow> string \<Rightarrow> nat option" where
  "parse_digits lim acc [] = Some acc"
| "parse_digits lim acc (c # s) =
     (case digit_value c of
        None \<Rightarrow> None
      | Some d \<Rightarrow>
          if 10 * acc + d < lim then parse_digits lim (10 * acc + d) s else None)"

definition parse_unsigned :: "nat \<Rightarrow> string \<Rightarrow> nat option" where
  "parse_unsigned lim s =
     (case s of
        [] \<Rightarrow> None
      | c # s' \<Rightarrow>
          if c = CHR ''+'' then (if s' = [] then None else parse_digits lim 0 s')
          else parse_digits lim 0 s)"

definition parse_u8 :: "string \<Rightarrow> u8 option" where
  "parse_u8 s = map_option of_nat (parse_unsigned 256 s)"

definition parse_u16 :: "string \<Rightarrow> u16 option" where
  "parse_u16 s = map_option of_nat (parse_unsigned 65536 s)"

lemma byte_char_of: "n < 256 \<Longrightarrow> byte (char_of n) = n"
  by (simp add: byte_def)

lemma digit_value_digit [simp]: "n < 10 \<Longrightarrow> digit_value (digit n) = Some n"
  by (simp add: digit_value_def digit_def byte_char_of)

lemma digit_not_plus: "n < 10 \<Longrightarrow> digit n \<noteq> CHR ''+''"
proof
  assume n: "n < 10" and "digit n = CHR ''+''"
  then have "byte (digit n) = byte (CHR ''+'')" by simp
  with n show False by (simp add: digit_def byte_char_of) (simp add: byte_def)
qed

lemma show_nat_nonempty [simp]: "show_nat n \<noteq> []"
  by (subst show_nat.simps) simp

lemma parse_digits_append:
  "parse_digits lim acc (s @ t) =
     Option.bind (parse_digits lim acc s) (\<lambda>acc'. parse_digits lim acc' t)"
  by (induction lim acc s rule: parse_digits.induct) (auto split: option.splits)

lemma parse_digits_show: "n < lim \<Longrightarrow> parse_digits lim 0 (show_nat n) = Some n"
proof (induction n rule: show_nat.induct)
  case (1 n)
  show ?case
  proof (cases "n < 10")
    case True
    with "1.prems" show ?thesis by (subst show_nat.simps) simp
  next
    case False
    with "1.prems" have "n div 10 < lim" by simp
    with False "1.IH" have "parse_digits lim 0 (show_nat (n div 10)) = Some (n div 10)"
      by simp
    with False "1.prems" show ?thesis
      by (subst show_nat.simps) (simp add: parse_digits_append)
  qed
qed

lemma hd_show_nat: "\<exists>d s. show_nat n = digit d # s \<and> d < 10"
proof (induction n rule: show_nat.induct)
  case (1 n)
  then show ?case by (subst show_nat.simps) (cases "n < 10", fastforce+)
qed

lemma parse_unsigned_show: "n < lim \<Longrightarrow> parse_unsigned lim (show_nat n) = Some n"
  using hd_show_nat [of n] parse_digits_show [of n lim]
  by (auto simp: parse_unsigned_def digit_not_plus)

lemma parse_digits_bound:
  "parse_digits lim acc s = Some n \<Longrightarrow> acc < lim \<Longrightarrow> n < lim"
  by (induction lim acc s rule: parse_digits.induct) (auto split: option.splits if_splits)

lemma parse_unsigned_bound: "parse_unsigned lim s = Some n \<Longrightarrow> 0 < lim \<Longrightarrow> n < lim"
  by (auto simp: parse_unsigned_def simp del: parse_digits.simps
      split: list.splits if_splits dest: parse_digits_bound)

subsection \<open>Bytes and text\<close>

definition as_bytes :: "string \<Rightarrow> bytes" where
  "as_bytes = map of_char"

definition text_of_bytes :: "bytes \<Rightarrow> string" where
  "text_of_bytes = map (\<lambda>b. char_of (unat b))"

lemma text_of_as_bytes [simp]: "text_of_bytes (as_bytes s) = s"
proof -
  have "char_of (unat (of_char c :: u8)) = c" for c
  proof -
    have "unat (of_nat (of_char c) :: u8) = of_char c"
      by (simp only: unat_of_nat) (simp add: mod_less)
    then show ?thesis by (simp add: of_nat_of_char)
  qed
  then show ?thesis by (simp add: text_of_bytes_def as_bytes_def comp_def map_idI)
qed

subsection \<open>UTF-8\<close>

text \<open>
  One step of the decoder behind \<^verbatim>\<open>String::from_utf8_lossy\<close>: whether the bytes begin with a complete
  encoding of a code point, and how many bytes that encoding, or else the longest prefix of one,
  takes.  A byte past the end reads as 0, which continues nothing.
\<close>

definition byte_at :: "bytes \<Rightarrow> nat \<Rightarrow> nat" where
  "byte_at bs i = (if i < length bs then unat (bs ! i) else 0)"

definition is_cont :: "nat \<Rightarrow> bool" where
  "is_cont b \<longleftrightarrow> 0x80 \<le> b \<and> b \<le> 0xBF"

definition utf8_width :: "nat \<Rightarrow> nat" where
  "utf8_width a =
     (if a < 0x80 then 1 else if 0xC2 \<le> a \<and> a \<le> 0xDF then 2
      else if 0xE0 \<le> a \<and> a \<le> 0xEF then 3 else if 0xF0 \<le> a \<and> a \<le> 0xF4 then 4 else 0)"

definition second_ok :: "nat \<Rightarrow> nat \<Rightarrow> bool" where
  "second_ok a b \<longleftrightarrow>
     is_cont b \<and> (a = 0xE0 \<longrightarrow> 0xA0 \<le> b) \<and> (a = 0xED \<longrightarrow> b \<le> 0x9F) \<and>
     (a = 0xF0 \<longrightarrow> 0x90 \<le> b) \<and> (a = 0xF4 \<longrightarrow> b \<le> 0x8F)"

definition utf8_step :: "bytes \<Rightarrow> bool \<times> nat" where
  "utf8_step bs =
     (let n = utf8_width (byte_at bs 0)
      in if n = 1 then (True, 1)
         else if n = 0 \<or> \<not> second_ok (byte_at bs 0) (byte_at bs 1) then (False, 1)
         else if n = 2 then (True, 2)
         else if \<not> is_cont (byte_at bs 2) then (False, 2)
         else if n = 3 then (True, 3)
         else if \<not> is_cont (byte_at bs 3) then (False, 3)
         else (True, 4))"

lemma utf8_step_pos: "0 < snd (utf8_step bs)"
  by (simp add: utf8_step_def Let_def)

text \<open>U+FFFD, the replacement character.\<close>

definition replacement :: bytes where
  "replacement = [0xEF, 0xBF, 0xBD]"

function utf8_lossy :: "bytes \<Rightarrow> bytes" where
  "utf8_lossy bs =
     (if bs = [] then []
      else (if fst (utf8_step bs) then take (snd (utf8_step bs)) bs else replacement)
           @ utf8_lossy (drop (snd (utf8_step bs)) bs))"
  by pat_completeness auto
termination
proof (relation "measure length")
  fix bs :: bytes
  assume "bs \<noteq> []"
  with utf8_step_pos [of bs] show "(drop (snd (utf8_step bs)) bs, bs) \<in> measure length" by simp
qed simp

declare utf8_lossy.simps [simp del]

function valid_utf8 :: "bytes \<Rightarrow> bool" where
  "valid_utf8 bs =
     (if bs = [] then True
      else fst (utf8_step bs) \<and> valid_utf8 (drop (snd (utf8_step bs)) bs))"
  by pat_completeness auto
termination
proof (relation "measure length")
  fix bs :: bytes
  assume "bs \<noteq> []"
  with utf8_step_pos [of bs] show "(drop (snd (utf8_step bs)) bs, bs) \<in> measure length" by simp
qed simp

declare valid_utf8.simps [simp del]

definition from_utf8_lossy :: "bytes \<Rightarrow> string" where
  "from_utf8_lossy bs = text_of_bytes (utf8_lossy bs)"

text \<open>Well-formed text is kept, and the result is always well-formed.\<close>

lemma utf8_lossy_valid: "valid_utf8 bs \<Longrightarrow> utf8_lossy bs = bs"
proof (induction bs rule: utf8_lossy.induct)
  case (1 bs)
  show ?case
  proof (cases "bs = []")
    case True
    then show ?thesis by (simp add: utf8_lossy.simps)
  next
    case False
    with "1.prems" have "fst (utf8_step bs)" "valid_utf8 (drop (snd (utf8_step bs)) bs)"
      using valid_utf8.simps [of bs] by simp_all
    with "1.IH" [OF False] False show ?thesis using utf8_lossy.simps [of bs] by simp
  qed
qed

lemma utf8_step_True_iff:
  "utf8_step bs = (True, k) \<longleftrightarrow>
     k = utf8_width (byte_at bs 0) \<and> k \<noteq> 0 \<and>
     (2 \<le> k \<longrightarrow> second_ok (byte_at bs 0) (byte_at bs 1)) \<and>
     (3 \<le> k \<longrightarrow> is_cont (byte_at bs 2)) \<and> (4 \<le> k \<longrightarrow> is_cont (byte_at bs 3))"
proof -
  have "utf8_width (byte_at bs 0) \<in> {0, 1, 2, 3, 4}" by (simp add: utf8_width_def)
  then consider "utf8_width (byte_at bs 0) = 0" | "utf8_width (byte_at bs 0) = 1"
    | "utf8_width (byte_at bs 0) = 2" | "utf8_width (byte_at bs 0) = 3" | "utf8_width (byte_at bs 0) = 4"
    by auto
  then show ?thesis by cases (simp_all add: utf8_step_def Let_def, auto)
qed

lemma is_cont_in_range: "is_cont (byte_at bs i) \<Longrightarrow> i < length bs"
  by (simp add: is_cont_def byte_at_def split: if_splits)

lemma utf8_width_le: "utf8_width a \<le> 4"
  by (simp add: utf8_width_def)

lemma utf8_step_True_length:
  assumes "utf8_step bs = (True, k)" and "bs \<noteq> []"
  shows "k \<le> length bs"
proof -
  have k: "k \<le> 4" using assms(1) utf8_width_le by (simp add: utf8_step_True_iff)
  have "1 < length bs" if "2 \<le> k"
    using assms(1) that is_cont_in_range [of bs 1] by (simp add: utf8_step_True_iff second_ok_def)
  moreover have "2 < length bs" if "3 \<le> k"
    using assms(1) that is_cont_in_range [of bs 2] by (simp add: utf8_step_True_iff)
  moreover have "3 < length bs" if "4 \<le> k"
    using assms(1) that is_cont_in_range [of bs 3] by (simp add: utf8_step_True_iff)
  moreover have "0 < length bs" using assms(2) by simp
  ultimately show ?thesis using k by linarith
qed

lemma utf8_step_take:
  assumes "utf8_step bs = (True, k)" and "bs \<noteq> []"
  shows "utf8_step (take k bs @ cs) = (True, k)"
proof -
  have len: "k \<le> length bs" by (rule utf8_step_True_length [OF assms])
  have b: "byte_at (take k bs @ cs) i = byte_at bs i" if "i < k" for i
    using that len by (simp add: byte_at_def nth_append)
  have "0 < k" using assms(1) by (simp add: utf8_step_True_iff)
  then have b0: "byte_at (take k bs @ cs) 0 = byte_at bs 0" by (rule b)
  have b1: "2 \<le> k \<Longrightarrow> byte_at (take k bs @ cs) 1 = byte_at bs 1"
    and b2: "3 \<le> k \<Longrightarrow> byte_at (take k bs @ cs) 2 = byte_at bs 2"
    and b3: "4 \<le> k \<Longrightarrow> byte_at (take k bs @ cs) 3 = byte_at bs 3"
    by (rule b, simp)+
  from assms(1) show ?thesis
    unfolding utf8_step_True_iff b0 using b1 b2 b3 by metis
qed

lemma valid_utf8_step_append:
  assumes "utf8_step bs = (True, k)" and "bs \<noteq> []" and "valid_utf8 cs"
  shows "valid_utf8 (take k bs @ cs)"
proof -
  have "k \<le> length bs" by (rule utf8_step_True_length [OF assms(1,2)])
  with utf8_step_take [OF assms(1,2), of cs] assms(3)
  show ?thesis using valid_utf8.simps [of "take k bs @ cs"] by simp
qed

lemma replacement_step: "utf8_step replacement = (True, 3)"
  by (simp add: utf8_step_def Let_def byte_at_def replacement_def utf8_width_def second_ok_def
      is_cont_def)

lemma valid_utf8_lossy: "valid_utf8 (utf8_lossy bs)"
proof (induction bs rule: utf8_lossy.induct)
  case (1 bs)
  show ?case
  proof (cases "bs = []")
    case True
    then show ?thesis by (simp add: utf8_lossy.simps valid_utf8.simps)
  next
    case False
    let ?rest = "utf8_lossy (drop (snd (utf8_step bs)) bs)"
    have IH: "valid_utf8 ?rest" by (rule "1.IH" [OF False])
    show ?thesis
    proof (cases "fst (utf8_step bs)")
      case True
      then have "utf8_step bs = (True, snd (utf8_step bs))" by (simp add: prod_eq_iff)
      from valid_utf8_step_append [OF this False IH] True False
      show ?thesis using utf8_lossy.simps [of bs] by simp
    next
      case no: False
      have "valid_utf8 (take 3 replacement @ ?rest)"
        by (rule valid_utf8_step_append [OF replacement_step _ IH]) (simp add: replacement_def)
      then have "valid_utf8 (replacement @ ?rest)" by (simp add: replacement_def)
      with no False show ?thesis using utf8_lossy.simps [of bs] by simp
    qed
  qed
qed

end
