(* ===== verification/Crosscutting.thy ===== *)
theory Crosscutting
  imports Rust_Std
begin

section \<open>Crosscutting: component kinds, settings and addresses\<close>

text \<open>
  The crate \<^verbatim>\<open>crosscutting\<close>: the kinds of component and their wire encoding
  (\<^verbatim>\<open>crosscutting/src/lib.rs\<close>), the configuration read from environment variables and files
  (\<^verbatim>\<open>settings/\<close>), and endpoint construction (\<^verbatim>\<open>networking.rs\<close>).

  The process environment is an argument of the functions that read it: its variables, the
  current directory (absent when \<^verbatim>\<open>env::current_dir\<close> fails) and the readable files.  The parsers
  for socket addresses and URIs belong to the standard library and to the \<^verbatim>\<open>http\<close> crate and are
  arguments too.  A function returning \<^verbatim>\<open>Result\<close> returns an \<open>outcome\<close>, so a panic stays visible.
\<close>

subsection \<open>Component kinds\<close>

datatype component = Controller | Proxy | Client

definition component_from_i32 :: "i32 \<Rightarrow> component option" where
  \<comment> \<open>\<open>None\<close> is the panic on any other value\<close>
  "component_from_i32 v =
     (if v = 0 then Some Controller
      else if v = 1 then Some Proxy
      else if v = 2 then Some Client
      else None)"

definition component_from_u8 :: "u8 \<Rightarrow> component option" where
  "component_from_u8 v = component_from_i32 (ucast v)"

fun u8_from_component :: "component \<Rightarrow> u8" where
  "u8_from_component Controller = 0"
| "u8_from_component Proxy = 1"
| "u8_from_component Client = 2"

definition i32_from_component :: "component \<Rightarrow> i32" where
  "i32_from_component c = ucast (u8_from_component c)"

fun show_component :: "component \<Rightarrow> string" where
  "show_component Controller = ''Controller''"
| "show_component Proxy = ''Proxy''"
| "show_component Client = ''Client''"

lemma component_from_u8_of_component [simp]:
  "component_from_u8 (u8_from_component c) = Some c"
  by (cases c) (simp_all add: component_from_u8_def component_from_i32_def)

lemma component_from_u8_code [simp]:
  "component_from_u8 0 = Some Controller"
  "component_from_u8 1 = Some Proxy"
  "component_from_u8 2 = Some Client"
  by (simp_all add: component_from_u8_def component_from_i32_def)

lemma component_from_i32_of_component [simp]:
  "component_from_i32 (i32_from_component c) = Some c"
  by (cases c) (simp_all add: i32_from_component_def component_from_i32_def)

lemma component_from_i32_Some_iff:
  "component_from_i32 v = Some c \<longleftrightarrow> v = i32_from_component c"
  by (cases c) (auto simp: component_from_i32_def i32_from_component_def)

text \<open>
  The wire encoding of component kinds round-trips at both widths the code uses, \<open>u8\<close> in
  stored sessions and \<open>i32\<close> in login requests, and decoding is total exactly on the three codes:
  every other \<open>i32\<close>, negative ones included, is the panic.
\<close>

theorem component_codes:
  "component_from_u8 (u8_from_component c) = Some c
   \<and> component_from_i32 (i32_from_component c) = Some c
   \<and> (component_from_i32 v = None \<longleftrightarrow> sint v \<notin> {0, 1, 2})"
proof -
  have "sint v = 0 \<longleftrightarrow> v = 0" "sint v = 1 \<longleftrightarrow> v = 1" "sint v = 2 \<longleftrightarrow> v = 2"
    using signed_word_eqI [of v 0] signed_word_eqI [of v 1] signed_word_eqI [of v 2] by auto
  then have "component_from_i32 v = None \<longleftrightarrow> sint v \<notin> {0, 1, 2}"
    by (simp add: component_from_i32_def)
  then show ?thesis by simp
qed

subsection \<open>Settings and descriptors\<close>

record connection_settings =
  cs_ip :: string
  cs_port :: u16
  cs_domain_name :: string
  cs_certificate :: bytes

record credentials =
  cred_uid :: string
  cred_pwd :: string

datatype component_descriptor =
    ControllerDescriptor credentials connection_settings string
  | ProxyDescriptor credentials connection_settings
  | ClientDescriptor credentials connection_settings

record environment =
  env_var :: "string \<rightharpoonup> string"
  current_dir :: "string option"
  read_file :: "string \<rightharpoonup> bytes"

definition get_env_variable :: "environment \<Rightarrow> string \<Rightarrow> (string, string) outcome" where
  "get_env_variable env name =
     (case env_var env name of
        None \<Rightarrow> Err (''Environment variable '' @ name @ '' not set'')
      | Some v \<Rightarrow> Ok v)"

text \<open>
  \<^verbatim>\<open>unwrap_or\<close> evaluates its argument first, so the directory functions panic when the current
  directory cannot be read, even if the variable is set.
\<close>

definition get_certificates_dir :: "environment \<Rightarrow> (string, string) outcome" where
  "get_certificates_dir env =
     (case current_dir env of
        None \<Rightarrow> Panic
      | Some cwd \<Rightarrow>
          (case get_env_variable env ''CERTS_DIR'' of Ok d \<Rightarrow> Ok d | _ \<Rightarrow> Ok cwd))"

definition get_logs_dir :: "environment \<Rightarrow> (string, string) outcome" where
  "get_logs_dir env =
     (case current_dir env of
        None \<Rightarrow> Panic
      | Some cwd \<Rightarrow>
          (case get_env_variable env ''LOGS_DIR'' of Ok d \<Rightarrow> Ok d | _ \<Rightarrow> Ok cwd))"

text \<open>The name the operating system gives for the host, \<open>None\<close> when the crate \<^verbatim>\<open>hostname\<close> fails.\<close>

definition get_hostname :: "bytes option \<Rightarrow> string" where
  "get_hostname os_name =
     (case os_name of Some name \<Rightarrow> from_utf8_lossy name | None \<Rightarrow> ''localhost'')"

definition path_join :: "string \<Rightarrow> string \<Rightarrow> string" where
  "path_join dir f =
     (if dir = [] then f else if last dir = CHR ''/'' then dir @ f else dir @ ''/'' @ f)"

definition get_credentials :: "environment \<Rightarrow> (credentials, string) outcome" where
  "get_credentials env =
     (case get_env_variable env ''UID'' of
        Ok uid \<Rightarrow>
          (case get_env_variable env ''PWD'' of
             Ok pwd \<Rightarrow> Ok \<lparr>cred_uid = uid, cred_pwd = pwd\<rparr>
           | _ \<Rightarrow> Err ''PWD not set'')
      | _ \<Rightarrow> Err ''UID not set'')"

definition get_service_endpoint ::
  "environment \<Rightarrow> string \<Rightarrow> string \<Rightarrow> (string \<times> u16, string) outcome" where
  "get_service_endpoint env ip_env_var port_env_var =
     (case get_env_variable env ip_env_var of
        Ok ip \<Rightarrow>
          (case get_env_variable env port_env_var of
             Ok p \<Rightarrow>
               (case parse_u16 p of
                  Some port \<Rightarrow> Ok (ip, port)
                | None \<Rightarrow> Err ''Invalid port number'')
           | _ \<Rightarrow> Err ''port not set'')
      | _ \<Rightarrow> Err ''IP not set'')"

definition get_domain_name :: "environment \<Rightarrow> string \<Rightarrow> (string, string) outcome" where
  "get_domain_name env domain_env_var =
     (case get_env_variable env domain_env_var of
        Ok d \<Rightarrow> Ok d
      | _ \<Rightarrow> Err ''Domain name not set'')"

definition get_controller_cert_file :: "environment \<Rightarrow> (bytes, string) outcome" where
  "get_controller_cert_file env =
     (case get_env_variable env ''CONTROLLER_CERT_FILE'' of
        Ok path \<Rightarrow> Ok (case read_file env path of Some b \<Rightarrow> b | None \<Rightarrow> [])
      | Err e \<Rightarrow> Err e
      | Panic \<Rightarrow> Panic)"

definition get_cert_file :: "environment \<Rightarrow> (bytes, string) outcome" where
  "get_cert_file env =
     (case get_certificates_dir env of
        Ok path \<Rightarrow>
          (case read_file env (path_join path ''ca.crt'') of
             Some cert \<Rightarrow> Ok cert
           | None \<Rightarrow> Err ''io error'')
      | Err e \<Rightarrow> Err e
      | Panic \<Rightarrow> Panic)"

text \<open>
  \<open>identity_from_pem\<close> is \<^verbatim>\<open>Identity::from_pem\<close> of the crate \<^verbatim>\<open>tonic\<close>.
\<close>

definition load_tls_identity ::
  "environment \<Rightarrow> (bytes \<Rightarrow> bytes \<Rightarrow> 'i) \<Rightarrow> string \<Rightarrow> string \<Rightarrow> ('i, string) outcome" where
  "load_tls_identity env identity_from_pem cert_file key_file =
     (case get_certificates_dir env of
        Ok path \<Rightarrow>
          (case read_file env (path_join path cert_file) of
             None \<Rightarrow> Err ''io error''
           | Some cert \<Rightarrow>
               (case read_file env (path_join path key_file) of
                  None \<Rightarrow> Err ''io error''
                | Some key \<Rightarrow> Ok (identity_from_pem cert key)))
      | Err e \<Rightarrow> Err e
      | Panic \<Rightarrow> Panic)"

text \<open>The two constructors of connection settings run the same steps over different variables.\<close>

definition load_connection_settings ::
  "(string \<times> u16, string) outcome \<Rightarrow> (string, string) outcome \<Rightarrow> (bytes, string) outcome
     \<Rightarrow> (connection_settings, string) outcome" where
  "load_connection_settings endpoint domain cert =
     (case endpoint of
        Ok (ip, port) \<Rightarrow>
          (case domain of
             Ok d \<Rightarrow>
               (case cert of
                  Ok c \<Rightarrow> Ok \<lparr>cs_ip = ip, cs_port = port, cs_domain_name = d, cs_certificate = c\<rparr>
                | Err e \<Rightarrow> Err e
                | Panic \<Rightarrow> Panic)
           | Err e \<Rightarrow> Err e
           | Panic \<Rightarrow> Panic)
      | Err e \<Rightarrow> Err e
      | Panic \<Rightarrow> Panic)"

definition get_controller_connection_settings ::
  "environment \<Rightarrow> (connection_settings, string) outcome" where
  "get_controller_connection_settings env =
     load_connection_settings
       (get_service_endpoint env ''CONTROLLER_IP'' ''CONTROLLER_PORT'')
       (get_domain_name env ''CONTROLLER_DOMAIN_NAME'')
       (get_controller_cert_file env)"

definition get_connection_settings ::
  "environment \<Rightarrow> (connection_settings, string) outcome" where
  "get_connection_settings env =
     load_connection_settings
       (get_service_endpoint env ''LISTENING_IP'' ''LISTENING_PORT'')
       (get_domain_name env ''DOMAIN_NAME'')
       (get_cert_file env)"

text \<open>
  \<^verbatim>\<open>Result::or\<close> also evaluates its argument first: a panic of the fallback is a panic of the whole,
  whatever the first alternative gave.
\<close>

definition result_or :: "('a, 'e) outcome \<Rightarrow> ('a, 'e) outcome \<Rightarrow> ('a, 'e) outcome" where
  "result_or a b =
     (case a of
        Panic \<Rightarrow> Panic
      | Ok x \<Rightarrow> (case b of Panic \<Rightarrow> Panic | _ \<Rightarrow> Ok x)
      | Err _ \<Rightarrow> b)"

fun component_connection_settings ::
  "environment \<Rightarrow> component \<Rightarrow> (connection_settings, string) outcome" where
  "component_connection_settings env Controller =
     result_or (get_controller_connection_settings env) (get_connection_settings env)"
| "component_connection_settings env c = get_connection_settings env"

definition load_descriptor ::
  "environment \<Rightarrow> component \<Rightarrow> (component_descriptor, string) outcome" where
  "load_descriptor env c =
     (case component_connection_settings env c of
        Ok cs \<Rightarrow>
          (case get_credentials env of
             Ok cred \<Rightarrow>
               Ok (case c of
                     Controller \<Rightarrow> ControllerDescriptor cred cs ''1.0.0''
                   | Proxy \<Rightarrow> ProxyDescriptor cred cs
                   | Client \<Rightarrow> ClientDescriptor cred cs)
           | Err e \<Rightarrow> Err e
           | Panic \<Rightarrow> Panic)
      | Err e \<Rightarrow> Err e
      | Panic \<Rightarrow> Panic)"

fun descriptor_connection_settings :: "component_descriptor \<Rightarrow> connection_settings" where
  "descriptor_connection_settings (ControllerDescriptor _ cs _) = cs"
| "descriptor_connection_settings (ProxyDescriptor _ cs) = cs"
| "descriptor_connection_settings (ClientDescriptor _ cs) = cs"

fun descriptor_credentials :: "component_descriptor \<Rightarrow> credentials" where
  "descriptor_credentials (ControllerDescriptor cred _ _) = cred"
| "descriptor_credentials (ProxyDescriptor cred _) = cred"
| "descriptor_credentials (ClientDescriptor cred _) = cred"

fun component_of_descriptor :: "component_descriptor \<Rightarrow> component" where
  "component_of_descriptor (ControllerDescriptor _ _ _) = Controller"
| "component_of_descriptor (ProxyDescriptor _ _) = Proxy"
| "component_of_descriptor (ClientDescriptor _ _) = Client"

subsection \<open>Addresses\<close>

text \<open>\<^verbatim>\<open>std::net::SocketAddr\<close>: address, port and, for IPv6, flow information and scope.\<close>

datatype socket_addr =
    SocketAddrV4 "32 word" u16
  | SocketAddrV6 "128 word" u16 u32 u32

definition to_endpoint ::
  "(string \<rightharpoonup> 'uri) \<Rightarrow> string \<Rightarrow> string \<Rightarrow> u32 \<Rightarrow> ('uri, string) outcome" where
  "to_endpoint uri_try_from scheme ip port =
     (case uri_try_from (scheme @ ''://'' @ ip @ '':'' @ show_nat (unat port)) of
        Some uri \<Rightarrow> Ok uri
      | None \<Rightarrow> Err ''Invalid endpoint URI'')"

definition to_https_endpoint ::
  "(string \<rightharpoonup> 'uri) \<Rightarrow> string \<Rightarrow> u32 \<Rightarrow> ('uri, string) outcome" where
  "to_https_endpoint uri_try_from ip port = to_endpoint uri_try_from ''https'' ip port"

definition to_socket_address ::
  "(string \<rightharpoonup> socket_addr) \<Rightarrow> string \<Rightarrow> u16 \<Rightarrow> (socket_addr, string) outcome" where
  "to_socket_address parse_addr ip port =
     (case parse_addr (ip @ '':'' @ show_nat (unat port)) of
        Some a \<Rightarrow> Ok a
      | None \<Rightarrow> Err ''invalid socket address syntax'')"

text \<open>These unwrap their results: \<open>None\<close> is a panic.\<close>

definition get_public_endpoint ::
  "(string \<rightharpoonup> 'uri) \<Rightarrow> connection_settings \<Rightarrow> 'uri option" where
  "get_public_endpoint uri_try_from cs =
     (case to_https_endpoint uri_try_from (cs_ip cs) (ucast (cs_port cs)) of
        Ok uri \<Rightarrow> Some uri
      | _ \<Rightarrow> None)"

definition get_public_socket_address ::
  "(string \<rightharpoonup> socket_addr) \<Rightarrow> connection_settings \<Rightarrow> socket_addr option" where
  "get_public_socket_address parse_addr cs =
     (case to_socket_address parse_addr (cs_ip cs) (cs_port cs) of Ok a \<Rightarrow> Some a | _ \<Rightarrow> None)"

definition get_local_socket_address ::
  "(string \<rightharpoonup> socket_addr) \<Rightarrow> connection_settings \<Rightarrow> socket_addr option" where
  "get_local_socket_address parse_addr cs =
     (case to_socket_address parse_addr ''0.0.0.0'' (cs_port cs) of Ok a \<Rightarrow> Some a | _ \<Rightarrow> None)"

end
