(* ===== verification/Models.thy ===== *)
theory Models
  imports Crosscutting
begin

section \<open>Models: the controller's data and the messages of the services\<close>

text \<open>
  The structs of \<^verbatim>\<open>controller/src/models.rs\<close>, the messages of \<^verbatim>\<open>proto/*.proto\<close> that have several
  fields, and the gRPC status a service call can fail with.
\<close>

subsection \<open>Stored data\<close>

record route =
  rt_on_ip_address :: string
  rt_on_port_number :: u16
  rt_public_key :: bytes
  rt_domain_name :: string
  rt_nonce :: string
  rt_end_route :: bool

record conversation =
  conv_id :: string
  conv_from :: string
  conv_to :: string
  conv_routing_id :: u8
  conv_routes :: "route list"

record member =
  mb_uid :: string
  mb_pwd :: string

record session_info =
  ss_access_key :: string
  ss_uid :: string
  ss_client_ip :: socket_addr
  ss_on_port_number :: u16
  ss_on_ip_address :: string
  ss_component_type :: u8
  ss_public_key :: bytes
  ss_domain_name :: string

definition to_connection_settings :: "session_info \<Rightarrow> connection_settings" where
  "to_connection_settings s =
     \<lparr>cs_ip = ss_on_ip_address s,
      cs_port = ss_on_port_number s,
      cs_domain_name = ss_domain_name s,
      cs_certificate = ss_public_key s\<rparr>"

definition new_conversation :: "string \<Rightarrow> string \<Rightarrow> string \<Rightarrow> u8 \<Rightarrow> conversation" where
  "new_conversation cid from to routing_id =
     \<lparr>conv_id = cid, conv_from = from, conv_to = to,
      conv_routing_id = routing_id, conv_routes = []\<rparr>"

definition new_member :: "string \<Rightarrow> string \<Rightarrow> member" where
  "new_member uid pwd = \<lparr>mb_uid = uid, mb_pwd = pwd\<rparr>"

subsection \<open>Statuses and messages\<close>

datatype code = Unauthenticated | InvalidArgument | NotFound | Internal

record status =
  st_code :: code
  st_message :: string

definition mk_status :: "code \<Rightarrow> string \<Rightarrow> status" where
  "mk_status c m = \<lparr>st_code = c, st_message = m\<rparr>"

lemma mk_status_sel [simp]: "st_code (mk_status c m) = c" "st_message (mk_status c m) = m"
  by (simp_all add: mk_status_def)

lemma mk_status_eq [simp]: "mk_status c m = mk_status c' m' \<longleftrightarrow> c = c' \<and> m = m'"
  by (simp add: mk_status_def)

record login_request =
  lr_component_type :: i32
  lr_uid :: string
  lr_pwd :: string
  lr_on_ip :: string
  lr_on_port :: u32
  lr_public_key :: bytes
  lr_domain_name :: string

record login_response =
  lresp_access_key :: string
  lresp_message :: string

record ping_response =
  presp_status :: string
  presp_timestamp :: i64

record status_response =
  sr_version :: string
  sr_connected_proxies :: u32
  sr_connected_clients :: u32
  sr_connected_controllers :: u32

record route_response =
  rr_ip_address :: string
  rr_port_number :: u32
  rr_public_key :: bytes
  rr_domain_name :: string
  rr_nonce :: string
  rr_end_route :: bool

text \<open>\<open>CommandRequest\<close> of the proxy service and its command codes; \<open>TextRequest\<close> of the client.\<close>

record command_request =
  cr_conversation_id :: string
  cr_nonce :: string
  cr_command :: i32
  cr_content :: "bytes option"

datatype command_type = Unknown_Command | Send_Command | Status_Command

fun command_code :: "command_type \<Rightarrow> i32" where
  "command_code Unknown_Command = 0"
| "command_code Send_Command = 1"
| "command_code Status_Command = 2"

definition command_from_i32 :: "i32 \<Rightarrow> command_type option" where
  "command_from_i32 v =
     (if v = 0 then Some Unknown_Command else if v = 1 then Some Send_Command
      else if v = 2 then Some Status_Command else None)"

lemma command_from_code [simp]: "command_from_i32 (command_code c) = Some c"
  by (cases c) (simp_all add: command_from_i32_def)

record text_request =
  tr_conversation_id :: string
  tr_access_key :: string
  tr_nonce :: string
  tr_content :: bytes

text \<open>
  A redeem response carries the sender (\<^verbatim>\<open>SourceInfo.from\<close>) or nothing: it is a \<open>string option\<close>.
\<close>

end
