(* ===== verification/Storage.thy ===== *)
theory Storage
  imports Models
begin

section \<open>Storage: the repository traits and what their clients rely on\<close>

text \<open>
  \<^verbatim>\<open>controller/src/storage/mod.rs\<close>.  Each repository trait is a record of operations, one field per
  method, over a world state \<open>'w\<close> that the providers and their clients share; the managers hold a
  \<^verbatim>\<open>Box<dyn ...>\<close> and so take such a record as an argument.  A method may panic, as some of the
  Redis methods do.

  The contracts are the locales \<open>session_store\<close>, \<open>member_store\<close> and \<open>route_store\<close>, each relative to
  an abstract view of the stored data, and \<open>single_use_route_store\<close>, which adds that a removed
  route is gone.
\<close>

subsection \<open>Choosing a repository\<close>

datatype repository_type = InMemory | Redis

definition default_repository_type :: repository_type where
  "default_repository_type = InMemory"

definition repository_type_from_u8 :: "u8 \<Rightarrow> repository_type" where
  "repository_type_from_u8 v = (if v = 1 then Redis else default_repository_type)"

definition repository_type_from_env :: "environment \<Rightarrow> repository_type" where
  "repository_type_from_env env =
     (let text = (case get_env_variable env ''REPOSITORY'' of Ok v \<Rightarrow> v | _ \<Rightarrow> [])
      in case parse_u8 text of
           Some v \<Rightarrow> repository_type_from_u8 v
         | None \<Rightarrow> default_repository_type)"

definition ROUTES_EXPIRATION_TIME :: duration where
  "ROUTES_EXPIRATION_TIME = 60000"

definition CONVERSATIONS_EXPIRATION_TIME :: duration where
  "CONVERSATIONS_EXPIRATION_TIME = 60000"

definition SESSIONS_EXPIRATION_TIME :: duration where
  "SESSIONS_EXPIRATION_TIME = 10000"

subsection \<open>The repository traits\<close>

record ('w, 'e) session_repository =
  repo_set_session :: "session_info \<Rightarrow> ('w, unit, 'e) prog"
  repo_get_session :: "string \<Rightarrow> ('w, session_info option, 'e) prog"
  repo_remove_session :: "string \<Rightarrow> ('w, unit, 'e) prog"
  repo_get_proxies :: "string \<Rightarrow> ('w, session_info list option, 'e) prog"
  repo_get_client :: "string \<Rightarrow> ('w, session_info option, 'e) prog"
  repo_count_proxies :: "('w, nat, 'e) prog"
  repo_count_clients :: "('w, nat, 'e) prog"
  repo_count_controllers :: "('w, nat, 'e) prog"

record ('w, 'e) route_repository =
  repo_set_conversation :: "conversation \<Rightarrow> ('w, string option, 'e) prog"
  repo_remove_conversation :: "string \<Rightarrow> ('w, unit, 'e) prog"
  repo_get_conversation :: "string \<Rightarrow> ('w, conversation option, 'e) prog"
  repo_set_route :: "string \<Rightarrow> route \<Rightarrow> ('w, string option, 'e) prog"
  repo_get_route :: "string \<Rightarrow> string \<Rightarrow> ('w, route option, 'e) prog"
  repo_remove_route :: "string \<Rightarrow> ('w, unit, 'e) prog"

record ('w, 'e) member_repository =
  repo_set_member :: "member \<Rightarrow> ('w, unit, 'e) prog"
  repo_get_member :: "string \<Rightarrow> ('w, member option, 'e) prog"

subsection \<open>Contracts\<close>

text \<open>
  Sessions: \<open>live w\<close> maps an access key to the session the store would return for it.  Looking a
  session up may change the state (it renews the session) but not what later lookups return.
\<close>

locale session_store =
  fixes SR :: "('w, 'e) session_repository"
    and inv :: "'w \<Rightarrow> bool"
    and live :: "'w \<Rightarrow> string \<Rightarrow> session_info option"
  assumes set_session:
      "inv w \<Longrightarrow> component_from_u8 (ss_component_type s) \<noteq> None \<Longrightarrow>
       \<exists>w'. repo_set_session SR s w = (Ok (), w') \<and> inv w' \<and>
            live w' = (live w)(ss_access_key s \<mapsto> s)"
    and get_session:
      "inv w \<Longrightarrow> \<exists>w'. repo_get_session SR k w = (Ok (live w k), w') \<and> inv w' \<and> live w' = live w"
    and remove_session:
      "inv w \<Longrightarrow> \<exists>w'. repo_remove_session SR k w = (Ok (), w') \<and> inv w' \<and>
                     live w' = (live w)(k := None)"
    and live_key: "inv w \<Longrightarrow> live w k = Some s \<Longrightarrow> ss_access_key s = k"

text \<open>Members: read-only for the services, keyed by user id.\<close>

locale member_store =
  fixes MR :: "('w, 'e) member_repository"
    and inv :: "'w \<Rightarrow> bool"
    and mem :: "'w \<Rightarrow> string \<Rightarrow> member option"
  assumes set_member:
      "inv w \<Longrightarrow> \<exists>w'. repo_set_member MR m w = (Ok (), w') \<and> inv w' \<and>
                     mem w' = (mem w)(mb_uid m \<mapsto> m)"
    and get_member: "inv w \<Longrightarrow> repo_get_member MR u w = (Ok (mem w u), w)"

text \<open>
  Conversations and routes: \<open>conv w\<close> maps a conversation id to the conversation, \<open>rts w c n\<close> is the
  route a redemption of nonce \<open>n\<close> in conversation \<open>c\<close> finds.
\<close>

locale route_store =
  fixes RR :: "('w, 'e) route_repository"
    and inv :: "'w \<Rightarrow> bool"
    and conv :: "'w \<Rightarrow> string \<Rightarrow> conversation option"
    and rts :: "'w \<Rightarrow> string \<Rightarrow> string \<Rightarrow> route option"
  assumes set_conversation:
      "inv w \<Longrightarrow> conv w (conv_id x) = None \<Longrightarrow>
       \<exists>w'. repo_set_conversation RR x w = (Ok (Some (conv_id x)), w') \<and> inv w' \<and>
            conv w' = (conv w)(conv_id x \<mapsto> x) \<and> rts w' = rts w"
    and get_conversation: "inv w \<Longrightarrow> repo_get_conversation RR c w = (Ok (conv w c), w)"
    and remove_conversation:
      "inv w \<Longrightarrow> \<exists>w'. repo_remove_conversation RR c w = (Ok (), w') \<and> inv w' \<and>
                     conv w' = (conv w)(c := None) \<and> rts w' = rts w"
    and set_route:
      "inv w \<Longrightarrow> conv w c = Some x \<Longrightarrow> (\<And>d. rts w d (rt_nonce r) = None) \<Longrightarrow>
       \<exists>w'. repo_set_route RR c r w = (Ok (Some (rt_nonce r)), w') \<and> inv w' \<and>
            conv w' = (conv w)(c \<mapsto> x\<lparr>conv_routes := conv_routes x @ [r]\<rparr>) \<and>
            rts w' c (rt_nonce r) = Some r \<and>
            (\<forall>d n. n \<noteq> rt_nonce r \<longrightarrow> rts w' d n = rts w d n)"
    and get_route: "inv w \<Longrightarrow> repo_get_route RR c n w = (Ok (rts w c n), w)"

locale single_use_route_store = route_store +
  assumes remove_route:
      "inv w \<Longrightarrow> \<exists>w'. repo_remove_route RR n w = (Ok (), w') \<and> inv w' \<and> conv w' = conv w \<and>
            (\<forall>d. rts w' d n = None) \<and> (\<forall>d m. m \<noteq> n \<longrightarrow> rts w' d m = rts w d m)"

text \<open>
  The three stores of one controller, over one world: an operation of one of them leaves what the
  others hold alone.
\<close>

locale controller_stores =
  session_store SR inv live + member_store MR inv mem + route_store RR inv conv rts
  for SR :: "('w, 'e) session_repository"
    and MR :: "('w, 'e) member_repository"
    and RR :: "('w, 'e) route_repository"
    and inv :: "'w \<Rightarrow> bool"
    and live :: "'w \<Rightarrow> string \<Rightarrow> session_info option"
    and mem :: "'w \<Rightarrow> string \<Rightarrow> member option"
    and conv :: "'w \<Rightarrow> string \<Rightarrow> conversation option"
    and rts :: "'w \<Rightarrow> string \<Rightarrow> string \<Rightarrow> route option" +
  assumes set_session_frame:
      "inv w \<Longrightarrow> repo_set_session SR s w = (r, w') \<Longrightarrow>
       mem w' = mem w \<and> conv w' = conv w \<and> rts w' = rts w"
    and get_session_frame:
      "inv w \<Longrightarrow> repo_get_session SR k w = (r', w') \<Longrightarrow>
       mem w' = mem w \<and> conv w' = conv w \<and> rts w' = rts w"
    and remove_session_frame:
      "inv w \<Longrightarrow> repo_remove_session SR k w = (r, w') \<Longrightarrow>
       mem w' = mem w \<and> conv w' = conv w \<and> rts w' = rts w"
    and set_conversation_frame:
      "inv w \<Longrightarrow> repo_set_conversation RR x w = (r'', w') \<Longrightarrow> live w' = live w \<and> mem w' = mem w"
    and remove_conversation_frame:
      "inv w \<Longrightarrow> repo_remove_conversation RR c w = (r, w') \<Longrightarrow> live w' = live w \<and> mem w' = mem w"
    and set_route_frame:
      "inv w \<Longrightarrow> repo_set_route RR c rt w = (r'', w') \<Longrightarrow> live w' = live w \<and> mem w' = mem w"
    and remove_route_frame:
      "inv w \<Longrightarrow> repo_remove_route RR n w = (r, w') \<Longrightarrow> live w' = live w \<and> mem w' = mem w"

end
