(* ===== verification/Managers.thy ===== *)
theory Managers
  imports Storage
begin

section \<open>The managers: sessions, members and routing\<close>

text \<open>
  \<^verbatim>\<open>controller/src/session.rs\<close>, \<^verbatim>\<open>membership.rs\<close> and \<^verbatim>\<open>routing.rs\<close>.  A manager holds a repository and
  is modelled by functions that take it.  What the code draws from a generator is an argument:
  the text of each fresh UUID, and \<open>pick\<close>, the random choice of an element of a list.  The CSV
  reader belongs to the \<^verbatim>\<open>csv\<close> crate; the records it yields are an argument, \<open>None\<close> for a record
  it rejects.
\<close>

subsection \<open>Sessions\<close>

definition sm_set_session ::
  "('w, 'e) session_repository \<Rightarrow> string \<Rightarrow> string \<Rightarrow> component \<Rightarrow> socket_addr \<Rightarrow>
     connection_settings \<Rightarrow> ('w, string, 'e) prog" where
  "sm_set_session SR uuid uid component_type client_ip cs =
     (let access_key = uuid;
          session_info =
            \<lparr>ss_access_key = access_key, ss_uid = uid, ss_client_ip = client_ip,
             ss_on_port_number = cs_port cs, ss_on_ip_address = cs_ip cs,
             ss_component_type = u8_from_component component_type,
             ss_public_key = cs_certificate cs, ss_domain_name = cs_domain_name cs\<rparr>
      in and_then (repo_set_session SR session_info) (\<lambda>_. ret access_key))"

definition sm_get_session ::
  "('w, 'e) session_repository \<Rightarrow> string \<Rightarrow> ('w, session_info option, 'e) prog" where
  "sm_get_session SR access_key = repo_get_session SR access_key"

definition sm_remove_session ::
  "('w, 'e) session_repository \<Rightarrow> string \<Rightarrow> ('w, unit, 'e) prog" where
  "sm_remove_session SR access_key = repo_remove_session SR access_key"

definition sm_get_proxies ::
  "('w, 'e) session_repository \<Rightarrow> string \<Rightarrow> ('w, session_info list option, 'e) prog" where
  "sm_get_proxies SR access_key = repo_get_proxies SR access_key"

definition sm_get_client ::
  "('w, 'e) session_repository \<Rightarrow> string \<Rightarrow> ('w, session_info option, 'e) prog" where
  "sm_get_client SR uid = repo_get_client SR uid"

definition sm_count_proxies :: "('w, 'e) session_repository \<Rightarrow> ('w, nat, 'e) prog" where
  "sm_count_proxies SR = repo_count_proxies SR"

definition sm_count_clients :: "('w, 'e) session_repository \<Rightarrow> ('w, nat, 'e) prog" where
  "sm_count_clients SR = repo_count_clients SR"

definition sm_count_controllers :: "('w, 'e) session_repository \<Rightarrow> ('w, nat, 'e) prog" where
  "sm_count_controllers SR = repo_count_controllers SR"

lemmas session_manager_defs =
  sm_set_session_def sm_get_session_def sm_remove_session_def sm_get_proxies_def
  sm_get_client_def sm_count_proxies_def sm_count_clients_def sm_count_controllers_def

subsection \<open>Members\<close>

definition mm_get_member ::
  "('w, 'e) member_repository \<Rightarrow> string \<Rightarrow> ('w, member option, 'e) prog" where
  "mm_get_member MR uid = repo_get_member MR uid"

fun mm_set_members ::
  "('w, 'e) member_repository \<Rightarrow> member list \<Rightarrow> ('w, unit, 'e) prog" where
  "mm_set_members MR [] = ret ()"
| "mm_set_members MR (m # ms) = and_then (repo_set_member MR m) (\<lambda>_. mm_set_members MR ms)"

text \<open>\<open>None\<close> is the panic of \<^verbatim>\<open>item.get(i).unwrap()\<close> on a record with fewer than two fields.\<close>

fun members_of_records :: "string list option list \<Rightarrow> member list option" where
  "members_of_records [] = Some []"
| "members_of_records (None # rs) = members_of_records rs"
| "members_of_records (Some (uid # pwd # _) # rs) =
     map_option (\<lambda>ms. new_member uid pwd # ms) (members_of_records rs)"
| "members_of_records (Some _ # rs) = None"

definition read_members_from_csv ::
  "environment \<Rightarrow> (bytes \<Rightarrow> string list option list) \<Rightarrow> string \<Rightarrow> member list option" where
  "read_members_from_csv env csv_records path =
     (case read_file env path of
        None \<Rightarrow> None
      | Some file \<Rightarrow> members_of_records (csv_records file))"

definition mm_seed_members_from_csv ::
  "('w, 'e) member_repository \<Rightarrow> environment \<Rightarrow> (bytes \<Rightarrow> string list option list) \<Rightarrow> string \<Rightarrow>
     ('w, unit, 'e) prog" where
  "mm_seed_members_from_csv MR env csv_records file_path =
     and_then (unwrap_or_panic (read_members_from_csv env csv_records file_path)) (\<lambda>members.
     mm_set_members MR members)"

context member_store begin

lemma set_members:
  "inv w \<Longrightarrow> \<exists>w'. mm_set_members MR ms w = (Ok (), w') \<and> inv w' \<and>
     mem w' = mem w ++ map_of (rev (map (\<lambda>m. (mb_uid m, m)) ms))"
proof (induction ms arbitrary: w)
  case Nil
  then show ?case by (simp add: prog_simps)
next
  case (Cons m ms)
  from set_member [OF Cons.prems] obtain v where
    v: "repo_set_member MR m w = (Ok (), v)" "inv v" "mem v = (mem w)(mb_uid m \<mapsto> m)"
    by blast
  have "mem v ++ M = mem w ++ ([mb_uid m \<mapsto> m] ++ M)" for M
    by (simp add: v(3) map_add_assoc)
  with Cons.IH [OF v(2)] v(1) show ?case by (auto simp: map_of_append)
qed

end

subsection \<open>Routing\<close>

record ('w, 'e) route_strategy =
  strat_get_id :: u8
  strat_has_reached_final_route :: "conversation \<Rightarrow> bool"
  strat_get_next_route ::
    "conversation \<Rightarrow> session_info list \<Rightarrow> ('w, session_info option, 'e) prog"

text \<open>
  \<open>0..proxies.len() - 1\<close> excludes its upper end, and the subtraction underflows on an empty slice,
  which panics in a checked build and exhausts memory in an unchecked one.
\<close>

definition random_next_route ::
  "(nat list \<Rightarrow> nat option) \<Rightarrow> session_info list \<Rightarrow> ('w, session_info option, 'e) prog" where
  "random_next_route pick proxies =
     (if proxies = [] then panic
      else let numbers = [0..<length proxies - 1];
               index = (case pick numbers of Some i \<Rightarrow> i | None \<Rightarrow> 0)
           in ret (if index < length proxies then Some (proxies ! index) else None))"

definition random_route_strategy ::
  "(nat list \<Rightarrow> nat option) \<Rightarrow> ('w, 'e) route_strategy" where
  "random_route_strategy pick =
     \<lparr>strat_get_id = 1,
      strat_has_reached_final_route = (\<lambda>conversation. length (conv_routes conversation) = 3),
      strat_get_next_route = (\<lambda>_. random_next_route pick)\<rparr>"

definition new_strategies :: "(nat list \<Rightarrow> nat option) \<Rightarrow> ('w, 'e) route_strategy list" where
  "new_strategies pick = [random_route_strategy pick]"

definition get_routing_id ::
  "('w, 'e) route_strategy list \<Rightarrow> string \<Rightarrow> string \<Rightarrow> ('w, u8, 'e) prog" where
  "get_routing_id strategies from to =
     (case strategies of [] \<Rightarrow> panic | s # _ \<Rightarrow> ret (strat_get_id s))"

definition get_strategy ::
  "('w, 'e) route_strategy list \<Rightarrow> conversation \<Rightarrow> ('w, ('w, 'e) route_strategy, 'e) prog" where
  "get_strategy strategies conversation =
     unwrap_or_panic
       (List.find (\<lambda>s. strat_get_id s = conv_routing_id conversation) strategies)"

record ('w, 'e) route_manager =
  rm_repository :: "('w, 'e) route_repository"
  rm_strategies :: "('w, 'e) route_strategy list"

definition new_route_manager ::
  "('w, 'e) route_repository \<Rightarrow> (nat list \<Rightarrow> nat option) \<Rightarrow> ('w, 'e) route_manager" where
  "new_route_manager RR pick = \<lparr>rm_repository = RR, rm_strategies = new_strategies pick\<rparr>"

lemma new_route_manager_sel [simp]:
  "rm_repository (new_route_manager RR pick) = RR"
  "rm_strategies (new_route_manager RR pick) = new_strategies pick"
  by (simp_all add: new_route_manager_def)

lemma random_route_strategy_sel [simp]:
  "strat_get_id (random_route_strategy pick) = 1"
  "strat_has_reached_final_route (random_route_strategy pick) x = (length (conv_routes x) = 3)"
  "strat_get_next_route (random_route_strategy pick) x ps = random_next_route pick ps"
  by (simp_all add: random_route_strategy_def)

lemma get_strategy_new [simp]:
  "get_strategy (new_strategies pick) x =
     (if conv_routing_id x = 1 then ret (random_route_strategy pick) else panic)"
  by (simp add: get_strategy_def new_strategies_def)

definition create_conversation_id :: "string \<Rightarrow> string" where
  "create_conversation_id uuid = filter (\<lambda>c. c \<noteq> CHR ''-'') uuid"

definition rm_initialize ::
  "('w, 'e) route_manager \<Rightarrow> string \<Rightarrow> string \<Rightarrow> string \<Rightarrow> ('w, string option, 'e) prog" where
  "rm_initialize rm uuid from to =
     (let conversation_id = create_conversation_id uuid
      in and_then (get_routing_id (rm_strategies rm) from to) (\<lambda>routing_id.
         repo_set_conversation (rm_repository rm)
           (new_conversation conversation_id from to routing_id)))"

definition rm_finalize ::
  "('w, 'e) route_manager \<Rightarrow> string \<Rightarrow> ('w, unit, 'e) prog" where
  "rm_finalize rm conversation_id = repo_remove_conversation (rm_repository rm) conversation_id"

definition rm_get_conversation ::
  "('w, 'e) route_manager \<Rightarrow> string \<Rightarrow> ('w, conversation option, 'e) prog" where
  "rm_get_conversation rm conversation_id =
     repo_get_conversation (rm_repository rm) conversation_id"

definition rm_store_route ::
  "('w, 'e) route_manager \<Rightarrow> string \<Rightarrow> string \<Rightarrow> connection_settings \<Rightarrow> bool \<Rightarrow>
     ('w, string option, 'e) prog" where
  "rm_store_route rm uuid conversation_id cs end_route =
     (let route =
            \<lparr>rt_on_ip_address = cs_ip cs, rt_on_port_number = cs_port cs,
             rt_public_key = cs_certificate cs, rt_domain_name = cs_domain_name cs,
             rt_nonce = uuid, rt_end_route = end_route\<rparr>
      in repo_set_route (rm_repository rm) conversation_id route)"

definition rm_redeem_route ::
  "('w, 'e) route_manager \<Rightarrow> string \<Rightarrow> string \<Rightarrow> ('w, route option, 'e) prog" where
  "rm_redeem_route rm conversation_id nonce =
     and_then (repo_get_route (rm_repository rm) conversation_id nonce) (\<lambda>found.
       case found of
         Some route \<Rightarrow>
           and_then (repo_remove_route (rm_repository rm) nonce) (\<lambda>_. ret (Some route))
       | None \<Rightarrow> ret None)"

definition rm_get_next_route ::
  "('w, 'e) route_manager \<Rightarrow> conversation \<Rightarrow> session_info list \<Rightarrow>
     ('w, session_info option, 'e) prog" where
  "rm_get_next_route rm conversation proxies =
     and_then (get_strategy (rm_strategies rm) conversation) (\<lambda>strategy.
       strat_get_next_route strategy conversation proxies)"

definition rm_check_for_final_route ::
  "('w, 'e) route_manager \<Rightarrow> conversation \<Rightarrow> ('w, bool, 'e) prog" where
  "rm_check_for_final_route rm conversation =
     and_then (get_strategy (rm_strategies rm) conversation) (\<lambda>strategy.
       ret (strat_has_reached_final_route strategy conversation))"

lemmas routing_defs =
  rm_initialize_def rm_finalize_def rm_get_conversation_def rm_store_route_def
  rm_redeem_route_def rm_get_next_route_def rm_check_for_final_route_def

subsection \<open>The random strategy\<close>

text \<open>What the \<^verbatim>\<open>rand\<close> crate documents of \<^verbatim>\<open>choose\<close>: an element of the list, none iff it is empty.\<close>

definition picks :: "(nat list \<Rightarrow> nat option) \<Rightarrow> bool" where
  "picks pick \<longleftrightarrow>
     (\<forall>xs. case pick xs of None \<Rightarrow> xs = [] | Some x \<Rightarrow> x \<in> set xs)"

lemma random_next_route_Some:
  assumes "picks pick" and "ps \<noteq> []"
  obtains i where "random_next_route pick ps w = (Ok (Some (ps ! i)), w)" and "i < length ps"
    and "2 \<le> length ps \<Longrightarrow> i < length ps - 1"
proof -
  let ?numbers = "[0..<length ps - 1]"
  let ?i = "case pick ?numbers of Some i \<Rightarrow> i | None \<Rightarrow> 0"
  have i: "?i < length ps - 1 \<or> ?numbers = [] \<and> ?i = 0"
    using assms(1) [unfolded picks_def, rule_format, of ?numbers] by (auto split: option.splits)
  with assms(2) have len: "?i < length ps" by (cases ps) auto
  with assms(2) have "random_next_route pick ps w = (Ok (Some (ps ! ?i)), w)"
    by (simp add: random_next_route_def Let_def prog_simps)
  from this len show thesis by (rule that) (use i in auto)
qed

text \<open>
  The random strategy returns one of the proxies it is given, but with two or more of
  them never the last one: the range of indices it draws from stops one short.  With a single
  proxy it returns that one, and on an empty list it panics.
\<close>

theorem random_route_never_last:
  fixes w :: 'w
  assumes "picks pick"
  shows "case random_next_route pick ps w :: (session_info option, 'e) outcome \<times> 'w of
           (Ok (Some p), w') \<Rightarrow>
             w' = w \<and> p \<in> set ps \<and> (2 \<le> length ps \<longrightarrow> p \<in> set (butlast ps))
         | (Panic, w') \<Rightarrow> w' = w \<and> ps = []
         | _ \<Rightarrow> False"
proof (cases "ps = []")
  case True
  then show ?thesis by (simp add: random_next_route_def prog_simps)
next
  case False
  obtain i where
    i: "random_next_route pick ps w = (Ok (Some (ps ! i)) :: (session_info option, 'e) outcome, w)"
    "i < length ps" "2 \<le> length ps \<Longrightarrow> i < length ps - 1"
    by (rule random_next_route_Some [OF assms False, of w]) blast
  have "ps ! i \<in> set (butlast ps)" if "2 \<le> length ps"
    using i(3) [OF that] by (metis in_set_conv_nth length_butlast nth_butlast)
  with i show ?thesis by simp
qed

text \<open>A choice for concrete runs: the first element.\<close>

definition pick_first :: "nat list \<Rightarrow> nat option" where
  "pick_first xs = (case xs of [] \<Rightarrow> None | x # _ \<Rightarrow> Some x)"

lemma picks_pick_first: "picks pick_first"
  by (simp add: picks_def pick_first_def split: list.splits)

end
