(* ===== verification/Services.thy ===== *)
theory Services
  imports Managers
begin

section \<open>The controller's gRPC services\<close>

text \<open>
  \<^verbatim>\<open>controller/src/services\<close>: the guards, the authentication, information and routing services.
  A handler is a program over the world of the repositories that ends in a response, a status or
  a panic, with every guard, early return and state change of the code in its order.  Logging is
  left out.  Further arguments are what the code reads from its surroundings: the peer address of
  the request, the time stamp, and the text of a fresh UUID.
\<close>

subsection \<open>Guards\<close>

definition check_session ::
  "('w, status) session_repository \<Rightarrow> string \<Rightarrow> ('w, unit, status) prog" where
  "check_session SR access_key =
     and_then (sm_get_session SR access_key) (\<lambda>found.
     and_then (ok_or (mk_status Unauthenticated ''Invalid access key'') found) (\<lambda>_.
     ret ()))"

definition check_conversation ::
  "('w, status) route_manager \<Rightarrow> string \<Rightarrow> ('w, unit, status) prog" where
  "check_conversation rm conversation_id =
     and_then (rm_get_conversation rm conversation_id) (\<lambda>found.
     and_then (ok_or (mk_status NotFound ''Invalid conversation'') found) (\<lambda>_.
     ret ()))"

subsection \<open>Authentication\<close>

definition validate_credentials ::
  "('w, status) member_repository \<Rightarrow> string \<Rightarrow> string \<Rightarrow> ('w, bool, status) prog" where
  "validate_credentials MR uid pwd =
     and_then (mm_get_member MR uid) (\<lambda>found.
     ret (case found of None \<Rightarrow> False | Some member \<Rightarrow> mb_pwd member = pwd))"

definition auth_ping ::
  "('w, status) session_repository \<Rightarrow> socket_addr option \<Rightarrow> i64 \<Rightarrow> string \<Rightarrow>
     ('w, ping_response, status) prog" where
  "auth_ping SR remote_addr now_micros access_key =
     and_then (ok_or (mk_status Internal ''Could not get client IP address'') remote_addr) (\<lambda>client_ip.
     and_then (check_session SR access_key) (\<lambda>_.
     and_then (sm_get_session SR access_key) (\<lambda>found.
     and_then (unwrap_or_panic found) (\<lambda>session.
     if ss_client_ip session \<noteq> client_ip
     then throw (mk_status Unauthenticated ''Invalid connection'')
     else ret \<lparr>presp_status = ''PONG'', presp_timestamp = now_micros\<rparr>))))"

text \<open>The emptiness test names the user id twice; the password is not tested.\<close>

definition auth_login ::
  "('w, status) session_repository \<Rightarrow> ('w, status) member_repository \<Rightarrow> string \<Rightarrow>
     socket_addr option \<Rightarrow> login_request \<Rightarrow> ('w, login_response, status) prog" where
  "auth_login SR MR uuid remote_addr req =
     and_then (ok_or (mk_status Internal ''Could not get client IP address'') remote_addr) (\<lambda>client_ip.
     if lr_uid req = [] \<or> lr_uid req = []
     then throw (mk_status InvalidArgument ''UID and PWD cannot be empty'')
     else
     and_then (unwrap_or_panic (component_from_i32 (lr_component_type req))) (\<lambda>component_type.
     if component_type = Controller
     then throw (mk_status InvalidArgument ''Invalid component type'')
     else
     and_then (validate_credentials MR (lr_uid req) (lr_pwd req)) (\<lambda>valid.
     if valid
     then
       let cs = \<lparr>cs_ip = lr_on_ip req, cs_port = ucast (lr_on_port req),
                 cs_domain_name = lr_domain_name req, cs_certificate = lr_public_key req\<rparr>
       in and_then (sm_set_session SR uuid (lr_uid req) component_type client_ip cs) (\<lambda>access_key.
          ret \<lparr>lresp_access_key = access_key, lresp_message = ''Login successful''\<rparr>)
     else throw (mk_status Unauthenticated ''Invalid credentials''))))"

definition auth_logout ::
  "('w, status) session_repository \<Rightarrow> string \<Rightarrow> ('w, unit, status) prog" where
  "auth_logout SR access_key =
     and_then (check_session SR access_key) (\<lambda>_.
     and_then (sm_remove_session SR access_key) (\<lambda>_.
     ret ()))"

subsection \<open>Information\<close>

text \<open>\<^verbatim>\<open>u32::try_from(n).unwrap_or_default()\<close>: a count that does not fit is reported as 0.\<close>

definition count_to_u32 :: "nat \<Rightarrow> u32" where
  "count_to_u32 n = (if n < 2 ^ 32 then of_nat n else 0)"

definition info_status ::
  "('w, status) session_repository \<Rightarrow> string \<Rightarrow> string \<Rightarrow> ('w, status_response, status) prog" where
  "info_status SR version access_key =
     and_then (check_session SR access_key) (\<lambda>_.
     and_then (sm_count_proxies SR) (\<lambda>proxies_count.
     and_then (sm_count_clients SR) (\<lambda>clients_count.
     and_then (sm_count_controllers SR) (\<lambda>controllers_count.
     ret \<lparr>sr_version = version,
          sr_connected_proxies = count_to_u32 proxies_count,
          sr_connected_clients = count_to_u32 clients_count,
          sr_connected_controllers = count_to_u32 controllers_count\<rparr>))))"

subsection \<open>Routing\<close>

definition CONTROLLER_UID :: string where
  "CONTROLLER_UID = ''controller_uid''"

definition handle_route ::
  "('w, status) route_manager \<Rightarrow> string \<Rightarrow> string \<Rightarrow> session_info \<Rightarrow> bool \<Rightarrow>
     ('w, route_response, status) prog" where
  "handle_route rm uuid conversation_id session_info end_route =
     (let cs = to_connection_settings session_info
      in and_then (rm_store_route rm uuid conversation_id cs end_route) (\<lambda>stored.
         and_then (ok_or (mk_status Internal ''Failed to store route'') stored) (\<lambda>nonce.
         ret \<lparr>rr_ip_address = ss_on_ip_address session_info,
              rr_port_number = ucast (ss_on_port_number session_info),
              rr_public_key = ss_public_key session_info,
              rr_domain_name = ss_domain_name session_info,
              rr_nonce = nonce,
              rr_end_route = end_route\<rparr>)))"

text \<open>The response of \<open>initialize\<close> is the conversation id.\<close>

definition route_initialize ::
  "('w, status) session_repository \<Rightarrow> ('w, status) route_manager \<Rightarrow> string \<Rightarrow> string \<Rightarrow> string \<Rightarrow>
     ('w, string, status) prog" where
  "route_initialize SR rm uuid access_key init_to =
     and_then (check_session SR access_key) (\<lambda>_.
     and_then (sm_get_session SR access_key) (\<lambda>found.
     and_then (unwrap_or_panic found) (\<lambda>session_info.
     let to = (if init_to = [] then CONTROLLER_UID else init_to)
     in and_then (rm_initialize rm uuid (ss_uid session_info) to) (\<lambda>created.
        ok_or (mk_status Internal ''Failed to initialize conversation'') created))))"

definition route_route ::
  "('w, status) session_repository \<Rightarrow> ('w, status) route_manager \<Rightarrow> string \<Rightarrow> string \<Rightarrow> string \<Rightarrow>
     ('w, route_response, status) prog" where
  "route_route SR rm uuid access_key conversation_id =
     and_then (check_session SR access_key) (\<lambda>_.
     and_then (check_conversation rm conversation_id) (\<lambda>_.
     and_then (rm_get_conversation rm conversation_id) (\<lambda>found.
     and_then (unwrap_or_panic found) (\<lambda>conversation.
     and_then (rm_check_for_final_route rm conversation) (\<lambda>final.
     if final
     then
       and_then (sm_get_client SR (conv_to conversation)) (\<lambda>client.
         case client of
           Some client_session \<Rightarrow> handle_route rm uuid conversation_id client_session True
         | None \<Rightarrow>
             throw (mk_status NotFound
               ''Reached final route, no more routes available as no client found''))
     else
       and_then (sm_get_proxies SR access_key) (\<lambda>proxies.
         case proxies of
           None \<Rightarrow> throw (mk_status NotFound ''No proxies found'')
         | Some ps \<Rightarrow>
             and_then (rm_get_next_route rm conversation ps) (\<lambda>next_route.
               case next_route of
                 Some proxy_session \<Rightarrow> handle_route rm uuid conversation_id proxy_session False
               | None \<Rightarrow>
                   throw (mk_status NotFound
                     ''Next route wasn't found, no more routes available''))))))))"

text \<open>The response of \<open>redeem\<close> is the sender, for an end route, or nothing.\<close>

definition route_redeem ::
  "('w, status) session_repository \<Rightarrow> ('w, status) route_manager \<Rightarrow> string \<Rightarrow> string \<Rightarrow> string \<Rightarrow>
     ('w, string option, status) prog" where
  "route_redeem SR rm access_key conversation_id nonce =
     and_then (check_session SR access_key) (\<lambda>_.
     and_then (check_conversation rm conversation_id) (\<lambda>_.
     and_then (rm_redeem_route rm conversation_id nonce) (\<lambda>redeemed.
       case redeemed of
         Some route \<Rightarrow>
           if rt_end_route route
           then
             and_then (rm_get_conversation rm conversation_id) (\<lambda>found.
             and_then (unwrap_or_panic found) (\<lambda>conversation.
             and_then (rm_finalize rm conversation_id) (\<lambda>_.
             ret (Some (conv_from conversation)))))
           else ret None
       | None \<Rightarrow> throw (mk_status Internal ''Failed to redeem route''))))"

lemmas service_defs =
  auth_ping_def auth_login_def auth_logout_def info_status_def handle_route_def
  route_initialize_def route_route_def route_redeem_def

subsection \<open>The services over any stores that keep the contracts\<close>

text \<open>
  A handler sees the stores through what they hold; \<open>same w w'\<close> says that two worlds hold the same
  (the lifetimes of the sessions may differ).
\<close>

locale services =
  controller_stores SR MR RR inv live mem conv rts
  for SR :: "('w, status) session_repository"
    and MR :: "('w, status) member_repository"
    and RR :: "('w, status) route_repository"
    and inv :: "'w \<Rightarrow> bool"
    and live :: "'w \<Rightarrow> string \<Rightarrow> session_info option"
    and mem :: "'w \<Rightarrow> string \<Rightarrow> member option"
    and conv :: "'w \<Rightarrow> string \<Rightarrow> conversation option"
    and rts :: "'w \<Rightarrow> string \<Rightarrow> string \<Rightarrow> route option"

locale single_use_services =
  services SR MR RR inv live mem conv rts + single_use_route_store RR inv conv rts
  for SR :: "('w, status) session_repository"
    and MR :: "('w, status) member_repository"
    and RR :: "('w, status) route_repository"
    and inv :: "'w \<Rightarrow> bool"
    and live :: "'w \<Rightarrow> string \<Rightarrow> session_info option"
    and mem :: "'w \<Rightarrow> string \<Rightarrow> member option"
    and conv :: "'w \<Rightarrow> string \<Rightarrow> conversation option"
    and rts :: "'w \<Rightarrow> string \<Rightarrow> string \<Rightarrow> route option"

context services begin

definition same :: "'w \<Rightarrow> 'w \<Rightarrow> bool" where
  "same w w' \<longleftrightarrow>
     inv w' \<and> live w' = live w \<and> mem w' = mem w \<and> conv w' = conv w \<and> rts w' = rts w"

lemma same_trans: "same u v \<Longrightarrow> same v w \<Longrightarrow> same u w"
  by (simp add: same_def)

lemma get_session_run:
  assumes "inv w"
  obtains w' where "sm_get_session SR k w = (Ok (live w k), w')" and "same w w'"
proof -
  from get_session [OF assms] obtain w' where
    r: "repo_get_session SR k w = (Ok (live w k), w')" "inv w'" "live w' = live w"
    by blast
  from get_session_frame [OF assms r(1)] r show thesis
    by (intro that [of w']) (simp_all add: sm_get_session_def same_def)
qed

lemma check_session_Err:
  assumes "inv w" and "live w k = None"
  obtains w' where
    "check_session SR k w = (Err (mk_status Unauthenticated ''Invalid access key''), w')"
    and "same w w'"
  by (rule get_session_run [OF assms(1), of k])
     (use assms(2) that in \<open>simp add: check_session_def prog_simps\<close>)

lemma check_session_Ok:
  assumes "inv w" and "live w k = Some s"
  obtains w' where "check_session SR k w = (Ok (), w')" and "same w w'"
  by (rule get_session_run [OF assms(1), of k])
     (use assms(2) that in \<open>simp add: check_session_def prog_simps\<close>)

text \<open>An access key that names no session is rejected by every handler that asks for one.\<close>

lemma unknown_key:
  assumes "inv w" and "live w k = None"
  obtains w' where "same w w'"
    and "and_then (check_session SR k) rest w =
           (Err (mk_status Unauthenticated ''Invalid access key''), w')"
  by (rule check_session_Err [OF assms]) (use that in simp)

lemma ping_run:
  assumes "inv w"
  obtains w' where "same w w'"
    and "auth_ping SR (Some ip) now k w =
          (case live w k of
             None \<Rightarrow> Err (mk_status Unauthenticated ''Invalid access key'')
           | Some s \<Rightarrow>
               if ss_client_ip s = ip then Ok \<lparr>presp_status = ''PONG'', presp_timestamp = now\<rparr>
               else Err (mk_status Unauthenticated ''Invalid connection''), w')"
proof (cases "live w k")
  case None
  from check_session_Err [OF assms None] obtain w' where
    "check_session SR k w = (Err (mk_status Unauthenticated ''Invalid access key''), w')" "same w w'" .
  with None show thesis by (intro that [of w']) (simp_all add: auth_ping_def)
next
  case (Some s)
  from check_session_Ok [OF assms Some] obtain v where
    v: "check_session SR k w = (Ok (), v)" "same w v" .
  then have "inv v" and live: "live v k = Some s" by (simp_all add: same_def Some)
  from get_session_run [OF \<open>inv v\<close>, of k] obtain u where
    u: "sm_get_session SR k v = (Ok (live v k), u)" "same v u" .
  have "auth_ping SR (Some ip) now k w =
      (if ss_client_ip s = ip then Ok \<lparr>presp_status = ''PONG'', presp_timestamp = now\<rparr>
       else Err (mk_status Unauthenticated ''Invalid connection''), u)"
    using v(1) u(1) live by (simp add: auth_ping_def) (simp add: prog_simps)
  with same_trans [OF v(2) u(2)] Some show thesis by (intro that [of u]) simp_all
qed

lemma logout_run:
  assumes "inv w" and "live w k = Some s"
  obtains w' where "auth_logout SR k w = (Ok (), w')" and "inv w'"
    and "live w' = (live w)(k := None)" and "mem w' = mem w" and "conv w' = conv w"
    and "rts w' = rts w"
proof -
  from check_session_Ok [OF assms] obtain v where
    v: "check_session SR k w = (Ok (), v)" "same w v" .
  then have "inv v" by (simp add: same_def)
  from remove_session [OF this, of k] obtain u where
    u: "repo_remove_session SR k v = (Ok (), u)" "inv u" "live u = (live v)(k := None)" by blast
  from remove_session_frame [OF \<open>inv v\<close> u(1)] u v show thesis
    by (intro that [of u]) (simp_all add: auth_logout_def sm_remove_session_def same_def)
qed

lemma login_run:
  assumes "inv w" and "lr_uid req \<noteq> []"
    and c: "component_from_i32 (lr_component_type req) = Some c" "c \<noteq> Controller"
    and m: "mem w (lr_uid req) = Some m" "mb_pwd m = lr_pwd req"
    and s: "s = \<lparr>ss_access_key = uuid, ss_uid = lr_uid req, ss_client_ip = ip,
                 ss_on_port_number = ucast (lr_on_port req), ss_on_ip_address = lr_on_ip req,
                 ss_component_type = u8_from_component c, ss_public_key = lr_public_key req,
                 ss_domain_name = lr_domain_name req\<rparr>"
  obtains w' where
    "auth_login SR MR uuid (Some ip) req w =
       (Ok \<lparr>lresp_access_key = uuid, lresp_message = ''Login successful''\<rparr>, w')"
    and "inv w'" and "live w' = (live w)(uuid \<mapsto> s)" and "mem w' = mem w" and "conv w' = conv w"
    and "rts w' = rts w"
proof -
  have valid: "validate_credentials MR (lr_uid req) (lr_pwd req) w = (Ok True, w)"
    using get_member [OF assms(1), of "lr_uid req"] m
    by (simp add: validate_credentials_def mm_get_member_def prog_simps)
  have "component_from_u8 (ss_component_type s) \<noteq> None" by (simp add: s)
  from set_session [OF assms(1) this] obtain v where
    v: "repo_set_session SR s w = (Ok (), v)" "inv v" "live v = (live w)(ss_access_key s \<mapsto> s)"
    by blast
  have "sm_set_session SR uuid (lr_uid req) c ip
      \<lparr>cs_ip = lr_on_ip req, cs_port = ucast (lr_on_port req),
       cs_domain_name = lr_domain_name req, cs_certificate = lr_public_key req\<rparr> w = (Ok uuid, v)"
    using v(1) by (simp add: sm_set_session_def s Let_def prog_simps)
  with valid c assms(2) have
    "auth_login SR MR uuid (Some ip) req w =
       (Ok \<lparr>lresp_access_key = uuid, lresp_message = ''Login successful''\<rparr>, v)"
    by (simp add: auth_login_def Let_def prog_simps)
  with set_session_frame [OF assms(1) v(1)] v(2,3) show thesis
    by (intro that [of v]) (simp_all add: s)
qed

lemma check_conversation_run:
  assumes "inv w"
  shows "check_conversation (new_route_manager RR pick) c w =
           (case conv w c of None \<Rightarrow> Err (mk_status NotFound ''Invalid conversation'')
                           | Some _ \<Rightarrow> Ok (), w)"
  using get_conversation [OF assms, of c]
  by (simp add: check_conversation_def new_route_manager_def rm_get_conversation_def prog_simps
      split: option.splits)

text \<open>A redemption that does not find the nonce changes nothing.\<close>

lemma redeem_unknown_run:
  assumes "inv w" and "live w k = Some s" and "conv w c = Some x" and "rts w c n = None"
  obtains w' where
    "route_redeem SR (new_route_manager RR pick) k c n w =
       (Err (mk_status Internal ''Failed to redeem route''), w')"
    and "same w w'"
proof -
  from check_session_Ok [OF assms(1,2)] obtain v where
    v: "check_session SR k w = (Ok (), v)" "same w v" .
  then have inv: "inv v" and eq: "live v = live w" "conv v = conv w" "rts v = rts w"
    by (simp_all add: same_def)
  have checked: "check_conversation (new_route_manager RR pick) c v = (Ok (), v)"
    using check_conversation_run [OF inv, of pick c] by (simp add: eq assms(3))
  have "rm_redeem_route (new_route_manager RR pick) c n v = (Ok None, v)"
    using get_route [OF inv, of c n] assms(4)
    by (simp add: rm_redeem_route_def new_route_manager_def eq prog_simps)
  with v checked show thesis
    by (intro that [of v]) (simp_all add: route_redeem_def, simp add: prog_simps)
qed

end

context single_use_services begin

lemma redeem_manager_run:
  assumes "inv w"
  obtains w' where "rm_redeem_route (new_route_manager RR pick) c n w = (Ok (rts w c n), w')"
    and "inv w'" and "live w' = live w" and "mem w' = mem w" and "conv w' = conv w"
    and "\<And>d. rts w c n = None \<or> rts w' d n = None"
    and "\<And>d m. m \<noteq> n \<Longrightarrow> rts w' d m = rts w d m"
proof (cases "rts w c n")
  case None
  with get_route [OF assms, of c n] assms show thesis
    by (intro that [of w]) (simp_all add: rm_redeem_route_def new_route_manager_def prog_simps)
next
  case (Some r)
  from remove_route [OF assms, of n] obtain v where
    v: "repo_remove_route RR n w = (Ok (), v)" "inv v" "conv v = conv w" "\<And>d. rts v d n = None"
       "\<And>d m. m \<noteq> n \<Longrightarrow> rts v d m = rts w d m"
    by blast
  have "rm_redeem_route (new_route_manager RR pick) c n w = (Ok (Some r), v)"
    using get_route [OF assms, of c n] v(1) Some
    by (simp add: rm_redeem_route_def new_route_manager_def prog_simps)
  with remove_route_frame [OF assms v(1)] v Some show thesis by (intro that [of v]) simp_all
qed

text \<open>
  A redemption that finds the nonce consumes it; for an end route it names the sender of the
  conversation it was asked in and closes that conversation.
\<close>

lemma redeem_run:
  assumes "inv w" and "live w k = Some s" and "conv w c = Some x" and "rts w c n = Some r"
  obtains w' where
    "route_redeem SR (new_route_manager RR pick) k c n w =
       (Ok (if rt_end_route r then Some (conv_from x) else None), w')"
    and "inv w'" and "live w' = live w" and "mem w' = mem w"
    and "conv w' = (if rt_end_route r then (conv w)(c := None) else conv w)"
    and "\<And>d. rts w' d n = None" and "\<And>d m. m \<noteq> n \<Longrightarrow> rts w' d m = rts w d m"
proof -
  let ?rm = "new_route_manager RR pick"
  from check_session_Ok [OF assms(1,2)] obtain v where
    v: "check_session SR k w = (Ok (), v)" "same w v" .
  then have inv: "inv v" and eq: "live v = live w" "mem v = mem w" "conv v = conv w" "rts v = rts w"
    by (simp_all add: same_def)
  from redeem_manager_run [OF inv, of pick c n] obtain u where
    u: "rm_redeem_route ?rm c n v = (Ok (rts v c n), u)" "inv u" "live u = live v" "mem u = mem v"
       "conv u = conv v" "\<And>d. rts v c n = None \<or> rts u d n = None"
       "\<And>d m. m \<noteq> n \<Longrightarrow> rts u d m = rts v d m"
    by metis
  have checked: "check_conversation ?rm c v = (Ok (), v)"
    using check_conversation_run [OF inv, of pick c] by (simp add: eq assms(3))
  show thesis
  proof (cases "rt_end_route r")
    case False
    with v(1) checked u(1) have "route_redeem SR ?rm k c n w = (Ok None, u)"
      by (simp add: route_redeem_def eq assms(4)) (simp add: prog_simps)
    with False u eq assms(4) show thesis by (intro that [of u]) simp_all
  next
    case True
    from remove_conversation [OF u(2), of c] obtain t where
      t: "repo_remove_conversation RR c u = (Ok (), t)" "inv t" "conv t = (conv u)(c := None)"
         "rts t = rts u"
      by blast
    have got: "rm_get_conversation ?rm c u = (Ok (Some x), u)"
      using get_conversation [OF u(2), of c] assms(3)
      by (simp add: rm_get_conversation_def new_route_manager_def u(5) eq)
    have fin: "rm_finalize ?rm c u = (Ok (), t)"
      using t(1) by (simp add: rm_finalize_def new_route_manager_def)
    have "route_redeem SR ?rm k c n w = (Ok (Some (conv_from x)), t)"
      using v(1) checked u(1) got fin True
      by (simp add: route_redeem_def eq assms(4)) (simp add: prog_simps)
    with True u eq assms(4) t remove_conversation_frame [OF u(2) t(1)] show thesis
      by (intro that [of t]) simp_all
  qed
qed

end

end
