(* ===== verification/InMemory_Sessions.thy ===== *)
theory InMemory_Sessions
  imports Storage
begin

section \<open>The in-memory session repository\<close>

text \<open>
  \<^verbatim>\<open>controller/src/storage/inmemory/mod.rs\<close> (expiring entries) and
  \<^verbatim>\<open>inmemory/session_repository.rs\<close>.  The struct's four maps are the record \<open>session_tables\<close>; every
  operation is the body of the trait method under its locks, with the clock reading passed in.
  The lemmas: the invariant \<open>session_wf\<close> and its preservation, what a lookup returns after each
  operation, and a closed form of the periodic sweep that does not depend on the order in which
  the map is iterated.
\<close>

subsection \<open>Expiring entries\<close>

record 'a expiration_wrapper =
  ew_value :: 'a
  ew_expires_at :: instant
  ew_expiration_time :: duration

definition wrapper_new :: "instant \<Rightarrow> 'a \<Rightarrow> duration \<Rightarrow> 'a expiration_wrapper" where
  "wrapper_new now x d =
     \<lparr>ew_value = x, ew_expires_at = now + d, ew_expiration_time = d\<rparr>"

definition is_expired :: "instant \<Rightarrow> 'a expiration_wrapper \<Rightarrow> bool" where
  "is_expired now w \<longleftrightarrow> ew_expires_at w < now"

definition renew :: "instant \<Rightarrow> 'a expiration_wrapper \<Rightarrow> 'a expiration_wrapper" where
  "renew now w = w\<lparr>ew_expires_at := now + ew_expiration_time w\<rparr>"

lemma wrapper_new_sel [simp]:
  "ew_value (wrapper_new now x d) = x"
  "ew_expires_at (wrapper_new now x d) = now + d"
  "ew_expiration_time (wrapper_new now x d) = d"
  by (simp_all add: wrapper_new_def)

lemma renew_sel [simp]:
  "ew_value (renew now w) = ew_value w"
  "ew_expires_at (renew now w) = now + ew_expiration_time w"
  "ew_expiration_time (renew now w) = ew_expiration_time w"
  by (simp_all add: renew_def)

subsection \<open>State and operations\<close>

record session_tables =
  st_sessions :: "string \<rightharpoonup> session_info expiration_wrapper"
  st_clients :: "string \<rightharpoonup> string"
  st_controllers :: "string \<rightharpoonup> string"
  st_proxies :: "string \<rightharpoonup> string"

definition new_session_tables :: session_tables where
  "new_session_tables =
     \<lparr>st_sessions = Map.empty, st_clients = Map.empty,
      st_controllers = Map.empty, st_proxies = Map.empty\<rparr>"

fun index_session :: "component \<Rightarrow> string \<Rightarrow> string \<Rightarrow> session_tables \<Rightarrow> session_tables" where
  "index_session Client uid k st = st\<lparr>st_clients := (st_clients st)(uid \<mapsto> k)\<rparr>"
| "index_session Proxy uid k st = st\<lparr>st_proxies := (st_proxies st)(uid \<mapsto> k)\<rparr>"
| "index_session Controller uid k st = st\<lparr>st_controllers := (st_controllers st)(uid \<mapsto> k)\<rparr>"

definition inmem_set_session ::
  "instant \<Rightarrow> session_info \<Rightarrow> (session_tables, unit, 'e) prog" where
  "inmem_set_session now s =
     and_then (unwrap_or_panic (component_from_u8 (ss_component_type s))) (\<lambda>c.
     total (\<lambda>st.
       let st1 = index_session c (ss_uid s) (ss_access_key s) st
       in ((), st1\<lparr>st_sessions := (st_sessions st1)
                 (ss_access_key s \<mapsto> wrapper_new now s SESSIONS_EXPIRATION_TIME)\<rparr>)))"

definition inmem_get_session ::
  "instant \<Rightarrow> string \<Rightarrow> session_tables \<Rightarrow> session_info option \<times> session_tables" where
  "inmem_get_session now k st =
     (case st_sessions st k of
        None \<Rightarrow> (None, st)
      | Some w \<Rightarrow>
          (Some (ew_value w), st\<lparr>st_sessions := (st_sessions st)(k \<mapsto> renew now w)\<rparr>))"

definition inmem_remove_session :: "string \<Rightarrow> session_tables \<Rightarrow> session_tables" where
  "inmem_remove_session k st =
     (case st_sessions st k of
        None \<Rightarrow> st
      | Some w \<Rightarrow>
          st\<lparr>st_sessions := (st_sessions st)(k := None),
             st_clients := (st_clients st)(ss_uid (ew_value w) := None)\<rparr>)"

text \<open>\<open>order\<close> lists the user ids of the proxies in the order the map is iterated.\<close>

definition proxy_sessions :: "string list \<Rightarrow> string \<Rightarrow> session_tables \<Rightarrow> session_info list" where
  "proxy_sessions order k st =
     List.map_filter
       (\<lambda>uid. case st_proxies st uid of
                None \<Rightarrow> None
              | Some key \<Rightarrow>
                  if key = k then None else map_option ew_value (st_sessions st key))
       order"

definition inmem_get_proxies ::
  "string list \<Rightarrow> string \<Rightarrow> session_tables \<Rightarrow> session_info list option" where
  "inmem_get_proxies order k st =
     (let result = proxy_sessions order k st in if result = [] then None else Some result)"

definition inmem_get_client :: "string \<Rightarrow> session_tables \<Rightarrow> session_info option" where
  "inmem_get_client uid st =
     (case st_clients st uid of
        None \<Rightarrow> None
      | Some k \<Rightarrow> map_option ew_value (st_sessions st k))"

definition inmem_count_proxies :: "session_tables \<Rightarrow> nat" where
  "inmem_count_proxies st = card (dom (st_proxies st))"

definition inmem_count_clients :: "session_tables \<Rightarrow> nat" where
  "inmem_count_clients st = card (dom (st_clients st))"

definition inmem_count_controllers :: "session_tables \<Rightarrow> nat" where
  "inmem_count_controllers st = card (dom (st_controllers st))"

text \<open>
  One round of the background task \<^verbatim>\<open>kill_expired_sessions\<close>: the expired sessions are collected in
  iteration order, then removed together with every index entry of their users.
\<close>

definition expired_sessions ::
  "instant \<Rightarrow> string list \<Rightarrow> session_tables \<Rightarrow> (string \<times> string) list" where
  "expired_sessions now order st =
     List.map_filter
       (\<lambda>k. case st_sessions st k of
              None \<Rightarrow> None
            | Some w \<Rightarrow>
                if is_expired now w
                then Some (ss_access_key (ew_value w), ss_uid (ew_value w)) else None)
       order"

definition drop_session :: "session_tables \<Rightarrow> string \<times> string \<Rightarrow> session_tables" where
  "drop_session st e =
     st\<lparr>st_sessions := (st_sessions st)(fst e := None),
        st_clients := (st_clients st)(snd e := None),
        st_controllers := (st_controllers st)(snd e := None),
        st_proxies := (st_proxies st)(snd e := None)\<rparr>"

definition kill_expired_sessions ::
  "instant \<Rightarrow> string list \<Rightarrow> session_tables \<Rightarrow> session_tables" where
  "kill_expired_sessions now order st =
     foldl drop_session st (expired_sessions now order st)"

lemmas inmem_session_defs =
  inmem_set_session_def inmem_get_session_def inmem_remove_session_def
  inmem_get_proxies_def inmem_get_client_def inmem_count_proxies_def
  inmem_count_clients_def inmem_count_controllers_def


subsection \<open>The invariant of the tables\<close>

text \<open>
  Every session is stored under its own access key with a valid component code and lifetime, and an index entry
  whose session still exists points to a session of that user and that kind.  An index entry may
  outlive its session: removing a session does not clear the proxy and controller indexes.
\<close>

definition index_ok :: "component \<Rightarrow> (string \<rightharpoonup> string) \<Rightarrow> session_tables \<Rightarrow> bool" where
  "index_ok c m st \<longleftrightarrow>
     (\<forall>u k w. m u = Some k \<and> st_sessions st k = Some w \<longrightarrow>
        ss_uid (ew_value w) = u \<and> ss_component_type (ew_value w) = u8_from_component c)"

definition sessions_keyed :: "session_tables \<Rightarrow> bool" where
  "sessions_keyed st \<longleftrightarrow>
     (\<forall>k w. st_sessions st k = Some w \<longrightarrow>
        ss_access_key (ew_value w) = k \<and>
        component_from_u8 (ss_component_type (ew_value w)) \<noteq> None \<and>
        ew_expiration_time w = SESSIONS_EXPIRATION_TIME)"

definition tables_finite :: "session_tables \<Rightarrow> bool" where
  "tables_finite st \<longleftrightarrow>
     finite (dom (st_sessions st)) \<and> finite (dom (st_clients st)) \<and>
     finite (dom (st_controllers st)) \<and> finite (dom (st_proxies st))"

definition session_wf :: "session_tables \<Rightarrow> bool" where
  "session_wf st \<longleftrightarrow>
     sessions_keyed st \<and> tables_finite st \<and>
     index_ok Client (st_clients st) st \<and>
     index_ok Proxy (st_proxies st) st \<and>
     index_ok Controller (st_controllers st) st"

text \<open>A key no table mentions, as a freshly generated UUID is.\<close>

definition fresh_session_key :: "string \<Rightarrow> session_tables \<Rightarrow> bool" where
  "fresh_session_key k st \<longleftrightarrow>
     k \<notin> dom (st_sessions st) \<and> k \<notin> ran (st_clients st) \<and>
     k \<notin> ran (st_controllers st) \<and> k \<notin> ran (st_proxies st)"

lemma index_session_sessions [simp]: "st_sessions (index_session c u k st) = st_sessions st"
  by (cases c) simp_all

text \<open>The session table after \<open>set_session\<close>, and the run of the operation.\<close>

definition put_session :: "instant \<Rightarrow> component \<Rightarrow> session_info \<Rightarrow> session_tables \<Rightarrow> session_tables" where
  "put_session now c s st =
     (index_session c (ss_uid s) (ss_access_key s) st)
       \<lparr>st_sessions := (st_sessions st)
          (ss_access_key s \<mapsto> wrapper_new now s SESSIONS_EXPIRATION_TIME)\<rparr>"

lemma inmem_set_session_Some:
  "component_from_u8 (ss_component_type s) = Some c \<Longrightarrow>
   inmem_set_session now s st = (Ok (), put_session now c s st)"
  by (simp add: inmem_set_session_def put_session_def prog_simps Let_def)

lemma inmem_set_session_None:
  "component_from_u8 (ss_component_type s) = None \<Longrightarrow>
   inmem_set_session now s st = (Panic, st)"
  by (simp add: inmem_set_session_def prog_simps)

lemma put_session_sessions [simp]:
  "st_sessions (put_session now c s st) =
     (st_sessions st)(ss_access_key s \<mapsto> wrapper_new now s SESSIONS_EXPIRATION_TIME)"
  by (simp add: put_session_def)

lemma put_session_indexes [simp]:
  "st_clients (put_session now c s st) =
     (if c = Client then (st_clients st)(ss_uid s \<mapsto> ss_access_key s) else st_clients st)"
  "st_proxies (put_session now c s st) =
     (if c = Proxy then (st_proxies st)(ss_uid s \<mapsto> ss_access_key s) else st_proxies st)"
  "st_controllers (put_session now c s st) =
     (if c = Controller then (st_controllers st)(ss_uid s \<mapsto> ss_access_key s)
      else st_controllers st)"
  by (cases c; simp add: put_session_def)+

lemma component_code_unique:
  "component_from_u8 v = Some c \<Longrightarrow> v = u8_from_component c"
  by (simp add: component_from_u8_def component_from_i32_Some_iff i32_from_component_def)

lemma new_session_tables_wf: "session_wf new_session_tables"
  by (simp add: session_wf_def sessions_keyed_def tables_finite_def index_ok_def
      new_session_tables_def)

text \<open>What a change of the session table does to \<open>index_ok\<close>.\<close>

lemma index_ok_insert:
  assumes "index_ok c m st" and "k \<notin> ran m"
  shows "index_ok c m (st'\<lparr>st_sessions := (st_sessions st)(k \<mapsto> w)\<rparr>)"
  using assms by (auto simp: index_ok_def ran_def)

lemma index_ok_insert_new:
  assumes "index_ok c m st" and "k \<notin> ran m"
    and "ss_uid (ew_value w) = u" and "ss_component_type (ew_value w) = u8_from_component c"
  shows "index_ok c (m(u \<mapsto> k)) (st'\<lparr>st_sessions := (st_sessions st)(k \<mapsto> w)\<rparr>)"
  using assms by (auto simp: index_ok_def ran_def)

lemma index_ok_mono:
  assumes "index_ok c m st"
    and "\<And>u k. m' u = Some k \<Longrightarrow> m u = Some k"
    and "\<And>k w. st_sessions st' k = Some w \<Longrightarrow> \<exists>v. st_sessions st k = Some v \<and> ew_value v = ew_value w"
  shows "index_ok c m' st'"
  unfolding index_ok_def
proof (intro allI impI)
  fix u k w
  assume h: "m' u = Some k \<and> st_sessions st' k = Some w"
  then obtain v where "st_sessions st k = Some v" "ew_value v = ew_value w"
    using assms(3) by blast
  with h assms(1,2) show "ss_uid (ew_value w) = u \<and> ss_component_type (ew_value w) = u8_from_component c"
    unfolding index_ok_def by metis
qed

lemma put_session_wf:
  assumes wf: "session_wf st" and fresh: "fresh_session_key (ss_access_key s) st"
    and c: "component_from_u8 (ss_component_type s) = Some c"
  shows "session_wf (put_session now c s st)"
proof -
  note code = component_code_unique [OF c]
  have ix: "index_ok d m st" "ss_access_key s \<notin> ran m"
    if "(d, m) \<in> {(Client, st_clients st), (Proxy, st_proxies st), (Controller, st_controllers st)}"
    for d m
    using that wf fresh by (auto simp: session_wf_def fresh_session_key_def)
  have keep: "index_ok d m (put_session now c s st)"
    if "(d, m) \<in> {(Client, st_clients st), (Proxy, st_proxies st), (Controller, st_controllers st)}"
    for d m
    unfolding put_session_def by (rule index_ok_insert [OF ix [OF that]])
  have new: "index_ok c (m(ss_uid s \<mapsto> ss_access_key s)) (put_session now c s st)"
    if "(c, m) \<in> {(Client, st_clients st), (Proxy, st_proxies st), (Controller, st_controllers st)}"
    for m
    unfolding put_session_def by (rule index_ok_insert_new [OF ix [OF that]]) (simp_all add: code)
  have "sessions_keyed (put_session now c s st)"
    using wf c by (auto simp: session_wf_def sessions_keyed_def)
  moreover have "tables_finite (put_session now c s st)"
    using wf by (auto simp: session_wf_def tables_finite_def)
  ultimately show ?thesis
    using keep new by (cases c) (simp_all add: session_wf_def)
qed

lemma get_session_sessions:
  "st_sessions (snd (inmem_get_session now k st)) j =
     (if j = k then map_option (renew now) (st_sessions st k) else st_sessions st j)"
  by (auto simp: inmem_get_session_def split: option.splits)

lemma get_session_fst [simp]:
  "fst (inmem_get_session now k st) = map_option ew_value (st_sessions st k)"
  by (auto simp: inmem_get_session_def split: option.splits)

lemma get_session_indexes [simp]:
  "st_clients (snd (inmem_get_session now k st)) = st_clients st"
  "st_proxies (snd (inmem_get_session now k st)) = st_proxies st"
  "st_controllers (snd (inmem_get_session now k st)) = st_controllers st"
  by (auto simp: inmem_get_session_def split: option.splits)

lemma get_session_dom [simp]:
  "dom (st_sessions (snd (inmem_get_session now k st))) = dom (st_sessions st)"
  by (auto simp: get_session_sessions split: if_splits)

text \<open>Removing entries and renewing sessions keep the invariant.\<close>

lemma session_wf_shrink:
  assumes wf: "session_wf st"
    and s: "\<And>k w. st_sessions st' k = Some w \<Longrightarrow>
              \<exists>v. st_sessions st k = Some v \<and> ew_value v = ew_value w \<and>
                  ew_expiration_time v = ew_expiration_time w"
    and c: "\<And>u k. st_clients st' u = Some k \<Longrightarrow> st_clients st u = Some k"
    and p: "\<And>u k. st_proxies st' u = Some k \<Longrightarrow> st_proxies st u = Some k"
    and t: "\<And>u k. st_controllers st' u = Some k \<Longrightarrow> st_controllers st u = Some k"
  shows "session_wf st'"
proof -
  have "dom (st_sessions st') \<subseteq> dom (st_sessions st)" using s by fastforce
  moreover have "dom (st_clients st') \<subseteq> dom (st_clients st)" using c by blast
  moreover have "dom (st_proxies st') \<subseteq> dom (st_proxies st)" using p by blast
  moreover have "dom (st_controllers st') \<subseteq> dom (st_controllers st)" using t by blast
  ultimately have "tables_finite st'"
    using wf unfolding session_wf_def tables_finite_def by (meson finite_subset)
  moreover have "sessions_keyed st'"
    unfolding sessions_keyed_def
  proof (intro allI impI)
    fix k w
    assume "st_sessions st' k = Some w"
    with s obtain v where "st_sessions st k = Some v" "ew_value v = ew_value w"
      "ew_expiration_time v = ew_expiration_time w" by blast
    with wf show "ss_access_key (ew_value w) = k \<and>
        component_from_u8 (ss_component_type (ew_value w)) \<noteq> None \<and>
        ew_expiration_time w = SESSIONS_EXPIRATION_TIME"
      unfolding session_wf_def sessions_keyed_def by metis
  qed
  moreover have s': "\<exists>v. st_sessions st k = Some v \<and> ew_value v = ew_value w"
    if "st_sessions st' k = Some w" for k w
    using s [OF that] by blast
  moreover have ix: "index_ok Client (st_clients st) st" "index_ok Proxy (st_proxies st) st"
    "index_ok Controller (st_controllers st) st"
    using wf by (simp_all add: session_wf_def)
  note index_ok_mono [OF ix(1) c s'] index_ok_mono [OF ix(2) p s'] index_ok_mono [OF ix(3) t s']
  ultimately show ?thesis by (simp add: session_wf_def)
qed

lemma get_session_wf: "session_wf st \<Longrightarrow> session_wf (snd (inmem_get_session now k st))"
  by (erule session_wf_shrink) (auto simp: get_session_sessions split: if_splits)

lemma remove_session_sessions [simp]:
  "st_sessions (inmem_remove_session k st) = (st_sessions st)(k := None)"
  by (auto simp: inmem_remove_session_def split: option.splits)

lemma remove_session_indexes [simp]:
  "st_proxies (inmem_remove_session k st) = st_proxies st"
  "st_controllers (inmem_remove_session k st) = st_controllers st"
  by (auto simp: inmem_remove_session_def split: option.splits if_splits)

lemma remove_session_clients:
  "st_clients (inmem_remove_session k st) u = Some j \<Longrightarrow> st_clients st u = Some j"
  by (auto simp: inmem_remove_session_def split: option.splits if_splits)

lemma remove_session_wf: "session_wf st \<Longrightarrow> session_wf (inmem_remove_session k st)"
  by (erule session_wf_shrink) (auto dest: remove_session_clients split: if_splits)

subsection \<open>The sweep\<close>

definition expired_users :: "instant \<Rightarrow> session_tables \<Rightarrow> string set" where
  "expired_users now st =
     {u. \<exists>k w. st_sessions st k = Some w \<and> is_expired now w \<and> ss_uid (ew_value w) = u}"

lemma foldl_drop_session:
  "foldl drop_session st es =
     st\<lparr>st_sessions := remove_all (map fst es) (st_sessions st),
        st_clients := remove_all (map snd es) (st_clients st),
        st_controllers := remove_all (map snd es) (st_controllers st),
        st_proxies := remove_all (map snd es) (st_proxies st)\<rparr>"
  by (induction es arbitrary: st) (simp_all add: drop_session_def remove_all_Cons)

lemma set_expired_sessions:
  "set (expired_sessions now order st) =
     {(ss_access_key (ew_value w), ss_uid (ew_value w)) | k w.
        k \<in> set order \<and> st_sessions st k = Some w \<and> is_expired now w}"
  by (auto simp: expired_sessions_def set_map_filter split: option.splits if_splits)

text \<open>Closed form: whatever order the sessions are visited in, the same entries go.\<close>

lemma kill_expired_closed:
  assumes wf: "session_wf st" and en: "enumerates order (st_sessions st)"
  shows "kill_expired_sessions now order st =
    st\<lparr>st_sessions := map_filter_vals (\<lambda>w. \<not> is_expired now w) (st_sessions st),
       st_clients := (st_clients st) |` (- expired_users now st),
       st_controllers := (st_controllers st) |` (- expired_users now st),
       st_proxies := (st_proxies st) |` (- expired_users now st)\<rparr>"
proof -
  let ?es = "expired_sessions now order st"
  have dom: "set order = dom (st_sessions st)" by (rule enumeratesD [OF en])
  have keyed: "ss_access_key (ew_value w) = k" if "st_sessions st k = Some w" for k w
    using wf that by (simp add: session_wf_def sessions_keyed_def)
  have es: "set ?es = {(k, ss_uid (ew_value w)) | k w. st_sessions st k = Some w \<and> is_expired now w}"
    unfolding set_expired_sessions dom by (metis (mono_tags, lifting) keyed domI)
  have keys: "fst ` set ?es = {k. \<exists>w. st_sessions st k = Some w \<and> is_expired now w}"
    unfolding es by (auto simp: image_iff)
  have users: "snd ` set ?es = expired_users now st"
    unfolding es expired_users_def by (auto simp: image_iff; blast)
  have "remove_all (map fst ?es) (st_sessions st) =
      map_filter_vals (\<lambda>w. \<not> is_expired now w) (st_sessions st)"
    by (rule ext) (auto simp: keys map_filter_vals_def split: option.splits)
  moreover have "remove_all (map snd ?es) m = m |` (- expired_users now st)" for m :: "string \<rightharpoonup> string"
    by (rule ext) (simp add: users restrict_map_def)
  ultimately show ?thesis by (simp add: kill_expired_sessions_def foldl_drop_session)
qed

lemma kill_expired_wf:
  "session_wf st \<Longrightarrow> enumerates order (st_sessions st) \<Longrightarrow>
   session_wf (kill_expired_sessions now order st)"
  by (rule session_wf_shrink, assumption)
     (auto simp: kill_expired_closed restrict_map_def split: if_splits)

text \<open>A sweep touches only the index entries of users with a stored session.\<close>

lemma kill_expired_keeps_index:
  assumes "\<And>k w. st_sessions st k = Some w \<Longrightarrow> ss_uid (ew_value w) \<noteq> u"
  shows "st_proxies (kill_expired_sessions now order st) u = st_proxies st u"
    and "st_sessions (kill_expired_sessions now order st) k = Some w \<Longrightarrow> st_sessions st k = Some w"
proof -
  have "u \<notin> set (map snd (expired_sessions now order st))"
    using assms by (fastforce simp: set_expired_sessions)
  then show "st_proxies (kill_expired_sessions now order st) u = st_proxies st u"
    by (simp add: kill_expired_sessions_def foldl_drop_session)
  show "st_sessions (kill_expired_sessions now order st) k = Some w \<Longrightarrow> st_sessions st k = Some w"
    by (simp add: kill_expired_sessions_def foldl_drop_session split: if_splits)
qed

text \<open>Successive sweeps, each at its own time and in its own order.\<close>

fun sweeps :: "(instant \<times> string list) list \<Rightarrow> session_tables \<Rightarrow> session_tables" where
  "sweeps [] st = st"
| "sweeps ((now, order) # rest) st = sweeps rest (kill_expired_sessions now order st)"

lemma sweeps_keep_index:
  assumes "\<And>k w. st_sessions st k = Some w \<Longrightarrow> ss_uid (ew_value w) \<noteq> u"
  shows "st_proxies (sweeps rounds st) u = st_proxies st u"
  using assms
proof (induction rounds st rule: sweeps.induct)
  case (2 now order rest st)
  have "st_proxies (sweeps rest (kill_expired_sessions now order st)) u =
      st_proxies (kill_expired_sessions now order st) u"
    by (rule "2.IH") (metis "2.prems" kill_expired_keeps_index(2))
  then show ?case using kill_expired_keeps_index(1) [OF "2.prems"] by simp
qed simp

subsection \<open>Looking up clients and proxies\<close>

lemma proxy_sessions_set:
  assumes "enumerates order (st_proxies st)"
  shows "set (proxy_sessions order k st) =
    {ew_value w | u j w. st_proxies st u = Some j \<and> j \<noteq> k \<and> st_sessions st j = Some w}"
  using enumeratesD(2) [OF assms]
  by (fastforce simp: proxy_sessions_def set_map_filter split: option.splits if_splits)

lemma proxy_sessions_distinct:
  assumes wf: "session_wf st" and en: "enumerates order (st_proxies st)"
  shows "distinct (map ss_access_key (proxy_sessions order k st))"
  unfolding proxy_sessions_def
proof (rule distinct_map_filter)
  show "distinct order" by (rule enumeratesD [OF en])
next
  fix u u' s s'
  assume "(case st_proxies st u of None \<Rightarrow> None
            | Some key \<Rightarrow> if key = k then None else map_option ew_value (st_sessions st key)) = Some s"
    and "(case st_proxies st u' of None \<Rightarrow> None
            | Some key \<Rightarrow> if key = k then None else map_option ew_value (st_sessions st key)) = Some s'"
    and same: "ss_access_key s = ss_access_key s'"
  then obtain j w j' w' where
    j: "st_proxies st u = Some j" "st_sessions st j = Some w" "s = ew_value w" and
    j': "st_proxies st u' = Some j'" "st_sessions st j' = Some w'" "s' = ew_value w'"
    by (auto split: option.splits if_splits)
  have "ss_access_key (ew_value w) = j" "ss_access_key (ew_value w') = j'"
    using wf j j' by (auto simp: session_wf_def sessions_keyed_def)
  with same j j' have "w = w'" by simp
  moreover have "ss_uid (ew_value w) = u" "ss_uid (ew_value w') = u'"
    using wf j j' unfolding session_wf_def index_ok_def by blast+
  ultimately show "u = u'" by simp
qed

text \<open>
  The proxies offered to a requester: \<^verbatim>\<open>get_proxies\<close> returns, each once and in any
  iteration order of the map, exactly the stored sessions the proxy index points to, without the
  requester's own; all of them are sessions of proxies.  It returns nothing iff there is no such
  session, so a returned list is never empty.
\<close>

theorem get_proxies_exact:
  assumes "session_wf st" and "enumerates order (st_proxies st)"
  shows "case inmem_get_proxies order k st of
           None \<Rightarrow> \<forall>u j. st_proxies st u = Some j \<and> j \<noteq> k \<longrightarrow> st_sessions st j = None
         | Some ps \<Rightarrow>
             ps \<noteq> [] \<and> distinct (map ss_access_key ps) \<and>
             set ps = {ew_value w | u j w. st_proxies st u = Some j \<and> j \<noteq> k \<and>
                                           st_sessions st j = Some w} \<and>
             (\<forall>s \<in> set ps. ss_component_type s = u8_from_component Proxy \<and> ss_access_key s \<noteq> k)"
proof -
  let ?ps = "proxy_sessions order k st"
  have ps: "set ?ps = {ew_value w | u j w. st_proxies st u = Some j \<and> j \<noteq> k \<and>
                                           st_sessions st j = Some w}"
    by (rule proxy_sessions_set [OF assms(2)])
  have kind: "ss_component_type s = u8_from_component Proxy \<and> ss_access_key s \<noteq> k" if "s \<in> set ?ps" for s
    using that assms(1) unfolding ps session_wf_def sessions_keyed_def index_ok_def by blast
  show ?thesis
  proof (cases "?ps = []")
    case True
    have "st_sessions st j = None" if "st_proxies st u = Some j \<and> j \<noteq> k" for u j
    proof (cases "st_sessions st j")
      case (Some w)
      with that ps have "ew_value w \<in> set ?ps" by blast
      with True show ?thesis by simp
    qed
    then have "\<forall>u j. st_proxies st u = Some j \<and> j \<noteq> k \<longrightarrow> st_sessions st j = None" by blast
    with True show ?thesis by (simp add: inmem_get_proxies_def)
  next
    case False
    with ps kind proxy_sessions_distinct [OF assms] show ?thesis
      by (simp add: inmem_get_proxies_def)
  qed
qed

text \<open>
  C26. The periodic sweep is exact and independent of the order in which the session map is
  visited: a session survives iff it has not expired, an entry of each of the three indexes (clients,
  controllers, proxies) survives iff its user had no expired session, and the invariant of the tables is kept.
\<close>

theorem sweep_exact:
  assumes "session_wf st" and "enumerates order (st_sessions st)"
    and "enumerates order' (st_sessions st)"
  shows "kill_expired_sessions now order st = kill_expired_sessions now order' st
   \<and> session_wf (kill_expired_sessions now order st)
   \<and> (st_sessions (kill_expired_sessions now order st) k = Some w
        \<longleftrightarrow> st_sessions st k = Some w \<and> now \<le> ew_expires_at w)
   \<and> (st_clients (kill_expired_sessions now order st) u = Some j
        \<longleftrightarrow> st_clients st u = Some j \<and> u \<notin> expired_users now st)
   \<and> (st_controllers (kill_expired_sessions now order st) u = Some j
        \<longleftrightarrow> st_controllers st u = Some j \<and> u \<notin> expired_users now st)
   \<and> (st_proxies (kill_expired_sessions now order st) u = Some j
        \<longleftrightarrow> st_proxies st u = Some j \<and> u \<notin> expired_users now st)"
proof (intro conjI)
  show "session_wf (kill_expired_sessions now order st)"
    by (rule kill_expired_wf [OF assms(1,2)])
qed (use assms in \<open>auto simp: kill_expired_closed is_expired_def restrict_map_def\<close>)

text \<open>
  Heartbeats keep a session: after a lookup at time \<open>now\<close> finds a session, every sweep up to
  ten seconds later keeps it, and a later sweep with no lookup in between removes it.
\<close>

theorem lookup_keeps_session_alive:
  assumes "session_wf st" and "st_sessions st k = Some w"
    and "enumerates order (st_sessions st)"
  shows "st_sessions (kill_expired_sessions t order (snd (inmem_get_session now k st))) k =
           (if t \<le> now + 10000 then Some (renew now w) else None)"
proof -
  let ?st = "snd (inmem_get_session now k st)"
  have "enumerates order (st_sessions ?st)"
    using assms(3) by (simp add: enumerates_def)
  moreover have "ew_expiration_time w = 10000"
    using assms(1,2) by (simp add: session_wf_def sessions_keyed_def SESSIONS_EXPIRATION_TIME_def)
  ultimately show ?thesis
    using assms(2) kill_expired_closed [OF get_session_wf [OF assms(1)]]
    by (simp add: map_filter_vals_def get_session_sessions is_expired_def)
qed

text \<open>
  C39. The index follows the newest login but is dropped with the oldest session: once a
  user has an expired session, the sweep removes the user's index entry, so the user cannot be
  reached as a client even though a later session of the same user stays live.  Logging an old
  session out has the same effect.
\<close>

theorem old_session_unlists_user:
  assumes "session_wf st" and "enumerates order (st_sessions st)"
    and "st_sessions st k1 = Some w1" and "ss_uid (ew_value w1) = u"
    and "st_sessions st k2 = Some w2" and "ss_uid (ew_value w2) = u"
    and "k1 \<noteq> k2" and "ew_expires_at w1 < now" and "now \<le> ew_expires_at w2"
  shows "inmem_get_client u (kill_expired_sessions now order st) = None
   \<and> st_sessions (kill_expired_sessions now order st) k2 = Some w2
   \<and> inmem_get_client u (inmem_remove_session k1 st) = None
   \<and> st_sessions (inmem_remove_session k1 st) k2 = Some w2"
proof -
  have "u \<in> expired_users now st"
    using assms(3,4,8) by (auto simp: expired_users_def is_expired_def)
  then have "st_clients (kill_expired_sessions now order st) u = None"
    using assms(1,2) by (simp add: kill_expired_closed)
  moreover have "st_sessions (kill_expired_sessions now order st) k2 = Some w2"
    using assms(1,2,5,9) by (simp add: kill_expired_closed is_expired_def)
  moreover have "st_clients (inmem_remove_session k1 st) u = None"
    using assms(3,4) by (simp add: inmem_remove_session_def)
  ultimately show ?thesis using assms(5,7) by (simp add: inmem_get_client_def)
qed

text \<open>
  A proxy that logs out stays counted: removing a session leaves the proxy index alone,
  and once no session of that user remains no sequence of sweeps removes the entry.
\<close>

theorem logged_out_proxy_stays_counted:
  assumes "st_proxies st u = Some k"
    and "\<And>j w. st_sessions st j = Some w \<Longrightarrow> ss_uid (ew_value w) = u \<Longrightarrow> j = k"
  shows "st_proxies (sweeps rounds (inmem_remove_session k st)) u = Some k
   \<and> st_sessions (inmem_remove_session k st) k = None
   \<and> inmem_count_proxies (inmem_remove_session k st) = inmem_count_proxies st"
proof -
  have "st_proxies (sweeps rounds (inmem_remove_session k st)) u =
      st_proxies (inmem_remove_session k st) u"
    by (rule sweeps_keep_index) (use assms(2) in \<open>auto split: if_splits\<close>)
  with assms(1) show ?thesis
    by (simp add: inmem_count_proxies_def)
qed

subsection \<open>Concrete tables\<close>

text \<open>
  A client \<open>alice\<close> logged in at time 0 and again at time 9000, and two proxies logged in at 0.
\<close>

definition sample_session :: "string \<Rightarrow> string \<Rightarrow> component \<Rightarrow> session_info" where
  "sample_session k uid c =
     \<lparr>ss_access_key = k, ss_uid = uid, ss_client_ip = SocketAddrV4 0x7F000001 5000,
      ss_on_port_number = 4466, ss_on_ip_address = ''127.0.0.1'',
      ss_component_type = u8_from_component c, ss_public_key = [], ss_domain_name = ''localhost''\<rparr>"

lemma sample_session_sel [simp]:
  "ss_access_key (sample_session k uid c) = k"
  "ss_uid (sample_session k uid c) = uid"
  "ss_component_type (sample_session k uid c) = u8_from_component c"
  by (simp_all add: sample_session_def)

definition sample_tables :: session_tables where
  "sample_tables =
     put_session 9000 Client (sample_session ''k4'' ''alice'' Client)
    (put_session 0 Proxy (sample_session ''k3'' ''p2'' Proxy)
    (put_session 0 Proxy (sample_session ''k2'' ''p1'' Proxy)
    (put_session 0 Client (sample_session ''k1'' ''alice'' Client) new_session_tables)))"

lemma sample_tables_wf: "session_wf sample_tables"
  unfolding sample_tables_def
  by (intro put_session_wf new_session_tables_wf)
     (simp_all add: fresh_session_key_def new_session_tables_def)

lemma sample_tables_sel:
  "st_sessions sample_tables =
     [''k1'' \<mapsto> wrapper_new 0 (sample_session ''k1'' ''alice'' Client) 10000,
      ''k2'' \<mapsto> wrapper_new 0 (sample_session ''k2'' ''p1'' Proxy) 10000,
      ''k3'' \<mapsto> wrapper_new 0 (sample_session ''k3'' ''p2'' Proxy) 10000,
      ''k4'' \<mapsto> wrapper_new 9000 (sample_session ''k4'' ''alice'' Client) 10000]"
  "st_clients sample_tables = [''alice'' \<mapsto> ''k4'']"
  "st_proxies sample_tables = [''p1'' \<mapsto> ''k2'', ''p2'' \<mapsto> ''k3'']"
  "st_controllers sample_tables = Map.empty"
  by (simp_all add: sample_tables_def new_session_tables_def SESSIONS_EXPIRATION_TIME_def)

lemma sample_orders:
  "enumerates [''k1'', ''k2'', ''k3'', ''k4''] (st_sessions sample_tables)"
  "enumerates [''k4'', ''k2'', ''k1'', ''k3''] (st_sessions sample_tables)"
  "enumerates [''p1'', ''p2''] (st_proxies sample_tables)"
  by (auto simp: enumerates_def sample_tables_sel)

theorem get_proxies_exact_witness:
  "inmem_get_proxies [''p1'', ''p2''] ''k2'' sample_tables = Some [sample_session ''k3'' ''p2'' Proxy]
   \<and> {sample_session ''k3'' ''p2'' Proxy} =
      {ew_value w | u j w. st_proxies sample_tables u = Some j \<and> j \<noteq> ''k2'' \<and>
                           st_sessions sample_tables j = Some w}"
proof -
  have e: "inmem_get_proxies [''p1'', ''p2''] ''k2'' sample_tables =
      Some [sample_session ''k3'' ''p2'' Proxy]"
    by (simp add: inmem_get_proxies_def proxy_sessions_def List.map_filter_simps sample_tables_sel)
  with get_proxies_exact [OF sample_tables_wf sample_orders(3), of "''k2''"]
  show ?thesis by simp
qed

theorem sweep_exact_witness:
  "kill_expired_sessions 12000 [''k1'', ''k2'', ''k3'', ''k4''] sample_tables =
     kill_expired_sessions 12000 [''k4'', ''k2'', ''k1'', ''k3''] sample_tables
   \<and> st_sessions (kill_expired_sessions 12000 [''k1'', ''k2'', ''k3'', ''k4''] sample_tables) ''k1''
       \<noteq> Some (wrapper_new 0 (sample_session ''k1'' ''alice'' Client) 10000)
   \<and> st_sessions (kill_expired_sessions 12000 [''k1'', ''k2'', ''k3'', ''k4''] sample_tables) ''k4''
       = Some (wrapper_new 9000 (sample_session ''k4'' ''alice'' Client) 10000)"
proof -
  note parts = sweep_exact [OF sample_tables_wf sample_orders(1,2), of 12000]
  have "kill_expired_sessions 12000 [''k1'', ''k2'', ''k3'', ''k4''] sample_tables =
      kill_expired_sessions 12000 [''k4'', ''k2'', ''k1'', ''k3''] sample_tables"
    using parts by blast
  moreover note live = parts [THEN conjunct2, THEN conjunct2, THEN conjunct1]
  have "st_sessions (kill_expired_sessions 12000 [''k1'', ''k2'', ''k3'', ''k4''] sample_tables)
      ''k1'' \<noteq> Some (wrapper_new 0 (sample_session ''k1'' ''alice'' Client) 10000)"
    "st_sessions (kill_expired_sessions 12000 [''k1'', ''k2'', ''k3'', ''k4''] sample_tables)
      ''k4'' = Some (wrapper_new 9000 (sample_session ''k4'' ''alice'' Client) 10000)"
    unfolding live by (simp_all add: sample_tables_sel)
  ultimately show ?thesis by blast
qed

theorem lookup_keeps_session_alive_witness:
  "st_sessions (kill_expired_sessions 18000 [''k1'', ''k2'', ''k3'', ''k4'']
      (snd (inmem_get_session 8000 ''k1'' sample_tables))) ''k1''
     = Some (wrapper_new 8000 (sample_session ''k1'' ''alice'' Client) 10000)
   \<and> st_sessions (kill_expired_sessions 18001 [''k1'', ''k2'', ''k3'', ''k4'']
      (snd (inmem_get_session 8000 ''k1'' sample_tables))) ''k1'' = None"
  using lookup_keeps_session_alive [OF sample_tables_wf _ sample_orders(1), of "''k1''"]
  by (simp add: sample_tables_sel renew_def wrapper_new_def)

theorem old_session_unlists_user_witness:
  "inmem_get_client ''alice'' sample_tables = Some (sample_session ''k4'' ''alice'' Client)
   \<and> inmem_get_client ''alice''
       (kill_expired_sessions 12000 [''k1'', ''k2'', ''k3'', ''k4''] sample_tables) = None
   \<and> st_sessions (kill_expired_sessions 12000 [''k1'', ''k2'', ''k3'', ''k4''] sample_tables) ''k4''
       = Some (wrapper_new 9000 (sample_session ''k4'' ''alice'' Client) 10000)"
  using old_session_unlists_user [OF sample_tables_wf sample_orders(1), of "''k1''"
      "wrapper_new 0 (sample_session ''k1'' ''alice'' Client) 10000" "''alice''" "''k4''"
      "wrapper_new 9000 (sample_session ''k4'' ''alice'' Client) 10000" 12000]
  by (simp add: sample_tables_sel inmem_get_client_def)

theorem logged_out_proxy_stays_counted_witness:
  "st_proxies (sweeps [(50000, [''k1'', ''k3'', ''k4'']), (100000, [])]
      (inmem_remove_session ''k2'' sample_tables)) ''p1'' = Some ''k2''
   \<and> inmem_count_proxies (inmem_remove_session ''k2'' sample_tables) = 2"
proof -
  have k: "j = ''k2''" if "st_sessions sample_tables j = Some w" "ss_uid (ew_value w) = ''p1''" for j w
    using that by (auto simp: sample_tables_sel split: if_splits)
  have "st_proxies sample_tables ''p1'' = Some ''k2''" "inmem_count_proxies sample_tables = 2"
    by (simp_all add: sample_tables_sel inmem_count_proxies_def)
  with logged_out_proxy_stays_counted [where st = sample_tables and u = "''p1''" and k = "''k2''"
      and rounds = "[(50000, [''k1'', ''k3'', ''k4'']), (100000, [])]", OF _ k]
  show ?thesis by simp
qed

end
