(* ===== verification/InMemory_Routes.thy ===== *)
theory InMemory_Routes
  imports InMemory_Sessions
begin

section \<open>The in-memory route and member repositories\<close>

text \<open>
  \<^verbatim>\<open>inmemory/route_repository.rs\<close>: conversations by id and routes by nonce, each with a lifetime
  of a minute that nothing renews, and the sweep that removes the expired ones.
  \<^verbatim>\<open>inmemory/member_repository.rs\<close>: members by user id.
\<close>

subsection \<open>State and operations\<close>

record route_tables =
  rt_routes :: "string \<rightharpoonup> route expiration_wrapper"
  rt_conversations :: "string \<rightharpoonup> conversation expiration_wrapper"

definition new_route_tables :: route_tables where
  "new_route_tables = \<lparr>rt_routes = Map.empty, rt_conversations = Map.empty\<rparr>"

definition inmem_set_conversation ::
  "instant \<Rightarrow> conversation \<Rightarrow> route_tables \<Rightarrow> string option \<times> route_tables" where
  "inmem_set_conversation now c t =
     (let found = (rt_conversations t (conv_id c) \<noteq> None)
      in (if found then None else Some (conv_id c),
          t\<lparr>rt_conversations := (rt_conversations t)
              (conv_id c \<mapsto> wrapper_new now c CONVERSATIONS_EXPIRATION_TIME)\<rparr>))"

definition inmem_remove_conversation :: "string \<Rightarrow> route_tables \<Rightarrow> route_tables" where
  "inmem_remove_conversation cid t =
     t\<lparr>rt_conversations := (rt_conversations t)(cid := None)\<rparr>"

definition inmem_get_conversation :: "string \<Rightarrow> route_tables \<Rightarrow> conversation option" where
  "inmem_get_conversation cid t = map_option ew_value (rt_conversations t cid)"

definition push_route :: "route \<Rightarrow> conversation \<Rightarrow> conversation" where
  "push_route r c = c\<lparr>conv_routes := conv_routes c @ [r]\<rparr>"

definition inmem_set_route ::
  "instant \<Rightarrow> string \<Rightarrow> route \<Rightarrow> route_tables \<Rightarrow> string option \<times> route_tables" where
  "inmem_set_route now cid r t =
     (let old = rt_routes t (rt_nonce r);
          t1 = t\<lparr>rt_routes := (rt_routes t)
                   (rt_nonce r \<mapsto> wrapper_new now r ROUTES_EXPIRATION_TIME)\<rparr>
      in if old \<noteq> None then (None, t1)
         else case rt_conversations t1 cid of
                None \<Rightarrow> (None, t1)
              | Some w \<Rightarrow>
                  (Some (rt_nonce r),
                   t1\<lparr>rt_conversations := (rt_conversations t1)
                        (cid \<mapsto> w\<lparr>ew_value := push_route r (ew_value w)\<rparr>)\<rparr>))"

definition inmem_get_route :: "string \<Rightarrow> string \<Rightarrow> route_tables \<Rightarrow> route option" where
  \<comment> \<open>the conversation id is ignored\<close>
  "inmem_get_route cid nonce t = map_option ew_value (rt_routes t nonce)"

definition inmem_remove_route :: "string \<Rightarrow> route_tables \<Rightarrow> route_tables" where
  "inmem_remove_route nonce t = t\<lparr>rt_routes := (rt_routes t)(nonce := None)\<rparr>"

text \<open>One round of the background task: both maps are filtered.\<close>

definition kill_expired_routes :: "instant \<Rightarrow> route_tables \<Rightarrow> route_tables" where
  "kill_expired_routes now t =
     t\<lparr>rt_routes := map_filter_vals (\<lambda>w. \<not> is_expired now w) (rt_routes t),
       rt_conversations := map_filter_vals (\<lambda>w. \<not> is_expired now w) (rt_conversations t)\<rparr>"

type_synonym member_table = "string \<rightharpoonup> member"

definition inmem_set_member :: "member \<Rightarrow> member_table \<Rightarrow> member_table" where
  "inmem_set_member m t = t(mb_uid m \<mapsto> m)"

definition inmem_get_member :: "string \<Rightarrow> member_table \<Rightarrow> member option" where
  "inmem_get_member uid t = t uid"

lemmas inmem_route_defs =
  inmem_set_conversation_def inmem_remove_conversation_def inmem_get_conversation_def
  inmem_set_route_def inmem_get_route_def inmem_remove_route_def

subsection \<open>What each operation does to the tables\<close>

lemma push_route_sel [simp]:
  "conv_id (push_route r c) = conv_id c" "conv_from (push_route r c) = conv_from c"
  "conv_to (push_route r c) = conv_to c" "conv_routing_id (push_route r c) = conv_routing_id c"
  "conv_routes (push_route r c) = conv_routes c @ [r]"
  by (simp_all add: push_route_def)

lemma set_route_routes [simp]:
  "rt_routes (snd (inmem_set_route now cid r t)) =
     (rt_routes t)(rt_nonce r \<mapsto> wrapper_new now r ROUTES_EXPIRATION_TIME)"
  by (simp add: inmem_set_route_def Let_def split: option.splits)

lemma set_route_conversations:
  "rt_conversations (snd (inmem_set_route now cid r t)) =
     (if rt_routes t (rt_nonce r) = None
      then (rt_conversations t)
        (cid := map_option (\<lambda>w. w\<lparr>ew_value := push_route r (ew_value w)\<rparr>) (rt_conversations t cid))
      else rt_conversations t)"
  by (auto simp: inmem_set_route_def Let_def fun_upd_idem split: option.splits)

lemma set_route_fst:
  "fst (inmem_set_route now cid r t) =
     (if rt_routes t (rt_nonce r) = None \<and> rt_conversations t cid \<noteq> None
      then Some (rt_nonce r) else None)"
  by (simp add: inmem_set_route_def Let_def split: option.splits)

lemma set_conversation_sel [simp]:
  "rt_conversations (snd (inmem_set_conversation now c t)) =
     (rt_conversations t)(conv_id c \<mapsto> wrapper_new now c CONVERSATIONS_EXPIRATION_TIME)"
  "rt_routes (snd (inmem_set_conversation now c t)) = rt_routes t"
  by (simp_all add: inmem_set_conversation_def Let_def)

lemma set_conversation_fst [simp]:
  "fst (inmem_set_conversation now c t) =
     (if rt_conversations t (conv_id c) = None then Some (conv_id c) else None)"
  by (simp add: inmem_set_conversation_def Let_def)

lemma remove_conversation_sel [simp]:
  "rt_conversations (inmem_remove_conversation cid t) = (rt_conversations t)(cid := None)"
  "rt_routes (inmem_remove_conversation cid t) = rt_routes t"
  by (simp_all add: inmem_remove_conversation_def)

lemma remove_route_sel [simp]:
  "rt_routes (inmem_remove_route n t) = (rt_routes t)(n := None)"
  "rt_conversations (inmem_remove_route n t) = rt_conversations t"
  by (simp_all add: inmem_remove_route_def)

lemma kill_expired_routes_sel [simp]:
  "rt_routes (kill_expired_routes now t) = map_filter_vals (\<lambda>w. \<not> is_expired now w) (rt_routes t)"
  "rt_conversations (kill_expired_routes now t) =
     map_filter_vals (\<lambda>w. \<not> is_expired now w) (rt_conversations t)"
  by (simp_all add: kill_expired_routes_def)

subsection \<open>The invariant of the tables\<close>

definition route_wf :: "route_tables \<Rightarrow> bool" where
  "route_wf t \<longleftrightarrow>
     (\<forall>n w. rt_routes t n = Some w \<longrightarrow> rt_nonce (ew_value w) = n) \<and>
     (\<forall>c w. rt_conversations t c = Some w \<longrightarrow> conv_id (ew_value w) = c)"

lemma route_wf_simps:
  "route_wf new_route_tables"
  "route_wf t \<Longrightarrow> route_wf (snd (inmem_set_conversation now c t))"
  "route_wf t \<Longrightarrow> route_wf (inmem_remove_conversation cid t)"
  "route_wf t \<Longrightarrow> route_wf (snd (inmem_set_route now cid r t))"
  "route_wf t \<Longrightarrow> route_wf (inmem_remove_route n t)"
  "route_wf t \<Longrightarrow> route_wf (kill_expired_routes now t)"
  by (auto simp: route_wf_def new_route_tables_def set_route_conversations split: if_splits)

end
