(* ===== verification/InMemory.thy ===== *)
theory InMemory
  imports InMemory_Routes
begin

section \<open>The in-memory repositories as providers of the storage traits\<close>

text \<open>
  The world of a controller that runs with \<^verbatim>\<open>RepositoryType::InMemory\<close>: the clock and the tables of
  the three repositories.  Each repository is the record of its methods; a method reads the clock
  where the code calls \<^verbatim>\<open>Instant::now()\<close>.  \<open>porder\<close> gives the order in which the proxy index is
  iterated.  The interpretations discharge the contracts of \<open>Storage\<close>, the single use of routes
  included.
\<close>

record world =
  clock :: instant
  session_repo :: session_tables
  route_repo :: route_tables
  member_repo :: member_table

definition new_world :: world where
  "new_world =
     \<lparr>clock = 0, session_repo = new_session_tables, route_repo = new_route_tables,
      member_repo = Map.empty\<rparr>"

type_synonym proxy_order = "(string \<rightharpoonup> string) \<Rightarrow> string list"

definition on_sessions :: "(session_tables, 'a, 'e) prog \<Rightarrow> (world, 'a, 'e) prog" where
  "on_sessions = zoom session_repo (\<lambda>s w. w\<lparr>session_repo := s\<rparr>)"

definition on_routes :: "(route_tables, 'a, 'e) prog \<Rightarrow> (world, 'a, 'e) prog" where
  "on_routes = zoom route_repo (\<lambda>t w. w\<lparr>route_repo := t\<rparr>)"

definition on_members :: "(member_table, 'a, 'e) prog \<Rightarrow> (world, 'a, 'e) prog" where
  "on_members = zoom member_repo (\<lambda>m w. w\<lparr>member_repo := m\<rparr>)"

definition inmemory_session_repository :: "proxy_order \<Rightarrow> (world, 'e) session_repository" where
  "inmemory_session_repository porder =
     \<lparr>repo_set_session = (\<lambda>s w. on_sessions (inmem_set_session (clock w) s) w),
      repo_get_session = (\<lambda>k w. on_sessions (total (inmem_get_session (clock w) k)) w),
      repo_remove_session = (\<lambda>k. on_sessions (total (\<lambda>t. ((), inmem_remove_session k t)))),
      repo_get_proxies =
        (\<lambda>k. on_sessions (reads (\<lambda>t. inmem_get_proxies (porder (st_proxies t)) k t))),
      repo_get_client = (\<lambda>uid. on_sessions (reads (inmem_get_client uid))),
      repo_count_proxies = on_sessions (reads inmem_count_proxies),
      repo_count_clients = on_sessions (reads inmem_count_clients),
      repo_count_controllers = on_sessions (reads inmem_count_controllers)\<rparr>"

definition inmemory_route_repository :: "(world, 'e) route_repository" where
  "inmemory_route_repository =
     \<lparr>repo_set_conversation = (\<lambda>c w. on_routes (total (inmem_set_conversation (clock w) c)) w),
      repo_remove_conversation =
        (\<lambda>cid. on_routes (total (\<lambda>t. ((), inmem_remove_conversation cid t)))),
      repo_get_conversation = (\<lambda>cid. on_routes (reads (inmem_get_conversation cid))),
      repo_set_route = (\<lambda>cid r w. on_routes (total (inmem_set_route (clock w) cid r)) w),
      repo_get_route = (\<lambda>cid n. on_routes (reads (inmem_get_route cid n))),
      repo_remove_route = (\<lambda>n. on_routes (total (\<lambda>t. ((), inmem_remove_route n t))))\<rparr>"

definition inmemory_member_repository :: "(world, 'e) member_repository" where
  "inmemory_member_repository =
     \<lparr>repo_set_member = (\<lambda>m. on_members (total (\<lambda>t. ((), inmem_set_member m t)))),
      repo_get_member = (\<lambda>uid. on_members (reads (inmem_get_member uid)))\<rparr>"

named_theorems repo_simps \<open>the in-memory repositories, run on a world\<close>

lemma inmemory_session_simps [repo_simps]:
  "component_from_u8 (ss_component_type s) = Some c \<Longrightarrow>
   repo_set_session (inmemory_session_repository porder) s w =
     (Ok (), w\<lparr>session_repo := put_session (clock w) c s (session_repo w)\<rparr>)"
  "component_from_u8 (ss_component_type s) = None \<Longrightarrow>
   repo_set_session (inmemory_session_repository porder) s w = (Panic, w)"
  "repo_get_session (inmemory_session_repository porder) k w =
     (Ok (map_option ew_value (st_sessions (session_repo w) k)),
      w\<lparr>session_repo := snd (inmem_get_session (clock w) k (session_repo w))\<rparr>)"
  "repo_remove_session (inmemory_session_repository porder) k w =
     (Ok (), w\<lparr>session_repo := inmem_remove_session k (session_repo w)\<rparr>)"
  "repo_get_proxies (inmemory_session_repository porder) k w =
     (Ok (inmem_get_proxies (porder (st_proxies (session_repo w))) k (session_repo w)), w)"
  "repo_get_client (inmemory_session_repository porder) u w =
     (Ok (inmem_get_client u (session_repo w)), w)"
  "repo_count_proxies (inmemory_session_repository porder) w =
     (Ok (inmem_count_proxies (session_repo w)), w)"
  "repo_count_clients (inmemory_session_repository porder) w =
     (Ok (inmem_count_clients (session_repo w)), w)"
  "repo_count_controllers (inmemory_session_repository porder) w =
     (Ok (inmem_count_controllers (session_repo w)), w)"
  by (simp_all add: inmemory_session_repository_def on_sessions_def prog_simps
      inmem_set_session_Some inmem_set_session_None case_prod_beta)

lemma inmemory_route_simps [repo_simps]:
  "repo_set_conversation inmemory_route_repository c w =
     (Ok (fst (inmem_set_conversation (clock w) c (route_repo w))),
      w\<lparr>route_repo := snd (inmem_set_conversation (clock w) c (route_repo w))\<rparr>)"
  "repo_remove_conversation inmemory_route_repository cid w =
     (Ok (), w\<lparr>route_repo := inmem_remove_conversation cid (route_repo w)\<rparr>)"
  "repo_get_conversation inmemory_route_repository cid w =
     (Ok (inmem_get_conversation cid (route_repo w)), w)"
  "repo_set_route inmemory_route_repository cid r w =
     (Ok (fst (inmem_set_route (clock w) cid r (route_repo w))),
      w\<lparr>route_repo := snd (inmem_set_route (clock w) cid r (route_repo w))\<rparr>)"
  "repo_get_route inmemory_route_repository cid n w =
     (Ok (inmem_get_route cid n (route_repo w)), w)"
  "repo_remove_route inmemory_route_repository n w =
     (Ok (), w\<lparr>route_repo := inmem_remove_route n (route_repo w)\<rparr>)"
  by (simp_all add: inmemory_route_repository_def on_routes_def prog_simps case_prod_beta)

lemma inmemory_member_simps [repo_simps]:
  "repo_set_member inmemory_member_repository m w =
     (Ok (), w\<lparr>member_repo := (member_repo w)(mb_uid m \<mapsto> m)\<rparr>)"
  "repo_get_member inmemory_member_repository u w = (Ok (member_repo w u), w)"
  by (simp_all add: inmemory_member_repository_def on_members_def prog_simps
      inmem_set_member_def inmem_get_member_def)

subsection \<open>The abstract view and the contracts\<close>

definition world_ok :: "world \<Rightarrow> bool" where
  "world_ok w \<longleftrightarrow> sessions_keyed (session_repo w) \<and> route_wf (route_repo w)"

definition live_session :: "world \<Rightarrow> string \<Rightarrow> session_info option" where
  "live_session w k = map_option ew_value (st_sessions (session_repo w) k)"

definition stored_conversation :: "world \<Rightarrow> string \<Rightarrow> conversation option" where
  "stored_conversation w c = map_option ew_value (rt_conversations (route_repo w) c)"

definition stored_route :: "world \<Rightarrow> string \<Rightarrow> string \<Rightarrow> route option" where
  "stored_route w c n = map_option ew_value (rt_routes (route_repo w) n)"

lemmas view_defs = live_session_def stored_conversation_def stored_route_def

lemma sessions_keyed_put [simp]:
  "sessions_keyed st \<Longrightarrow> component_from_u8 (ss_component_type s) = Some c \<Longrightarrow>
   sessions_keyed (put_session now c s st)"
  by (auto simp: sessions_keyed_def)

lemma sessions_keyed_get [simp]:
  "sessions_keyed st \<Longrightarrow> sessions_keyed (snd (inmem_get_session now k st))"
  by (auto simp: sessions_keyed_def get_session_sessions)

lemma sessions_keyed_remove [simp]:
  "sessions_keyed st \<Longrightarrow> sessions_keyed (inmem_remove_session k st)"
  by (auto simp: sessions_keyed_def)

interpretation mem_sessions:
  session_store "inmemory_session_repository porder" world_ok live_session
  for porder
proof unfold_locales
  fix w :: world and s :: session_info
  assume "world_ok w" and "component_from_u8 (ss_component_type s) \<noteq> None"
  then show "\<exists>w'. repo_set_session (inmemory_session_repository porder) s w = (Ok (), w') \<and>
      world_ok w' \<and> live_session w' = (live_session w)(ss_access_key s \<mapsto> s)"
    by (auto simp: repo_simps world_ok_def live_session_def fun_eq_iff)
next
  fix w :: world and k
  assume "world_ok w"
  then show "\<exists>w'. repo_get_session (inmemory_session_repository porder) k w = (Ok (live_session w k), w') \<and>
      world_ok w' \<and> live_session w' = live_session w"
    by (auto simp: repo_simps world_ok_def live_session_def get_session_sessions fun_eq_iff
        option.map_comp comp_def)
next
  fix w :: world and k
  assume "world_ok w"
  then show "\<exists>w'. repo_remove_session (inmemory_session_repository porder) k w = (Ok (), w') \<and>
      world_ok w' \<and> live_session w' = (live_session w)(k := None)"
    by (auto simp: repo_simps world_ok_def live_session_def fun_eq_iff)
next
  fix w :: world and k s
  assume "world_ok w" and "live_session w k = Some s"
  then show "ss_access_key s = k"
    by (auto simp: world_ok_def sessions_keyed_def live_session_def)
qed

interpretation mem_members: member_store inmemory_member_repository world_ok member_repo
  by unfold_locales (auto simp: repo_simps world_ok_def)

interpretation mem_routes:
  single_use_route_store inmemory_route_repository world_ok stored_conversation stored_route
proof unfold_locales
  fix w :: world and c and r :: route and x
  assume "world_ok w" "stored_conversation w c = Some x" "\<And>d. stored_route w d (rt_nonce r) = None"
  then show "\<exists>w'. repo_set_route inmemory_route_repository c r w = (Ok (Some (rt_nonce r)), w') \<and>
      world_ok w' \<and>
      stored_conversation w' = (stored_conversation w)(c \<mapsto> x\<lparr>conv_routes := conv_routes x @ [r]\<rparr>) \<and>
      stored_route w' c (rt_nonce r) = Some r \<and>
      (\<forall>d n. n \<noteq> rt_nonce r \<longrightarrow> stored_route w' d n = stored_route w d n)"
    by (auto simp: repo_simps world_ok_def route_wf_simps view_defs set_route_fst
        set_route_conversations push_route_def fun_eq_iff)
qed (auto simp: repo_simps world_ok_def route_wf_simps view_defs inmem_get_conversation_def
      inmem_get_route_def fun_eq_iff)

interpretation mem_stores:
  controller_stores "inmemory_session_repository porder" inmemory_member_repository
    inmemory_route_repository world_ok live_session member_repo stored_conversation stored_route
  for porder
proof unfold_locales
  fix w w' :: world and s r
  assume "repo_set_session (inmemory_session_repository porder) s w = (r, w')"
  then show "member_repo w' = member_repo w \<and> stored_conversation w' = stored_conversation w \<and>
      stored_route w' = stored_route w"
    by (cases "component_from_u8 (ss_component_type s)") (auto simp: repo_simps view_defs fun_eq_iff)
qed (auto simp: repo_simps view_defs fun_eq_iff)

end
