(* ===== verification/Controller.thy ===== *)
theory Controller
  imports Services InMemory
begin

section \<open>The controller: start-up, requests and background tasks\<close>

text \<open>
  \<^verbatim>\<open>controller/src/main.rs\<close> and the dispatch of \<^verbatim>\<open>services/mod.rs\<close>, over the in-memory
  repositories.  A request is served by its handler; the background tasks are the two sweeps and the
  loop that registers the controller as a session of its own.  The closed forms give the outcome
  and the new world of every handler, branch by branch.
\<close>

subsection \<open>Start-up and self-registration\<close>

text \<open>A missing variable is a panic, and so is an unreadable or malformed member file.\<close>

definition controller_initialize ::
  "('w, 'e) member_repository \<Rightarrow> environment \<Rightarrow> (bytes \<Rightarrow> string list option list) \<Rightarrow>
     ('w, unit, 'e) prog" where
  "controller_initialize MR env csv_records =
     (case get_env_variable env ''MEMBERS_CSV_FILE'' of
        Ok file_path \<Rightarrow> mm_seed_members_from_csv MR env csv_records file_path
      | _ \<Rightarrow> panic)"

text \<open>One round of the loop the start-up spawns.\<close>

definition register_self ::
  "('w, 'e) session_repository \<Rightarrow> (string \<rightharpoonup> socket_addr) \<Rightarrow> string \<Rightarrow> component_descriptor \<Rightarrow>
     ('w, unit, 'e) prog" where
  "register_self SR parse_addr uuid descriptor =
     (let cred = descriptor_credentials descriptor;
          cs = descriptor_connection_settings descriptor
      in and_then (unwrap_or_panic (get_public_socket_address parse_addr cs)) (\<lambda>addr.
         and_then (sm_set_session SR uuid (cred_uid cred) Controller addr cs) (\<lambda>_.
         ret ())))"

subsection \<open>Requests\<close>

datatype request =
    Login login_request
  | Logout (req_key: string)
  | Ping (req_key: string)
  | Initialize (req_key: string) (req_to: string)
  | Next_Route (req_key: string) (req_conversation: string)
  | Redeem (req_key: string) (req_conversation: string) (req_nonce: string)
  | Status (req_key: string)

datatype reply =
    Logged_In login_response
  | Logged_Out
  | Pong ping_response
  | Initialized string
  | Hop route_response
  | Redeemed "string option"
  | Status_Is status_response

text \<open>What a handler reads besides the request and the tables.\<close>

record surroundings =
  su_remote_addr :: "socket_addr option"
  su_uuid :: string
  su_now_micros :: i64
  su_porder :: proxy_order
  su_pick :: "nat list \<Rightarrow> nat option"

definition map_ok :: "('a \<Rightarrow> 'b) \<Rightarrow> ('w, 'a, 'e) prog \<Rightarrow> ('w, 'b, 'e) prog" where
  "map_ok f p = and_then p (\<lambda>x. ret (f x))"

lemma map_ok_run:
  "map_ok f p w =
     (case p w of (Ok x, w') \<Rightarrow> (Ok (f x), w') | (Err e, w') \<Rightarrow> (Err e, w') | (Panic, w') \<Rightarrow> (Panic, w'))"
  by (simp add: map_ok_def prog_simps split: prod.splits outcome.splits)

fun serve ::
  "string \<Rightarrow> surroundings \<Rightarrow> request \<Rightarrow> (world, reply, status) prog" where
  "serve version su (Login req) =
     map_ok Logged_In
       (auth_login (inmemory_session_repository (su_porder su)) inmemory_member_repository
          (su_uuid su) (su_remote_addr su) req)"
| "serve version su (Logout k) =
     map_ok (\<lambda>_. Logged_Out) (auth_logout (inmemory_session_repository (su_porder su)) k)"
| "serve version su (Ping k) =
     map_ok Pong
       (auth_ping (inmemory_session_repository (su_porder su)) (su_remote_addr su)
          (su_now_micros su) k)"
| "serve version su (Initialize k to) =
     map_ok Initialized
       (route_initialize (inmemory_session_repository (su_porder su))
          (new_route_manager inmemory_route_repository (su_pick su)) (su_uuid su) k to)"
| "serve version su (Next_Route k c) =
     map_ok Hop
       (route_route (inmemory_session_repository (su_porder su))
          (new_route_manager inmemory_route_repository (su_pick su)) (su_uuid su) k c)"
| "serve version su (Redeem k c n) =
     map_ok Redeemed
       (route_redeem (inmemory_session_repository (su_porder su))
          (new_route_manager inmemory_route_repository (su_pick su)) k c n)"
| "serve version su (Status k) =
     map_ok Status_Is (info_status (inmemory_session_repository (su_porder su)) version k)"

subsection \<open>The services on the in-memory stores\<close>

interpretation mem_services:
  single_use_services "inmemory_session_repository porder" inmemory_member_repository
    inmemory_route_repository world_ok live_session member_repo stored_conversation stored_route
  for porder
  by unfold_locales

subsection \<open>Closed forms of the handlers\<close>

text \<open>The world after a look-up of a session, which renews it.\<close>

definition touch :: "string \<Rightarrow> world \<Rightarrow> world" where
  "touch k w = w\<lparr>session_repo := snd (inmem_get_session (clock w) k (session_repo w))\<rparr>"

lemma touch_sel [simp]:
  "clock (touch k w) = clock w" "route_repo (touch k w) = route_repo w"
  "member_repo (touch k w) = member_repo w"
  "session_repo (touch k w) = snd (inmem_get_session (clock w) k (session_repo w))"
  by (simp_all add: touch_def)

lemma live_touch [simp]: "live_session (touch k w) = live_session w"
  by (auto simp: live_session_def get_session_sessions fun_eq_iff option.map_comp comp_def)

lemma live_route_repo [simp]: "live_session (w\<lparr>route_repo := t\<rparr>) = live_session w"
  by (simp add: live_session_def fun_eq_iff)

lemma touch_unknown [simp]: "live_session w k = None \<Longrightarrow> touch k w = w"
  by (simp add: touch_def inmem_get_session_def live_session_def)

lemma renew_renew [simp]: "renew now (renew now w) = renew now w"
  by (simp add: renew_def)

lemma touch_touch [simp]: "touch k (touch k w) = touch k w"
  by (cases "st_sessions (session_repo w) k") (simp_all add: touch_def inmem_get_session_def)

lemma sm_get_session_run [prog_simps]:
  "sm_get_session (inmemory_session_repository porder) k w = (Ok (live_session w k), touch k w)"
  by (simp add: sm_get_session_def repo_simps live_session_def touch_def)

lemma check_session_run [prog_simps]:
  "check_session (inmemory_session_repository porder) k w =
     (case live_session w k of
        None \<Rightarrow> (Err (mk_status Unauthenticated ''Invalid access key''), w)
      | Some _ \<Rightarrow> (Ok (), touch k w))"
  by (simp add: check_session_def prog_simps split: option.splits)

lemma inmem_check_conversation_run [prog_simps]:
  "check_conversation (new_route_manager inmemory_route_repository pick) c w =
     (case stored_conversation w c of
        None \<Rightarrow> (Err (mk_status NotFound ''Invalid conversation''), w)
      | Some _ \<Rightarrow> (Ok (), w))"
  by (simp add: check_conversation_def rm_get_conversation_def new_route_manager_def repo_simps
      prog_simps inmem_get_conversation_def stored_conversation_def split: option.splits)

lemma rm_get_conversation_run [prog_simps]:
  "rm_get_conversation (new_route_manager inmemory_route_repository pick) c w =
     (Ok (stored_conversation w c), w)"
  by (simp add: rm_get_conversation_def new_route_manager_def repo_simps
      inmem_get_conversation_def stored_conversation_def)

lemma stored_touch [simp]:
  "stored_conversation (touch k w) = stored_conversation w" "stored_route (touch k w) = stored_route w"
  by (simp_all add: view_defs fun_eq_iff)

lemma ping_closed:
  "auth_ping (inmemory_session_repository porder) addr now k w =
     (case addr of
        None \<Rightarrow> (Err (mk_status Internal ''Could not get client IP address''), w)
      | Some ip \<Rightarrow>
          (case live_session w k of
             None \<Rightarrow> (Err (mk_status Unauthenticated ''Invalid access key''), w)
           | Some s \<Rightarrow>
               (if ss_client_ip s = ip then Ok \<lparr>presp_status = ''PONG'', presp_timestamp = now\<rparr>
                else Err (mk_status Unauthenticated ''Invalid connection''), touch k w)))"
  by (simp add: auth_ping_def prog_simps split: option.splits)

lemma logout_closed:
  "auth_logout (inmemory_session_repository porder) k w =
     (case live_session w k of
        None \<Rightarrow> (Err (mk_status Unauthenticated ''Invalid access key''), w)
      | Some _ \<Rightarrow> (Ok (), w\<lparr>session_repo := inmem_remove_session k (session_repo w)\<rparr>))"
  by (cases "st_sessions (session_repo w) k")
     (simp_all add: auth_logout_def prog_simps sm_remove_session_def repo_simps live_session_def
       touch_def inmem_get_session_def inmem_remove_session_def)

lemma status_closed:
  "info_status (inmemory_session_repository porder) version k w =
     (case live_session w k of
        None \<Rightarrow> (Err (mk_status Unauthenticated ''Invalid access key''), w)
      | Some _ \<Rightarrow>
          (Ok \<lparr>sr_version = version,
               sr_connected_proxies = count_to_u32 (inmem_count_proxies (session_repo w)),
               sr_connected_clients = count_to_u32 (inmem_count_clients (session_repo w)),
               sr_connected_controllers = count_to_u32 (inmem_count_controllers (session_repo w))\<rparr>,
           touch k w))"
  by (simp add: info_status_def prog_simps session_manager_defs repo_simps inmem_count_proxies_def
      inmem_count_clients_def inmem_count_controllers_def check_session_run split: option.splits)

text \<open>The session a login creates.\<close>

definition login_session :: "string \<Rightarrow> socket_addr \<Rightarrow> component \<Rightarrow> login_request \<Rightarrow> session_info" where
  "login_session uuid ip c req =
     \<lparr>ss_access_key = uuid, ss_uid = lr_uid req, ss_client_ip = ip,
      ss_on_port_number = ucast (lr_on_port req), ss_on_ip_address = lr_on_ip req,
      ss_component_type = u8_from_component c, ss_public_key = lr_public_key req,
      ss_domain_name = lr_domain_name req\<rparr>"

lemma login_session_sel [simp]:
  "ss_access_key (login_session uuid ip c req) = uuid"
  "ss_uid (login_session uuid ip c req) = lr_uid req"
  "ss_client_ip (login_session uuid ip c req) = ip"
  "ss_component_type (login_session uuid ip c req) = u8_from_component c"
  by (simp_all add: login_session_def)

definition known_credentials :: "world \<Rightarrow> string \<Rightarrow> string \<Rightarrow> bool" where
  "known_credentials w uid pwd \<longleftrightarrow> map_option mb_pwd (member_repo w uid) = Some pwd"

lemma validate_credentials_run [prog_simps]:
  "validate_credentials inmemory_member_repository uid pwd w = (Ok (known_credentials w uid pwd), w)"
  by (simp add: validate_credentials_def mm_get_member_def repo_simps prog_simps
      known_credentials_def split: option.splits)

lemma sm_set_session_run [prog_simps]:
  "sm_set_session (inmemory_session_repository porder) uuid uid c ip
     \<lparr>cs_ip = i, cs_port = p, cs_domain_name = d, cs_certificate = ct\<rparr> w =
   (Ok uuid, w\<lparr>session_repo := put_session (clock w) c
      \<lparr>ss_access_key = uuid, ss_uid = uid, ss_client_ip = ip, ss_on_port_number = p,
       ss_on_ip_address = i, ss_component_type = u8_from_component c, ss_public_key = ct,
       ss_domain_name = d\<rparr> (session_repo w)\<rparr>)"
  by (simp add: sm_set_session_def Let_def repo_simps prog_simps)

lemma login_closed:
  "auth_login (inmemory_session_repository porder) inmemory_member_repository uuid addr req w =
     (case addr of
        None \<Rightarrow> (Err (mk_status Internal ''Could not get client IP address''), w)
      | Some ip \<Rightarrow>
          if lr_uid req = [] then (Err (mk_status InvalidArgument ''UID and PWD cannot be empty''), w)
          else (case component_from_i32 (lr_component_type req) of
             None \<Rightarrow> (Panic, w)
           | Some c \<Rightarrow>
               if c = Controller then (Err (mk_status InvalidArgument ''Invalid component type''), w)
               else if known_credentials w (lr_uid req) (lr_pwd req)
               then (Ok \<lparr>lresp_access_key = uuid, lresp_message = ''Login successful''\<rparr>,
                     w\<lparr>session_repo :=
                         put_session (clock w) c (login_session uuid ip c req) (session_repo w)\<rparr>)
               else (Err (mk_status Unauthenticated ''Invalid credentials''), w)))"
  by (simp add: auth_login_def prog_simps Let_def login_session_def split: option.splits)

definition init_target :: "string \<Rightarrow> string" where
  "init_target to = (if to = [] then CONTROLLER_UID else to)"

lemma initialize_closed:
  "route_initialize (inmemory_session_repository porder)
     (new_route_manager inmemory_route_repository pick) uuid k to w =
     (case live_session w k of
        None \<Rightarrow> (Err (mk_status Unauthenticated ''Invalid access key''), w)
      | Some s \<Rightarrow>
          let c = new_conversation (create_conversation_id uuid) (ss_uid s) (init_target to) 1
          in (if rt_conversations (route_repo w) (conv_id c) = None then Ok (conv_id c)
              else Err (mk_status Internal ''Failed to initialize conversation''),
              (touch k w)\<lparr>route_repo := snd (inmem_set_conversation (clock w) c (route_repo w))\<rparr>))"
  by (simp add: route_initialize_def prog_simps rm_initialize_def new_route_manager_def
      new_strategies_def random_route_strategy_def get_routing_id_def repo_simps Let_def
      init_target_def check_session_run split: option.splits)

text \<open>The route record for a hop to a session, and what the requester is told about it.\<close>

definition hop_route :: "string \<Rightarrow> bool \<Rightarrow> session_info \<Rightarrow> route" where
  "hop_route uuid end_route s =
     \<lparr>rt_on_ip_address = ss_on_ip_address s, rt_on_port_number = ss_on_port_number s,
      rt_public_key = ss_public_key s, rt_domain_name = ss_domain_name s,
      rt_nonce = uuid, rt_end_route = end_route\<rparr>"

definition hop_response :: "string \<Rightarrow> bool \<Rightarrow> session_info \<Rightarrow> route_response" where
  "hop_response uuid end_route s =
     \<lparr>rr_ip_address = ss_on_ip_address s, rr_port_number = ucast (ss_on_port_number s),
      rr_public_key = ss_public_key s, rr_domain_name = ss_domain_name s,
      rr_nonce = uuid, rr_end_route = end_route\<rparr>"

lemma hop_route_sel [simp]:
  "rt_nonce (hop_route uuid e s) = uuid" "rt_end_route (hop_route uuid e s) = e"
  by (simp_all add: hop_route_def)

lemma hop_response_sel [simp]:
  "rr_nonce (hop_response uuid e s) = uuid" "rr_end_route (hop_response uuid e s) = e"
  by (simp_all add: hop_response_def)

definition issue :: "string \<Rightarrow> string \<Rightarrow> bool \<Rightarrow> session_info \<Rightarrow> world \<Rightarrow>
    (route_response, status) outcome \<times> world" where
  "issue uuid c e s w =
     (if fst (inmem_set_route (clock w) c (hop_route uuid e s) (route_repo w)) = None
      then Err (mk_status Internal ''Failed to store route'')
      else Ok (hop_response uuid e s),
      w\<lparr>route_repo := snd (inmem_set_route (clock w) c (hop_route uuid e s) (route_repo w))\<rparr>)"

lemma handle_route_closed:
  "handle_route (new_route_manager inmemory_route_repository pick) uuid c s e w = issue uuid c e s w"
proof -
  have store: "rm_store_route (new_route_manager inmemory_route_repository pick) uuid c
          (to_connection_settings s) e w =
      ((Ok (fst (inmem_set_route (clock w) c (hop_route uuid e s) (route_repo w))),
        w\<lparr>route_repo := snd (inmem_set_route (clock w) c (hop_route uuid e s) (route_repo w))\<rparr>)
       :: (string option, status) outcome \<times> world)"
    by (simp add: rm_store_route_def Let_def repo_simps to_connection_settings_def hop_route_def)
  show ?thesis
    by (simp add: handle_route_def Let_def store issue_def set_route_fst
        hop_response_def ret_def throw_def)
qed

definition next_hop :: "proxy_order \<Rightarrow> (nat list \<Rightarrow> nat option) \<Rightarrow> string \<Rightarrow> string \<Rightarrow> string \<Rightarrow>
    conversation \<Rightarrow> world \<Rightarrow> (route_response, status) outcome \<times> world" where
  "next_hop porder pick uuid k c x w =
     (if conv_routing_id x \<noteq> 1 then (Panic, w)
      else if length (conv_routes x) = 3
      then (case inmem_get_client (conv_to x) (session_repo w) of
              Some s \<Rightarrow> issue uuid c True s w
            | None \<Rightarrow> (Err (mk_status NotFound
                ''Reached final route, no more routes available as no client found''), w))
      else (case inmem_get_proxies (porder (st_proxies (session_repo w))) k (session_repo w) of
              None \<Rightarrow> (Err (mk_status NotFound ''No proxies found''), w)
            | Some ps \<Rightarrow>
                (case random_next_route pick ps w of
                   (Ok (Some p), w') \<Rightarrow> issue uuid c False p w'
                 | (Ok None, w') \<Rightarrow> (Err (mk_status NotFound
                     ''Next route wasn't found, no more routes available''), w')
                 | (Err e, w') \<Rightarrow> (Err e, w')
                 | (Panic, w') \<Rightarrow> (Panic, w'))))"

lemma route_closed:
  "route_route (inmemory_session_repository porder)
     (new_route_manager inmemory_route_repository pick) uuid k c w =
     (case live_session w k of
        None \<Rightarrow> (Err (mk_status Unauthenticated ''Invalid access key''), w)
      | Some _ \<Rightarrow>
          (case stored_conversation w c of
             None \<Rightarrow> (Err (mk_status NotFound ''Invalid conversation''), touch k w)
           | Some x \<Rightarrow> next_hop porder pick uuid k c x (touch k w)))"
proof (cases "live_session w k")
  case None
  then show ?thesis by (simp add: route_route_def prog_simps)
next
  case (Some s)
  show ?thesis
  proof (cases "stored_conversation w c")
    case None
    with Some show ?thesis by (simp add: route_route_def prog_simps)
  next
    case x: (Some x)
    have same: "stored_conversation (touch k w) c = Some x" by (simp add: x)
    have final: "rm_check_for_final_route (new_route_manager inmemory_route_repository pick) x v =
        ((if conv_routing_id x = 1 then Ok (length (conv_routes x) = 3) else Panic, v)
         :: (bool, status) outcome \<times> world)" for v
      by (simp add: rm_check_for_final_route_def prog_simps)
    have next_route: "rm_get_next_route (new_route_manager inmemory_route_repository pick) x ps v =
        ((if conv_routing_id x = 1 then random_next_route pick ps v else (Panic, v))
         :: (session_info option, status) outcome \<times> world)" for ps v
      by (simp add: rm_get_next_route_def prog_simps)
    let ?w = "touch k w"
    note steps = Some x check_session_run inmem_check_conversation_run rm_get_conversation_run
      final handle_route_closed
    show ?thesis
    proof (cases "conv_routing_id x = 1")
      case False
      then show ?thesis by (simp add: route_route_def next_hop_def steps)
    next
      case True
      show ?thesis
      proof (cases "length (conv_routes x) = 3")
        case len: True
        have "sm_get_client (inmemory_session_repository porder) (conv_to x) ?w =
            ((Ok (inmem_get_client (conv_to x) (session_repo ?w)), ?w)
             :: (session_info option, status) outcome \<times> world)"
          by (simp add: sm_get_client_def repo_simps)
        with True len show ?thesis
          by (cases "inmem_get_client (conv_to x) (session_repo ?w)")
             (simp_all add: route_route_def next_hop_def steps throw_def)
      next
        case len: False
        let ?ps = "inmem_get_proxies (porder (st_proxies (session_repo ?w))) k (session_repo ?w)"
        have ps: "sm_get_proxies (inmemory_session_repository porder) k ?w =
            ((Ok ?ps, ?w) :: (session_info list option, status) outcome \<times> world)"
          by (simp add: sm_get_proxies_def repo_simps)
        show ?thesis
        proof (cases ?ps)
          case None
          with True len ps show ?thesis
            by (simp add: route_route_def next_hop_def steps throw_def)
        next
          case p: (Some qs)
          obtain r v where rv: "random_next_route pick qs ?w = (r, v)"
            "r = Ok None \<or> (\<exists>p. r = Ok (Some p)) \<or> (\<exists>e. r = Err (e :: status)) \<or> r = Panic"
            by (metis outcome.exhaust option.exhaust surj_pair)
          with True len ps p show ?thesis
            by (elim disjE exE)
               (simp_all add: route_route_def next_hop_def steps throw_def next_route)
        qed
      qed
    qed
  qed
qed

lemma rm_redeem_route_run:
  "rm_redeem_route (new_route_manager inmemory_route_repository pick) c n w =
     (Ok (stored_route w c n), w\<lparr>route_repo := inmem_remove_route n (route_repo w)\<rparr>)"
proof (cases "stored_route w c n")
  case None
  then have "inmem_remove_route n (route_repo w) = route_repo w"
    by (simp add: stored_route_def inmem_remove_route_def fun_upd_idem)
  with None show ?thesis
    by (simp add: rm_redeem_route_def repo_simps inmem_get_route_def stored_route_def ret_def)
next
  case (Some r)
  then obtain z where "rt_routes (route_repo w) n = Some z" and "ew_value z = r"
    by (auto simp: stored_route_def)
  then show ?thesis
    by (simp add: rm_redeem_route_def repo_simps inmem_get_route_def stored_route_def ret_def)
qed

text \<open>The route tables after a redemption of nonce \<open>n\<close> in conversation \<open>c\<close>.\<close>

definition redeemed :: "string \<Rightarrow> string \<Rightarrow> bool \<Rightarrow> route_tables \<Rightarrow> route_tables" where
  "redeemed c n end_route t =
     (if end_route then inmem_remove_conversation c (inmem_remove_route n t)
      else inmem_remove_route n t)"

lemma redeemed_sel [simp]:
  "rt_routes (redeemed c n e t) = (rt_routes t)(n := None)"
  "rt_conversations (redeemed c n e t) =
     (if e then (rt_conversations t)(c := None) else rt_conversations t)"
  by (simp_all add: redeemed_def)

lemma redeem_closed:
  "route_redeem (inmemory_session_repository porder)
     (new_route_manager inmemory_route_repository pick) k c n w =
     (case live_session w k of
        None \<Rightarrow> (Err (mk_status Unauthenticated ''Invalid access key''), w)
      | Some _ \<Rightarrow>
          (case stored_conversation w c of
             None \<Rightarrow> (Err (mk_status NotFound ''Invalid conversation''), touch k w)
           | Some x \<Rightarrow>
               (case stored_route w c n of
                  None \<Rightarrow> (Err (mk_status Internal ''Failed to redeem route''), touch k w)
                | Some r \<Rightarrow>
                    (Ok (if rt_end_route r then Some (conv_from x) else None),
                     (touch k w)\<lparr>route_repo := redeemed c n (rt_end_route r) (route_repo w)\<rparr>))))"
proof (cases "live_session w k")
  case None
  then show ?thesis by (simp add: route_redeem_def prog_simps)
next
  case (Some s)
  show ?thesis
  proof (cases "stored_conversation w c")
    case None
    with Some show ?thesis by (simp add: route_redeem_def prog_simps)
  next
    case x: (Some x)
    note steps = Some x check_session_run inmem_check_conversation_run rm_get_conversation_run
      rm_redeem_route_run
    show ?thesis
    proof (cases "stored_route w c n")
      case None
      then have "inmem_remove_route n (route_repo w) = route_repo w"
        by (simp add: stored_route_def inmem_remove_route_def fun_upd_idem)
      moreover have "(touch k w)\<lparr>route_repo := route_repo w\<rparr> = touch k w"
        by (simp add: touch_def)
      ultimately show ?thesis
        using None by (simp add: route_redeem_def steps throw_def)
    next
      case r: (Some r)
      let ?w = "(touch k w)\<lparr>route_repo := inmem_remove_route n (route_repo w)\<rparr>"
      have "stored_conversation ?w c = Some x"
        using x by (simp add: stored_conversation_def)
      with r show ?thesis
        by (simp add: route_redeem_def steps rm_finalize_def repo_simps redeemed_def ret_def)
    qed
  qed
qed

lemmas handler_closed =
  login_closed logout_closed ping_closed initialize_closed route_closed redeem_closed status_closed

end
