(* ===== verification/Controller_Runs.thy ===== *)
theory Controller_Runs
  imports Controller
begin

section \<open>Runs of the controller\<close>

text \<open>
  A controller is a state machine: requests served one after the other, the passage of time, the two
  periodic sweeps and the self-registration loop.  \<open>step\<close> is one event, \<open>run\<close> a sequence
  of them, \<open>reachable\<close> what a start-up that seeded the members can lead to.  A request draws one
  UUID, which is assumed to collide with nothing stored; iteration orders and random choices are
  only assumed to be what their types promise.  Handlers run to completion: the interleavings at
  the suspension points inside a handler are not part of this machine.

  Every step is a sequence of a few primitive \<open>effect\<close>s on the tables; the invariants are
  preserved by each of them.
\<close>

subsection \<open>Events\<close>

datatype event =
    Request surroundings request
  | Tick duration
  | Sweep_Sessions "string list"
  | Sweep_Routes
  | Register_Self string

record deployment =
  dep_descriptor :: component_descriptor
  dep_parse_addr :: "string \<rightharpoonup> socket_addr"

fun descriptor_version :: "component_descriptor \<Rightarrow> string" where
  "descriptor_version (ControllerDescriptor _ _ v) = v"
| "descriptor_version _ = []"

definition own_uid :: "deployment \<Rightarrow> string" where
  "own_uid d = cred_uid (descriptor_credentials (dep_descriptor d))"

definition answer :: "deployment \<Rightarrow> surroundings \<Rightarrow> request \<Rightarrow> (world, reply, status) prog" where
  "answer d = serve (descriptor_version (dep_descriptor d))"

definition registered :: "deployment \<Rightarrow> string \<Rightarrow> world \<Rightarrow> (unit, string) outcome \<times> world" where
  "registered d uuid =
     register_self (inmemory_session_repository (\<lambda>_. [])) (dep_parse_addr d) uuid (dep_descriptor d)"

definition fresh_uuid :: "string \<Rightarrow> world \<Rightarrow> bool" where
  "fresh_uuid u w \<longleftrightarrow>
     fresh_session_key u (session_repo w) \<and> rt_routes (route_repo w) u = None \<and>
     rt_conversations (route_repo w) (create_conversation_id u) = None"

definition fair :: "surroundings \<Rightarrow> world \<Rightarrow> bool" where
  "fair su w \<longleftrightarrow>
     fresh_uuid (su_uuid su) w \<and> picks (su_pick su) \<and>
     enumerates (su_porder su (st_proxies (session_repo w))) (st_proxies (session_repo w))"

inductive step :: "deployment \<Rightarrow> world \<Rightarrow> event \<Rightarrow> world \<Rightarrow> bool" for d :: deployment where
  request: "fair su w \<Longrightarrow> answer d su rq w = (r, w') \<Longrightarrow> step d w (Request su rq) w'"
| tick: "step d w (Tick n) (w\<lparr>clock := clock w + n\<rparr>)"
| sweep_sessions: "enumerates order (st_sessions (session_repo w)) \<Longrightarrow>
    step d w (Sweep_Sessions order)
      (w\<lparr>session_repo := kill_expired_sessions (clock w) order (session_repo w)\<rparr>)"
| sweep_routes:
    "step d w Sweep_Routes (w\<lparr>route_repo := kill_expired_routes (clock w) (route_repo w)\<rparr>)"
| register: "fresh_uuid u w \<Longrightarrow> registered d u w = (r, w') \<Longrightarrow> step d w (Register_Self u) w'"

inductive_cases step_requestE: "step d w (Request su rq) w'"

inductive run :: "deployment \<Rightarrow> world \<Rightarrow> event list \<Rightarrow> world \<Rightarrow> bool" for d :: deployment where
  run_nil: "run d w [] w"
| run_cons: "step d w e v \<Longrightarrow> run d v es w' \<Longrightarrow> run d w (e # es) w'"

inductive_simps run_Nil_iff [simp]: "run d w [] w'"
inductive_simps run_Cons_iff: "run d w (e # es) w'"

definition seeded :: "environment \<Rightarrow> (bytes \<Rightarrow> string list option list) \<Rightarrow> world \<Rightarrow> bool" where
  "seeded env csv w \<longleftrightarrow>
     controller_initialize inmemory_member_repository env csv new_world =
       (Ok () :: (unit, string) outcome, w)"

definition reachable :: "deployment \<Rightarrow> world \<Rightarrow> bool" where
  "reachable d w \<longleftrightarrow> (\<exists>env csv w0 es. seeded env csv w0 \<and> run d w0 es w)"

subsection \<open>Primitive effects\<close>

definition known_uid :: "deployment \<Rightarrow> world \<Rightarrow> string \<Rightarrow> bool" where
  "known_uid d w u \<longleftrightarrow> member_repo w u \<noteq> None \<or> u = own_uid d"

text \<open>\<open>effect d U w w'\<close>: one change of the tables, with the UUIDs it may use.\<close>

inductive effect :: "deployment \<Rightarrow> string set \<Rightarrow> world \<Rightarrow> world \<Rightarrow> bool"
  for d :: deployment and U :: "string set" where
  look_up: "effect d U w (touch k w)"
| open_session:
    "fresh_session_key (ss_access_key s) (session_repo w) \<Longrightarrow> ss_access_key s \<in> U \<Longrightarrow>
     component_from_u8 (ss_component_type s) = Some c \<Longrightarrow> known_uid d w (ss_uid s) \<Longrightarrow>
     effect d U w (w\<lparr>session_repo := put_session (clock w) c s (session_repo w)\<rparr>)"
| close_session: "effect d U w (w\<lparr>session_repo := inmem_remove_session k (session_repo w)\<rparr>)"
| open_conversation:
    "rt_conversations (route_repo w) (conv_id x) = None \<Longrightarrow> conv_routing_id x = 1 \<Longrightarrow>
     conv_routes x = [] \<Longrightarrow> known_uid d w (conv_from x) \<Longrightarrow>
     conv_id x \<in> create_conversation_id ` U \<Longrightarrow>
     effect d U w (w\<lparr>route_repo := snd (inmem_set_conversation (clock w) x (route_repo w))\<rparr>)"
| issue_route:
    "rt_routes (route_repo w) (rt_nonce r) = None \<Longrightarrow> rt_nonce r \<in> U \<Longrightarrow>
     stored_conversation w c = Some x \<Longrightarrow> rt_end_route r = (length (conv_routes x) = 3) \<Longrightarrow>
     effect d U w (w\<lparr>route_repo := snd (inmem_set_route (clock w) c r (route_repo w))\<rparr>)"
| use_route: "effect d U w (w\<lparr>route_repo := redeemed c n e (route_repo w)\<rparr>)"
| advance: "effect d U w (w\<lparr>clock := clock w + t\<rparr>)"
| expire_sessions: "enumerates order (st_sessions (session_repo w)) \<Longrightarrow>
    effect d U w (w\<lparr>session_repo := kill_expired_sessions (clock w) order (session_repo w)\<rparr>)"
| expire_routes:
    "effect d U w (w\<lparr>route_repo := kill_expired_routes (clock w) (route_repo w)\<rparr>)"

abbreviation effects :: "deployment \<Rightarrow> string set \<Rightarrow> world \<Rightarrow> world \<Rightarrow> bool" where
  "effects d U \<equiv> (effect d U)\<^sup>*\<^sup>*"

fun drawn :: "event \<Rightarrow> string set" where
  "drawn (Request su _) = {su_uuid su}"
| "drawn (Register_Self u) = {u}"
| "drawn _ = {}"

subsection \<open>The invariant\<close>

definition hops_ok :: "conversation \<Rightarrow> bool" where
  "hops_ok x \<longleftrightarrow>
     conv_routing_id x = 1 \<and>
     (\<forall>i < length (conv_routes x). rt_end_route (conv_routes x ! i) \<longleftrightarrow> i = 3)"

definition users_known :: "deployment \<Rightarrow> world \<Rightarrow> bool" where
  "users_known d w \<longleftrightarrow>
     (\<forall>k s. live_session w k = Some s \<longrightarrow> known_uid d w (ss_uid s)) \<and>
     (\<forall>c x. stored_conversation w c = Some x \<longrightarrow> known_uid d w (conv_from x))"

definition lifetimes_ok :: "world \<Rightarrow> bool" where
  "lifetimes_ok w \<longleftrightarrow>
     (\<forall>n e. rt_routes (route_repo w) n = Some e \<longrightarrow> ew_expires_at e \<le> clock w + 60000) \<and>
     (\<forall>c e. rt_conversations (route_repo w) c = Some e \<longrightarrow> ew_expires_at e \<le> clock w + 60000)"

definition controller_inv :: "deployment \<Rightarrow> world \<Rightarrow> bool" where
  "controller_inv d w \<longleftrightarrow>
     session_wf (session_repo w) \<and> route_wf (route_repo w) \<and> users_known d w \<and> lifetimes_ok w \<and>
     (\<forall>c x. stored_conversation w c = Some x \<longrightarrow> hops_ok x)"

lemma hops_ok_push:
  assumes "hops_ok x" and "rt_end_route r = (length (conv_routes x) = 3)"
  shows "hops_ok (push_route r x)"
  using assms by (auto simp: hops_ok_def nth_append less_Suc_eq)

lemma effect_members: "effect d U w w' \<Longrightarrow> member_repo w' = member_repo w"
  by (cases rule: effect.cases, assumption) simp_all

lemma effect_known: "effect d U w w' \<Longrightarrow> known_uid d w' u = known_uid d w u"
  by (simp add: known_uid_def effect_members)

lemma effect_live:
  assumes "effect d U w w'" and "live_session w' k = Some s"
  obtains (kept) "live_session w k = Some s" | (opened) "k \<in> U" and "known_uid d w (ss_uid s)"
  using assms
proof (cases rule: effect.cases)
  case (look_up j)
  with assms(2) kept show thesis by simp
next
  case (open_session s' c)
  with assms(2) kept opened show thesis by (auto simp: live_session_def split: if_splits)
next
  case (close_session j)
  with assms(2) kept show thesis by (auto simp: live_session_def split: if_splits)
next
  case (expire_sessions order)
  then have "st_sessions (session_repo w') k = Some e \<Longrightarrow> st_sessions (session_repo w) k = Some e" for e
    by (simp add: kill_expired_sessions_def foldl_drop_session split: if_splits)
  with assms(2) kept show thesis by (auto simp: live_session_def)
qed (use assms(2) kept in \<open>auto simp: live_session_def\<close>)

lemma effect_conversation:
  assumes "effect d U w w'" and "stored_conversation w' c = Some y"
  obtains (kept) "stored_conversation w c = Some y"
    | (opened) "conv_routing_id y = 1" and "conv_routes y = []" and "known_uid d w (conv_from y)"
    | (extended) r x where "stored_conversation w c = Some x" and "y = push_route r x"
        and "rt_end_route r = (length (conv_routes x) = 3)"
  using assms
proof (cases rule: effect.cases)
  case (open_conversation x)
  with assms(2) kept opened show thesis
    by (auto simp: stored_conversation_def split: if_splits)
next
  case (issue_route r c' x)
  with assms(2) kept extended show thesis
    by (auto simp: stored_conversation_def set_route_conversations split: if_splits)
qed (use assms(2) kept in \<open>auto simp: stored_conversation_def split: if_splits\<close>)

lemma effect_session_wf: "effect d U w w' \<Longrightarrow> session_wf (session_repo w) \<Longrightarrow> session_wf (session_repo w')"
  by (cases rule: effect.cases, assumption)
     (simp_all add: get_session_wf put_session_wf remove_session_wf kill_expired_wf)

lemma effect_route_wf: "effect d U w w' \<Longrightarrow> route_wf (route_repo w) \<Longrightarrow> route_wf (route_repo w')"
  by (cases rule: effect.cases, assumption)
     (simp_all add: route_wf_simps redeemed_def)

lemma effect_lifetimes:
  assumes "effect d U w w'" and "lifetimes_ok w"
  shows "lifetimes_ok w'"
  using assms
proof (cases rule: effect.cases)
  case (advance t)
  with assms(2) show ?thesis by (fastforce simp: lifetimes_ok_def)
next
  case (issue_route r c x)
  with assms(2) show ?thesis
    by (auto simp: lifetimes_ok_def set_route_conversations ROUTES_EXPIRATION_TIME_def)
qed (auto simp: lifetimes_ok_def CONVERSATIONS_EXPIRATION_TIME_def)

lemma effect_hops:
  assumes "effect d U w w'" and "\<And>c x. stored_conversation w c = Some x \<Longrightarrow> hops_ok x"
    and "stored_conversation w' c = Some y"
  shows "hops_ok y"
  using assms(1,3)
proof (cases rule: effect_conversation)
  case opened
  then show ?thesis by (simp add: hops_ok_def)
qed (simp_all add: assms(2) hops_ok_push)

lemma effect_users: "effect d U w w' \<Longrightarrow> users_known d w \<Longrightarrow> users_known d w'"
  unfolding users_known_def
proof (intro conjI allI impI)
  fix k s
  assume e: "effect d U w w'" and "live_session w' k = Some s"
    and w: "(\<forall>k s. live_session w k = Some s \<longrightarrow> known_uid d w (ss_uid s)) \<and>
      (\<forall>c x. stored_conversation w c = Some x \<longrightarrow> known_uid d w (conv_from x))"
  from e this(2) show "known_uid d w' (ss_uid s)"
    by (cases rule: effect_live) (use w in \<open>auto simp: effect_known [OF e]\<close>)
next
  fix c x
  assume e: "effect d U w w'" and "stored_conversation w' c = Some x"
    and w: "(\<forall>k s. live_session w k = Some s \<longrightarrow> known_uid d w (ss_uid s)) \<and>
      (\<forall>c x. stored_conversation w c = Some x \<longrightarrow> known_uid d w (conv_from x))"
  from e this(2) show "known_uid d w' (conv_from x)"
    by (cases rule: effect_conversation) (use w in \<open>auto simp: effect_known [OF e]\<close>)
qed

lemma effect_inv: "effect d U w w' \<Longrightarrow> controller_inv d w \<Longrightarrow> controller_inv d w'"
  unfolding controller_inv_def
  by (meson effect_session_wf effect_route_wf effect_users effect_lifetimes effect_hops)

lemma effects_inv: "effects d U w w' \<Longrightarrow> controller_inv d w \<Longrightarrow> controller_inv d w'"
  by (induction rule: rtranclp_induct) (blast intro: effect_inv)+

subsection \<open>Steps are effects\<close>

lemma effects_one: "effect d U w w' \<Longrightarrow> effects d U w w'"
  by (rule r_into_rtranclp)

lemma effects_touch: "effects d U (touch k w) w' \<Longrightarrow> effects d U w w'"
  by (rule converse_rtranclp_into_rtranclp, rule effect.look_up)

lemma effects_issue:
  assumes "uuid \<in> U" and "rt_routes (route_repo w) uuid = None"
    and "stored_conversation w c = Some x" and "e = (length (conv_routes x) = 3)"
  shows "effects d U w (snd (issue uuid c e s w))"
  unfolding issue_def
  by (simp, rule effects_one, rule effect.issue_route) (use assms in simp_all)

lemma effects_next_hop:
  assumes "uuid \<in> U" and "rt_routes (route_repo w) uuid = None"
    and "stored_conversation w c = Some x" and "picks pick"
  shows "effects d U w (snd (next_hop porder pick uuid k c x w))"
proof -
  have hop: "effects d U w (snd (issue uuid c (length (conv_routes x) = 3) s w))" for s
    by (rule effects_issue [OF assms(1-3) refl])
  have rnd: "snd (random_next_route pick ps w :: (session_info option, status) outcome \<times> world) = w" for ps
    by (simp add: random_next_route_def Let_def prog_simps)
  show ?thesis
    using hop rnd unfolding next_hop_def
    by (cases "length (conv_routes x) = 3")
       (auto split: option.splits outcome.splits prod.splits dest: arg_cong [of _ _ snd] simp: prog_simps)
qed

lemma snd_map_ok [simp]: "snd (map_ok f p w) = snd (p w)"
  by (simp add: map_ok_run split: prod.splits outcome.splits)

lemma known_credentials_uid: "known_credentials w uid pwd \<Longrightarrow> known_uid d w uid"
  by (auto simp: known_credentials_def known_uid_def)

lemma effects_login:
  assumes "fresh_uuid uuid w" and "uuid \<in> U"
  shows "effects d U w
    (snd (auth_login (inmemory_session_repository po) inmemory_member_repository uuid addr req w))"
proof -
  have open1: "effect d U w (w\<lparr>session_repo :=
      put_session (clock w) c (login_session uuid ip c req) (session_repo w)\<rparr>)"
    if "known_credentials w (lr_uid req) (lr_pwd req)" for ip c
    by (rule effect.open_session)
       (use assms known_credentials_uid [OF that] in \<open>simp_all add: fresh_uuid_def\<close>)
  show ?thesis
    unfolding login_closed by (auto split: option.splits intro: open1 effects_one)
qed

lemma effects_initialize:
  assumes "fresh_uuid uuid w" and "users_known d w" and "uuid \<in> U"
  shows "effects d U w
    (snd (route_initialize (inmemory_session_repository po)
            (new_route_manager inmemory_route_repository pick) uuid k to w))"
proof -
  have "effects d U w ((touch k w)\<lparr>route_repo := snd (inmem_set_conversation (clock w)
      (new_conversation (create_conversation_id uuid) (ss_uid s) (init_target to) 1) (route_repo w))\<rparr>)"
    if s: "live_session w k = Some s" for s
  proof -
    let ?x = "new_conversation (create_conversation_id uuid) (ss_uid s) (init_target to) 1"
    have "known_uid d (touch k w) (ss_uid s)"
      using assms(2) s by (simp add: users_known_def known_uid_def)
    then have "effect d U (touch k w) ((touch k w)\<lparr>route_repo :=
        snd (inmem_set_conversation (clock (touch k w)) ?x (route_repo (touch k w)))\<rparr>)"
      using assms(1,3)
      by (intro effect.open_conversation) (simp_all add: new_conversation_def fresh_uuid_def)
    then show ?thesis by - (rule effects_touch, rule effects_one, simp)
  qed
  then show ?thesis
    unfolding initialize_closed by (auto simp: Let_def split: option.splits)
qed

lemma effects_route:
  assumes "fair su w" and "su_uuid su \<in> U"
  shows "effects d U w
    (snd (route_route (inmemory_session_repository (su_porder su))
            (new_route_manager inmemory_route_repository (su_pick su)) (su_uuid su) k c w))"
proof -
  have "effects d U (touch k w)
      (snd (next_hop (su_porder su) (su_pick su) (su_uuid su) k c x (touch k w)))"
    if "stored_conversation w c = Some x" for x
    by (rule effects_next_hop) (use assms that in \<open>simp_all add: fair_def fresh_uuid_def\<close>)
  then have "effects d U w
      (snd (next_hop (su_porder su) (su_pick su) (su_uuid su) k c x (touch k w)))"
    if "stored_conversation w c = Some x" for x
    by (rule effects_touch) (rule that)
  moreover have "effects d U w (touch k w)" by (rule effects_one [OF effect.look_up])
  ultimately show ?thesis
    unfolding route_closed by (auto split: option.splits)
qed

lemma effects_redeem:
  "effects d U w
    (snd (route_redeem (inmemory_session_repository po)
            (new_route_manager inmemory_route_repository pick) k c n w))"
proof -
  have "effect d U (touch k w)
      ((touch k w)\<lparr>route_repo := redeemed c n e (route_repo (touch k w))\<rparr>)" for e
    by (rule effect.use_route)
  then have "effects d U w ((touch k w)\<lparr>route_repo := redeemed c n e (route_repo w)\<rparr>)" for e
    by - (rule effects_touch, rule effects_one, simp)
  moreover have "effects d U w (touch k w)" by (rule effects_one [OF effect.look_up])
  ultimately show ?thesis
    unfolding redeem_closed by (auto split: option.splits)
qed

lemma effects_answer:
  assumes "fair su w" and "users_known d w"
  shows "effects d {su_uuid su} w (snd (answer d su rq w))"
proof -
  have look: "effects d {su_uuid su} w (touch k w)" for k
    by (rule effects_one [OF effect.look_up])
  have "fresh_uuid (su_uuid su) w" using assms(1) by (simp add: fair_def)
  note effects_login [OF this] effects_initialize [OF this assms(2)] effects_route [OF assms(1)]
  moreover have "effects d {su_uuid su} w (snd (auth_logout (inmemory_session_repository po) k w))" for po k
    unfolding logout_closed by (auto split: option.splits intro: effects_one [OF effect.close_session])
  moreover have "effects d {su_uuid su} w (snd (auth_ping (inmemory_session_repository po) a n k w))" for po a n k
    using look unfolding ping_closed by (auto split: option.splits)
  moreover have "effects d {su_uuid su} w (snd (info_status (inmemory_session_repository po) v k w))" for po v k
    using look unfolding status_closed by (auto split: option.splits)
  ultimately show ?thesis
    by (cases rq) (simp_all add: answer_def effects_redeem)
qed

lemma effects_register:
  assumes "fresh_uuid u w"
  shows "effects d {u} w (snd (registered d u w))"
proof (cases "get_public_socket_address (dep_parse_addr d)
    (descriptor_connection_settings (dep_descriptor d))")
  case None
  then show ?thesis by (simp add: registered_def register_self_def prog_simps)
next
  case (Some addr)
  define cs where "cs = descriptor_connection_settings (dep_descriptor d)"
  let ?s = "\<lparr>ss_access_key = u, ss_uid = own_uid d, ss_client_ip = addr,
      ss_on_port_number = cs_port cs, ss_on_ip_address = cs_ip cs,
      ss_component_type = u8_from_component Controller, ss_public_key = cs_certificate cs,
      ss_domain_name = cs_domain_name cs\<rparr>"
  have "effect d {u} w (w\<lparr>session_repo := put_session (clock w) Controller ?s (session_repo w)\<rparr>)"
    by (rule effect.open_session) (use assms in \<open>simp_all add: fresh_uuid_def known_uid_def\<close>)
  moreover have "snd (registered d u w) =
      w\<lparr>session_repo := put_session (clock w) Controller ?s (session_repo w)\<rparr>"
    using Some
    by (simp add: registered_def register_self_def Let_def sm_set_session_def repo_simps
        own_uid_def cs_def [symmetric]) (simp add: prog_simps repo_simps)
  ultimately show ?thesis by (simp add: effects_one)
qed

lemma step_effects:
  assumes "step d w e w'" and "users_known d w"
  shows "effects d (drawn e) w w'"
  using assms(1)
proof cases
  case (request su rq r)
  with effects_answer [OF request(2) assms(2), of rq] show ?thesis by simp
next
  case (register u r)
  with effects_register [OF register(2), of d] show ?thesis by simp
qed (auto intro: effects_one effect.intros)

lemma step_inv: "step d w e w' \<Longrightarrow> controller_inv d w \<Longrightarrow> controller_inv d w'"
  by (metis step_effects effects_inv controller_inv_def)

lemma run_inv: "run d w es w' \<Longrightarrow> controller_inv d w \<Longrightarrow> controller_inv d w'"
  by (induction rule: run.induct) (auto intro: step_inv)

lemma new_world_inv: "controller_inv d (new_world\<lparr>member_repo := M\<rparr>)"
proof -
  have "session_wf (session_repo (new_world\<lparr>member_repo := M\<rparr>))"
    by (simp add: new_world_def new_session_tables_wf)
  moreover have "route_wf (route_repo (new_world\<lparr>member_repo := M\<rparr>))"
    by (simp add: new_world_def route_wf_simps)
  ultimately show ?thesis
    by (simp add: controller_inv_def new_world_def users_known_def lifetimes_ok_def
        live_session_def stored_conversation_def new_session_tables_def new_route_tables_def)
qed

end
