(* ===== verification/Controller_Properties.thy ===== *)
theory Controller_Properties
  imports Controller_Runs
begin

section \<open>What the controller guarantees\<close>

text \<open>
  Theorems on the handlers and on runs of the controller: who is let in, what a session, a hop and a
  redemption are worth, what reachable states look like, and how long routing data stays.  The last
  part evaluates a concrete controller, which the witnesses use.
\<close>

lemma mm_set_members_run:
  "mm_set_members inmemory_member_repository ms w =
     (Ok (), w\<lparr>member_repo := member_repo w ++ map_of (rev (map (\<lambda>m. (mb_uid m, m)) ms))\<rparr>)"
proof (induction ms arbitrary: w)
  case Nil
  then show ?case by (simp add: prog_simps)
next
  case (Cons m ms)
  have "member_repo w ++ map_of (rev (map (\<lambda>m. (mb_uid m, m)) (m # ms))) =
      (member_repo w)(mb_uid m \<mapsto> m) ++ map_of (rev (map (\<lambda>m. (mb_uid m, m)) ms))"
    by (simp add: map_of_append del: fun_upd_apply)
  then show ?case by (simp only: mm_set_members.simps) (simp add: repo_simps Cons.IH del: fun_upd_apply)
qed

lemma seededE:
  assumes "seeded env csv w"
  obtains path contents ms where "env_var env ''MEMBERS_CSV_FILE'' = Some path"
    and "read_file env path = Some contents" and "members_of_records (csv contents) = Some ms"
    and "w = new_world\<lparr>member_repo := map_of (rev (map (\<lambda>m. (mb_uid m, m)) ms))\<rparr>"
proof -
  from assms obtain path where path: "env_var env ''MEMBERS_CSV_FILE'' = Some path"
    by (auto simp: seeded_def controller_initialize_def get_env_variable_def prog_simps
        split: option.splits)
  from assms path obtain ms where ms: "read_members_from_csv env csv path = Some ms"
    by (cases "read_members_from_csv env csv path")
       (auto simp: seeded_def controller_initialize_def get_env_variable_def
         mm_seed_members_from_csv_def prog_simps)
  then obtain contents where
    "read_file env path = Some contents" "members_of_records (csv contents) = Some ms"
    by (auto simp: read_members_from_csv_def split: option.splits)
  moreover have "controller_initialize inmemory_member_repository env csv new_world =
      ((Ok (), new_world\<lparr>member_repo := map_of (rev (map (\<lambda>m. (mb_uid m, m)) ms))\<rparr>)
       :: (unit, string) outcome \<times> world)"
    using path ms
    by (simp add: controller_initialize_def get_env_variable_def mm_seed_members_from_csv_def
        mm_set_members_run) (simp add: new_world_def)
  then have "w = new_world\<lparr>member_repo := map_of (rev (map (\<lambda>m. (mb_uid m, m)) ms))\<rparr>"
    using assms by (simp add: seeded_def)
  ultimately show thesis using that path by blast
qed

lemma reachable_inv: "reachable d w \<Longrightarrow> controller_inv d w"
  by (auto simp: reachable_def elim!: seededE intro: run_inv [OF _ new_world_inv])

lemma effects_members: "effects d U w w' \<Longrightarrow> member_repo w' = member_repo w"
  by (induction rule: rtranclp_induct) (simp_all add: effect_members)

lemma run_members:
  "run d w es w' \<Longrightarrow> controller_inv d w \<Longrightarrow> member_repo w' = member_repo w"
proof (induction rule: run.induct)
  case (run_cons w e v es w')
  then have "member_repo v = member_repo w"
    by (metis step_effects effects_members controller_inv_def)
  moreover have "controller_inv d v" using run_cons by (metis step_inv)
  ultimately show ?case using run_cons.IH by simp
qed simp

subsection \<open>Guards and logins\<close>

text \<open>
  C21. Every handler except login and ping rejects an access key that names no session, with status
  Unauthenticated and without any change of the state; ping does too once the peer address is
  known, and rejects with an internal error when it is not.
\<close>

theorem unknown_key_rejected:
  assumes "live_session w k = None"
    and "rq \<in> {Logout k, Ping k, Initialize k a, Next_Route k a, Redeem k a b, Status k}"
  shows "answer d su rq w =
           (Err (if rq = Ping k \<and> su_remote_addr su = None
                 then mk_status Internal ''Could not get client IP address''
                 else mk_status Unauthenticated ''Invalid access key''), w)"
  using assms
  by (auto simp: answer_def map_ok_run logout_closed initialize_closed route_closed redeem_closed
      status_closed ping_closed split: option.splits)

definition login_acceptable :: "surroundings \<Rightarrow> login_request \<Rightarrow> world \<Rightarrow> bool" where
  "login_acceptable su req w \<longleftrightarrow>
     su_remote_addr su \<noteq> None \<and> lr_uid req \<noteq> [] \<and>
     component_from_i32 (lr_component_type req) \<in> {Some Proxy, Some Client} \<and>
     known_credentials w (lr_uid req) (lr_pwd req)"

lemma login_accepted:
  assumes "login_acceptable su req w"
  obtains ip c where "su_remote_addr su = Some ip" and "c \<noteq> Controller"
    and "component_from_i32 (lr_component_type req) = Some c"
    and "answer d su (Login req) w =
      (Ok (Logged_In \<lparr>lresp_access_key = su_uuid su, lresp_message = ''Login successful''\<rparr>),
       w\<lparr>session_repo :=
           put_session (clock w) c (login_session (su_uuid su) ip c req) (session_repo w)\<rparr>)"
  using assms that
  by (auto simp: login_acceptable_def answer_def map_ok_run login_closed)

lemma login_refused:
  assumes "\<not> login_acceptable su req w"
  obtains r where "answer d su (Login req) w = (r, w)" and "\<And>x. r \<noteq> Ok x"
proof -
  have "snd (answer d su (Login req) w) = w \<and> (\<forall>x. fst (answer d su (Login req) w) \<noteq> Ok x)"
  proof (cases "component_from_i32 (lr_component_type req)")
    case None
    with assms show ?thesis
      by (auto simp: answer_def map_ok_run login_closed split: option.splits if_splits)
  next
    case (Some c)
    with assms show ?thesis
      by (cases c) (auto simp: login_acceptable_def answer_def map_ok_run login_closed
          split: option.splits if_splits)
  qed
  then show thesis by (intro that [of "fst (answer d su (Login req) w)"]) (auto simp: prod_eq_iff)
qed

lemma login_ok_iff: "(\<exists>x. fst (answer d su (Login req) w) = Ok x) \<longleftrightarrow> login_acceptable su req w"
proof (cases "login_acceptable su req w")
  case True
  then show ?thesis by (rule login_accepted [of su req w d]) (use True in simp)
next
  case False
  then show ?thesis by (rule login_refused [of su req w d]) (use False in auto)
qed

text \<open>
  C9. A login is accepted exactly when the peer address is known, the user id is not empty, the
  component is a proxy or a client, and the member list holds that user id with that password.  It
  then adds one session under the fresh key and changes nothing else that is stored; a login that is
  not accepted changes nothing at all.  An empty password is not rejected as such.
\<close>

theorem login_exact:
  "case answer d su (Login req) w of
     (Ok x, w') \<Rightarrow>
       login_acceptable su req w \<and>
       x = Logged_In \<lparr>lresp_access_key = su_uuid su, lresp_message = ''Login successful''\<rparr> \<and>
       (\<exists>ip c. su_remote_addr su = Some ip \<and> component_from_i32 (lr_component_type req) = Some c \<and>
          live_session w' = (live_session w)(su_uuid su \<mapsto> login_session (su_uuid su) ip c req)) \<and>
       route_repo w' = route_repo w \<and> member_repo w' = member_repo w
   | (_, w') \<Rightarrow> \<not> login_acceptable su req w \<and> w' = w"
proof (cases "login_acceptable su req w")
  case True
  then obtain ip c where "su_remote_addr su = Some ip"
    and "component_from_i32 (lr_component_type req) = Some c"
    and "answer d su (Login req) w =
      (Ok (Logged_In \<lparr>lresp_access_key = su_uuid su, lresp_message = ''Login successful''\<rparr>),
       w\<lparr>session_repo :=
           put_session (clock w) c (login_session (su_uuid su) ip c req) (session_repo w)\<rparr>)"
    by (rule login_accepted) blast
  with True show ?thesis by (simp add: live_session_def fun_eq_iff)
next
  case False
  then obtain r where "answer d su (Login req) w = (r, w)" "\<And>x. r \<noteq> Ok x"
    by (rule login_refused [of su req w d]) blast
  with False show ?thesis by (simp split: outcome.splits)
qed

lemma map_of_rev_last:
  "map_of (rev (map (\<lambda>m. (f m, m)) ms)) u = Some m \<longleftrightarrow>
     (\<exists>as bs. ms = as @ m # bs \<and> f m = u \<and> u \<notin> f ` set bs)"
proof (induction ms)
  case Nil
  then show ?case by simp
next
  case (Cons a ms)
  show ?case
  proof (cases "map_of (rev (map (\<lambda>m. (f m, m)) ms)) u")
    case None
    then have no: "u \<notin> f ` set ms"
      by (force simp: map_of_eq_None_iff)
    have "(\<exists>as bs. a # ms = as @ m # bs \<and> f m = u \<and> u \<notin> f ` set bs) \<longleftrightarrow> a = m \<and> f m = u"
      using no by (auto simp: Cons_eq_append_conv)
    then show ?thesis using None by (auto simp: map_of_append map_add_def)
  next
    case (Some m')
    then have "u \<in> f ` set ms" by (force dest!: map_of_SomeD)
    then have "(\<exists>as bs. a # ms = as @ m # bs \<and> f m = u \<and> u \<notin> f ` set bs) \<longleftrightarrow>
        (\<exists>as bs. ms = as @ m # bs \<and> f m = u \<and> u \<notin> f ` set bs)"
      by (auto simp: Cons_eq_append_conv)
    with Some Cons.IH show ?thesis by (simp add: map_of_append map_add_def)
  qed
qed

text \<open>
  C10. The member file decides who can log in, for the whole life of the controller: after any run
  from a start-up that read the file, a well-formed login succeeds iff the last record of that
  user id in the file has that password.
\<close>

theorem member_file_decides_login:
  assumes "seeded env csv w0" and "env_var env ''MEMBERS_CSV_FILE'' = Some path"
    and "read_file env path = Some contents" and "members_of_records (csv contents) = Some ms"
    and "run d w0 es w" and "su_remote_addr su = Some ip" and "lr_uid req \<noteq> []"
    and "component_from_i32 (lr_component_type req) \<in> {Some Proxy, Some Client}"
  shows "(\<exists>x. fst (answer d su (Login req) w) = Ok x) \<longleftrightarrow>
    (\<exists>as m bs. ms = as @ m # bs \<and> mb_uid m = lr_uid req \<and> mb_pwd m = lr_pwd req \<and>
       lr_uid req \<notin> mb_uid ` set bs)"
proof -
  have w0: "w0 = new_world\<lparr>member_repo := map_of (rev (map (\<lambda>m. (mb_uid m, m)) ms))\<rparr>"
    using assms(1-4) by (elim seededE) simp
  with run_members [OF assms(5)] new_world_inv
  have members: "member_repo w = map_of (rev (map (\<lambda>m. (mb_uid m, m)) ms))" by simp
  have "(\<exists>x. fst (answer d su (Login req) w) = Ok x) \<longleftrightarrow> login_acceptable su req w"
    by (rule login_ok_iff)
  also have "\<dots> \<longleftrightarrow> (\<exists>m. member_repo w (lr_uid req) = Some m \<and> mb_pwd m = lr_pwd req)"
    using assms(6-8) by (simp add: login_acceptable_def known_credentials_def)
  finally show ?thesis
    unfolding members map_of_rev_last by (metis (no_types, lifting))
qed

text \<open>
  C11. The life of a session: once a login is accepted, its key is answered PONG from the address
  that logged in and rejected from any other address; a logout with the key is accepted, leaves
  the other sessions in place, and afterwards the key is rejected.
\<close>

theorem session_lifecycle:
  assumes "answer d su (Login req) w = (Ok x, w1)" and "su_remote_addr su1 = Some ip1"
  shows "fst (answer d su1 (Ping (su_uuid su)) w1) =
      (if su_remote_addr su = Some ip1
       then Ok (Pong \<lparr>presp_status = ''PONG'', presp_timestamp = su_now_micros su1\<rparr>)
       else Err (mk_status Unauthenticated ''Invalid connection''))
    \<and> (\<exists>w2. answer d su2 (Logout (su_uuid su)) w1 = (Ok Logged_Out, w2)
         \<and> live_session w2 = (live_session w)(su_uuid su := None)
         \<and> answer d su1 (Ping (su_uuid su)) w2 =
             (Err (mk_status Unauthenticated ''Invalid access key''), w2))"
proof -
  have ok: "login_acceptable su req w"
    using assms(1) login_ok_iff [of d su req w] by simp
  obtain ip c where ip: "su_remote_addr su = Some ip" and w1: "w1 = w\<lparr>session_repo :=
      put_session (clock w) c (login_session (su_uuid su) ip c req) (session_repo w)\<rparr>"
    by (rule login_accepted [OF ok, of d]) (use assms(1) in simp)
  then have live: "live_session w1 = (live_session w)(su_uuid su \<mapsto> login_session (su_uuid su) ip c req)"
    by (simp add: live_session_def fun_eq_iff)
  let ?w2 = "w1\<lparr>session_repo := inmem_remove_session (su_uuid su) (session_repo w1)\<rparr>"
  have live2: "live_session ?w2 = (live_session w)(su_uuid su := None)"
    using live by (simp add: live_session_def fun_eq_iff)
  have "answer d su2 (Logout (su_uuid su)) w1 = (Ok Logged_Out, ?w2)"
    by (simp add: answer_def map_ok_run logout_closed live)
  moreover have "answer d su1 (Ping (su_uuid su)) ?w2 =
      (Err (mk_status Unauthenticated ''Invalid access key''), ?w2)"
    by (simp add: answer_def map_ok_run ping_closed assms(2) live2)
  moreover have "fst (answer d su1 (Ping (su_uuid su)) w1) =
      (if su_remote_addr su = Some ip1
       then Ok (Pong \<lparr>presp_status = ''PONG'', presp_timestamp = su_now_micros su1\<rparr>)
       else Err (mk_status Unauthenticated ''Invalid connection''))"
    by (simp add: answer_def map_ok_run ping_closed assms(2) live ip)
  ultimately show ?thesis using live2 by blast
qed

subsection \<open>Hops and redemptions\<close>

text \<open>
  C5. What a redemption is worth: for a known session and an open conversation it succeeds iff the
  nonce is stored.  It then consumes the nonce; if the nonce marks an end route the reply names the
  sender of the conversation and the conversation is closed, otherwise the reply is empty and the
  conversation stays as it is.  Sessions and other routes are kept.
\<close>

theorem redeem_exact:
  assumes "world_ok w" and "live_session w k = Some s" and "stored_conversation w c = Some x"
  shows "case (stored_route w c n, answer d su (Redeem k c n) w) of
      (None, (a, w')) \<Rightarrow>
        a = Err (mk_status Internal ''Failed to redeem route'') \<and>
        stored_conversation w' = stored_conversation w \<and> stored_route w' = stored_route w
    | (Some r, (a, w')) \<Rightarrow>
        a = Ok (Redeemed (if rt_end_route r then Some (conv_from x) else None)) \<and>
        live_session w' = live_session w \<and>
        stored_conversation w' =
          (if rt_end_route r then (stored_conversation w)(c := None) else stored_conversation w) \<and>
        (\<forall>e m. stored_route w' e m = (if m = n then None else stored_route w e m))"
proof (cases "stored_route w c n")
  case None
  obtain w' where "route_redeem (inmemory_session_repository (su_porder su))
        (new_route_manager inmemory_route_repository (su_pick su)) k c n w =
      (Err (mk_status Internal ''Failed to redeem route''), w')"
    and "mem_services.same w w'"
    by (rule mem_services.redeem_unknown_run [OF assms None])
  with None show ?thesis
    by (simp add: answer_def map_ok_run mem_services.same_def)
next
  case (Some r)
  obtain w' where "route_redeem (inmemory_session_repository (su_porder su))
        (new_route_manager inmemory_route_repository (su_pick su)) k c n w =
      (Ok (if rt_end_route r then Some (conv_from x) else None), w')"
    and "live_session w' = live_session w"
    and "stored_conversation w' =
      (if rt_end_route r then (stored_conversation w)(c := None) else stored_conversation w)"
    and "\<And>e. stored_route w' e n = None" and "\<And>e m. m \<noteq> n \<Longrightarrow> stored_route w' e m = stored_route w e m"
    by (rule mem_services.redeem_run [OF assms Some]) blast
  with Some show ?thesis by (simp add: answer_def map_ok_run)
qed

text \<open>A nonce that is not stored stays so until it is drawn.\<close>

lemma effect_no_route:
  assumes "effect d U w w'" and "n \<notin> U" and "rt_routes (route_repo w) n = None"
  shows "rt_routes (route_repo w') n = None"
  using assms by (cases rule: effect.cases) (auto simp: map_filter_vals_None split: if_splits)

lemma effects_no_route:
  "effects d U w w' \<Longrightarrow> n \<notin> U \<Longrightarrow> rt_routes (route_repo w) n = None \<Longrightarrow>
   rt_routes (route_repo w') n = None"
  by (induction rule: rtranclp_induct) (auto intro: effect_no_route)

lemma run_no_route:
  assumes "run d w es w'" and "controller_inv d w" and "n \<notin> \<Union> (drawn ` set es)"
    and "rt_routes (route_repo w) n = None"
  shows "rt_routes (route_repo w') n = None"
  using assms
proof (induction rule: run.induct)
  case (run_cons w e v es w')
  have "controller_inv d v" by (rule step_inv) fact+
  moreover have "rt_routes (route_repo v) n = None"
    by (rule effects_no_route [OF step_effects [OF run_cons.hyps(1)]])
       (use run_cons.prems in \<open>simp_all add: controller_inv_def\<close>)
  ultimately show ?case using run_cons by simp
qed simp

text \<open>
  C1. A nonce is worth one redemption: after a successful redemption in a reachable state, and
  whatever requests, sweeps and time follow (the nonce is not drawn again as a fresh UUID), no
  session can redeem it, in any conversation.  The requests are served one after the other.
\<close>

theorem nonce_single_use:
  assumes "reachable d w" and "answer d su (Redeem k c n) w = (Ok a, w1)"
    and "run d w1 es w2" and "n \<notin> \<Union> (drawn ` set es)" and "fair su w"
  shows "fst (answer d su' (Redeem k' c' n) w2) \<noteq> Ok b"
proof -
  have inv: "controller_inv d w" by (rule reachable_inv) fact
  have "step d w (Request su (Redeem k c n)) w1" by (rule step.request) fact+
  then have "controller_inv d w1" using inv by (rule step_inv)
  moreover have "rt_routes (route_repo w1) n = None"
    using assms(2) by (auto simp: answer_def map_ok_run redeem_closed split: option.splits)
  ultimately have "rt_routes (route_repo w2) n = None"
    using run_no_route assms(3,4) by blast
  then show ?thesis
    by (auto simp: answer_def map_ok_run redeem_closed stored_route_def split: option.splits)
qed

text \<open>
  C32. A nonce is not bound to its conversation: an end route issued in one conversation can be
  redeemed in another open one.  The reply names the sender of that other conversation, which is
  closed, while the conversation the route was issued in stays open and its end route is spent.
\<close>

theorem nonce_redeemable_elsewhere:
  assumes "live_session w k = Some s" and "c1 \<noteq> c2"
    and "stored_conversation w c1 = Some x1" and "stored_conversation w c2 = Some x2"
    and "r \<in> set (conv_routes x1)" and "rt_end_route r"
    and "stored_route w c1 (rt_nonce r) = Some r"
  shows "\<exists>w'. answer d su (Redeem k c2 (rt_nonce r)) w = (Ok (Redeemed (Some (conv_from x2))), w')
    \<and> stored_conversation w' c2 = None \<and> stored_conversation w' c1 = Some x1
    \<and> fst (answer d su (Redeem k c1 (rt_nonce r)) w') =
        Err (mk_status Internal ''Failed to redeem route'')"
proof -
  let ?n = "rt_nonce r"
  let ?w = "(touch k w)\<lparr>route_repo := redeemed c2 ?n True (route_repo w)\<rparr>"
  have "stored_route w c2 ?n = Some r" using assms(7) by (simp add: stored_route_def)
  then have "answer d su (Redeem k c2 ?n) w = (Ok (Redeemed (Some (conv_from x2))), ?w)"
    using assms by (simp add: answer_def map_ok_run redeem_closed)
  moreover have "stored_conversation ?w c2 = None" "stored_conversation ?w c1 = Some x1"
    "stored_route ?w c1 ?n = None"
    using assms(2,3) by (simp_all add: stored_conversation_def stored_route_def)
  moreover have "live_session ?w k = Some s"
    using assms(1) by simp
  ultimately show ?thesis
    by (simp add: answer_def map_ok_run redeem_closed)
qed

text \<open>
  C6. The hops of a conversation, requests being served one after the other: in every reachable state each stored conversation uses the random
  strategy, and of the routes issued for it exactly the fourth is an end route.
\<close>

theorem fourth_hop_is_the_end:
  assumes "reachable d w" and "stored_conversation w c = Some x" and "i < length (conv_routes x)"
  shows "(rt_end_route (conv_routes x ! i) \<longleftrightarrow> i = 3) \<and> conv_routing_id x = 1"
  using reachable_inv [OF assms(1)] assms(2,3) by (simp add: controller_inv_def hops_ok_def)

text \<open>
  Who a reply can name: in every reachable state, each session and the sender of each stored
  conversation belong to a user of the member list, or to the controller itself.
\<close>

theorem senders_are_members:
  assumes "reachable d w"
  shows "(\<forall>k s. live_session w k = Some s \<longrightarrow>
            ss_access_key s = k \<and> known_uid d w (ss_uid s))
    \<and> (\<forall>c x. stored_conversation w c = Some x \<longrightarrow>
            conv_id x = c \<and> known_uid d w (conv_from x))"
proof -
  have "controller_inv d w" by (rule reachable_inv) fact
  then show ?thesis
    by (auto simp: controller_inv_def users_known_def route_wf_def session_wf_def
        sessions_keyed_def live_session_def stored_conversation_def)
qed

lemma issue_fresh:
  assumes "rt_routes (route_repo w) uuid = None" and "stored_conversation w c = Some x"
  obtains w' where "issue uuid c e s w = (Ok (hop_response uuid e s), w')"
    and "stored_conversation w' = (stored_conversation w)(c \<mapsto> push_route (hop_route uuid e s) x)"
    and "stored_route w' = (\<lambda>a. (stored_route w a)(uuid \<mapsto> hop_route uuid e s))"
    and "session_repo w' = session_repo w"
  using assms that
  by (auto simp: issue_def set_route_fst set_route_conversations stored_conversation_def
      stored_route_def fun_eq_iff)

lemma stored_proxies_run:
  assumes "session_wf st" and "enumerates order (st_proxies st)" and "inmem_get_proxies order k st = Some ps"
    and "picks pick"
  obtains p u j e where "random_next_route pick ps w = (Ok (Some p) :: (session_info option, status) outcome, w)"
    and "st_proxies st u = Some j" and "j \<noteq> k" and "st_sessions st j = Some e" and "p = ew_value e"
proof -
  have ps: "ps = proxy_sessions order k st" "ps \<noteq> []"
    using assms(3) by (auto simp: inmem_get_proxies_def Let_def split: if_splits)
  obtain i where i: "random_next_route pick ps w = (Ok (Some (ps ! i)) :: (session_info option, status) outcome, w)"
    "i < length ps"
    by (rule random_next_route_Some [OF assms(4) ps(2)])
  then have "ps ! i \<in> set (proxy_sessions order k st)" using ps(1) by simp
  with i(1) that show thesis by (auto simp: proxy_sessions_set [OF assms(2)])
qed

text \<open>What one call of \<open>next_hop\<close> does, over the world it is called in.\<close>

definition hop_target :: "string \<Rightarrow> conversation \<Rightarrow> world \<Rightarrow> session_info \<Rightarrow> bool" where
  "hop_target k x w t \<longleftrightarrow>
     (if length (conv_routes x) = 3 then inmem_get_client (conv_to x) (session_repo w) = Some t
      else \<exists>u j. st_proxies (session_repo w) u = Some j \<and> j \<noteq> k \<and> live_session w j = Some t)"

lemma next_hop_none:
  assumes "enumerates (porder (st_proxies (session_repo v))) (st_proxies (session_repo v))"
    and "conv_routing_id x = 1" and "\<nexists>t. hop_target k x v t"
  obtains m where "next_hop porder pick uuid k c x v = (Err (mk_status NotFound m), v)"
proof (cases "length (conv_routes x) = 3")
  case True
  with assms(3) have "inmem_get_client (conv_to x) (session_repo v) = None"
    by (simp add: hop_target_def)
  with True assms(2) that show thesis by (simp add: next_hop_def)
next
  case False
  have "set (proxy_sessions (porder (st_proxies (session_repo v))) k (session_repo v)) = {}"
    using assms(3) False unfolding proxy_sessions_set [OF assms(1)]
    by (fastforce simp: hop_target_def live_session_def)
  then have "proxy_sessions (porder (st_proxies (session_repo v))) k (session_repo v) = []" by simp
  with False assms(2) that show thesis by (simp add: next_hop_def inmem_get_proxies_def)
qed

lemma next_hop_some:
  assumes "session_wf (session_repo v)" and "rt_routes (route_repo v) uuid = None" and "picks pick"
    and "enumerates (porder (st_proxies (session_repo v))) (st_proxies (session_repo v))"
    and "stored_conversation v c = Some x" and "conv_routing_id x = 1" and "hop_target k x v t0"
  obtains t where "hop_target k x v t"
    and "next_hop porder pick uuid k c x v = issue uuid c (length (conv_routes x) = 3) t v"
proof (cases "length (conv_routes x) = 3")
  case True
  with assms(6,7) that show thesis by (simp add: next_hop_def hop_target_def)
next
  case False
  let ?ps = "proxy_sessions (porder (st_proxies (session_repo v))) k (session_repo v)"
  have "t0 \<in> set ?ps"
    using False assms(7) unfolding proxy_sessions_set [OF assms(4)]
    by (fastforce simp: hop_target_def live_session_def)
  then have "?ps \<noteq> []" by auto
  then have ps: "inmem_get_proxies (porder (st_proxies (session_repo v))) k (session_repo v) = Some ?ps"
    by (simp add: inmem_get_proxies_def)
  obtain t u j e where
    t: "random_next_route pick ?ps v = (Ok (Some t) :: (session_info option, status) outcome, v)"
    and e: "st_proxies (session_repo v) u = Some j" "j \<noteq> k" "st_sessions (session_repo v) j = Some e"
      "t = ew_value e"
    by (rule stored_proxies_run [OF assms(1,4) ps assms(3), of v]) blast
  have "hop_target k x v t" using False e by (auto simp: hop_target_def live_session_def)
  with False assms(6) ps t that show thesis by (simp add: next_hop_def)
qed

lemma client_after_look_up [simp]:
  "inmem_get_client u (snd (inmem_get_session now k st)) = inmem_get_client u st"
  by (simp add: inmem_get_client_def get_session_sessions option.map_comp comp_def
      split: option.splits)

lemma hop_target_touch [simp]: "hop_target k x (touch j w) t = hop_target k x w t"
  by (simp add: hop_target_def)

lemma next_route_run:
  assumes "controller_inv d w" and "fair su w" and "live_session w k = Some s"
    and "stored_conversation w c = Some x" and "hop_target k x w t0"
  obtains t w' where "hop_target k x w t"
    and "answer d su (Next_Route k c) w =
      (Ok (Hop (hop_response (su_uuid su) (length (conv_routes x) = 3) t)), w')"
    and "stored_conversation w' = (stored_conversation w)
      (c \<mapsto> push_route (hop_route (su_uuid su) (length (conv_routes x) = 3) t) x)"
    and "stored_route w' = (\<lambda>a. (stored_route w a)
      (su_uuid su \<mapsto> hop_route (su_uuid su) (length (conv_routes x) = 3) t))"
    and "session_repo w' = session_repo (touch k w)"
proof -
  let ?v = "touch k w" and ?last = "length (conv_routes x) = 3"
  have wf: "session_wf (session_repo ?v)" and strat: "conv_routing_id x = 1"
    using assms(1,4) by (simp_all add: controller_inv_def get_session_wf hops_ok_def)
  have fresh: "rt_routes (route_repo ?v) (su_uuid su) = None" and picks: "picks (su_pick su)"
    and order: "enumerates (su_porder su (st_proxies (session_repo ?v))) (st_proxies (session_repo ?v))"
    using assms(2) by (simp_all add: fair_def fresh_uuid_def)
  have x: "stored_conversation ?v c = Some x" and t0: "hop_target k x ?v t0"
    using assms(4,5) by simp_all
  obtain t where t: "hop_target k x ?v t"
    "next_hop (su_porder su) (su_pick su) (su_uuid su) k c x ?v = issue (su_uuid su) c ?last t ?v"
    by (rule next_hop_some [where porder = "su_porder su" and v = ?v,
          OF wf fresh picks order x strat t0])
  obtain w' where w': "issue (su_uuid su) c ?last t ?v = (Ok (hop_response (su_uuid su) ?last t), w')"
    "stored_conversation w' = (stored_conversation ?v)(c \<mapsto> push_route (hop_route (su_uuid su) ?last t) x)"
    "stored_route w' = (\<lambda>a. (stored_route ?v a)(su_uuid su \<mapsto> hop_route (su_uuid su) ?last t))"
    "session_repo w' = session_repo ?v"
    by (rule issue_fresh [OF fresh x])
  show thesis
    by (rule that [of t w']) (use t w' assms(3,4) in \<open>simp_all add: answer_def map_ok_run route_closed\<close>)
qed

lemma next_route_refused:
  assumes "controller_inv d w" and "fair su w" and "live_session w k = Some s"
    and "stored_conversation w c = Some x" and "\<nexists>t. hop_target k x w t"
  obtains m where "answer d su (Next_Route k c) w = (Err (mk_status NotFound m), touch k w)"
proof -
  let ?v = "touch k w"
  have strat: "conv_routing_id x = 1"
    using assms(1,4) by (simp add: controller_inv_def hops_ok_def)
  have order: "enumerates (su_porder su (st_proxies (session_repo ?v))) (st_proxies (session_repo ?v))"
    using assms(2) by (simp add: fair_def)
  have no: "\<nexists>t. hop_target k x ?v t" using assms(5) by simp
  obtain m where "next_hop (su_porder su) (su_pick su) (su_uuid su) k c x ?v =
      (Err (mk_status NotFound m), ?v)"
    by (rule next_hop_none [where porder = "su_porder su" and v = ?v, OF order strat no])
  then show thesis
    by (intro that [of m]) (simp add: answer_def map_ok_run route_closed assms(3,4))
qed

text \<open>
  C2. The answer to a route request, for a live session and a stored conversation in a reachable
  state.  A hop is offered iff there is a target for it: before the fourth hop, and again after
  it, the session of some proxy other than the requester; at the fourth hop the session of the client
  the conversation is for.  Exactly the fourth is marked as the end route.  The hop is recorded as
  the next route of the conversation under the fresh nonce; without a target the answer is NotFound
  and nothing is recorded.
\<close>

theorem next_route_exact:
  assumes "reachable d w" and "fair su w" and "live_session w k = Some s"
    and "stored_conversation w c = Some x"
  shows "case answer d su (Next_Route k c) w of
      (Ok (Hop h), w') \<Rightarrow>
        let last = (length (conv_routes x) = 3)
        in \<exists>t. hop_target k x w t \<and> h = hop_response (su_uuid su) last t \<and>
             stored_conversation w' = (stored_conversation w)
               (c \<mapsto> push_route (hop_route (su_uuid su) last t) x) \<and>
             stored_route w' c (su_uuid su) = Some (hop_route (su_uuid su) last t)
    | (Err e, w') \<Rightarrow>
        st_code e = NotFound \<and> stored_conversation w' = stored_conversation w \<and>
        stored_route w' = stored_route w \<and> (\<nexists>t. hop_target k x w t)
    | _ \<Rightarrow> False"
proof (cases "\<exists>t. hop_target k x w t")
  case False
  show ?thesis
    by (rule next_route_refused [OF reachable_inv [OF assms(1)] assms(2-4) False])
       (use False in simp)
next
  case True
  then obtain t0 where t0: "hop_target k x w t0" ..
  show ?thesis
    by (rule next_route_run [OF reachable_inv [OF assms(1)] assms(2-4) t0])
       (auto simp: Let_def)
qed

lemma hop_target_typed:
  assumes "session_wf (session_repo w)" and "hop_target k x w t"
  shows "live_session w (ss_access_key t) = Some t"
    and "length (conv_routes x) = 3 \<Longrightarrow>
      ss_uid t = conv_to x \<and> ss_component_type t = u8_from_component Client"
    and "length (conv_routes x) \<noteq> 3 \<Longrightarrow>
      ss_component_type t = u8_from_component Proxy \<and> ss_access_key t \<noteq> k"
proof -
  have keyed: "ss_access_key t = j" if "live_session w j = Some t" for j
    using assms(1) that by (auto simp: live_session_def session_wf_def sessions_keyed_def)
  consider (client) j e where "length (conv_routes x) = 3" "st_clients (session_repo w) (conv_to x) = Some j"
      "st_sessions (session_repo w) j = Some e" "t = ew_value e"
    | (proxy) u j e where "length (conv_routes x) \<noteq> 3" "st_proxies (session_repo w) u = Some j" "j \<noteq> k"
      "st_sessions (session_repo w) j = Some e" "t = ew_value e"
    using assms(2)
    by (auto simp: hop_target_def inmem_get_client_def live_session_def split: if_splits option.splits)
  then have "live_session w (ss_access_key t) = Some t \<and>
    (if length (conv_routes x) = 3
     then ss_uid t = conv_to x \<and> ss_component_type t = u8_from_component Client
     else ss_component_type t = u8_from_component Proxy \<and> ss_access_key t \<noteq> k)"
  proof cases
    case client
    then have live: "live_session w j = Some t" by (simp add: live_session_def)
    moreover have "ss_uid t = conv_to x \<and> ss_component_type t = u8_from_component Client"
      using assms(1) client unfolding session_wf_def index_ok_def by blast
    ultimately show ?thesis using client(1) keyed [OF live] by simp
  next
    case proxy
    then have live: "live_session w j = Some t" by (simp add: live_session_def)
    moreover have "ss_component_type t = u8_from_component Proxy"
      using assms(1) proxy unfolding session_wf_def index_ok_def by blast
    ultimately show ?thesis using proxy(1,3) keyed [OF live] by simp
  qed
  then show "live_session w (ss_access_key t) = Some t"
    and "length (conv_routes x) = 3 \<Longrightarrow>
      ss_uid t = conv_to x \<and> ss_component_type t = u8_from_component Client"
    and "length (conv_routes x) \<noteq> 3 \<Longrightarrow>
      ss_component_type t = u8_from_component Proxy \<and> ss_access_key t \<noteq> k"
    by simp_all
qed

text \<open>
  C7. Hops lead to the right kind of process: in a reachable state the address, port and key of an
  accepted route request are those of a live session of a known user; the end route leads to a
  client, and to the one the conversation is for; every other hop leads to a proxy, and never to
  the requester's own session.
\<close>

theorem hops_are_typed:
  assumes "reachable d w" and "fair su w"
    and "answer d su (Next_Route k c) w = (Ok (Hop h), w')"
  shows "\<exists>x t. stored_conversation w c = Some x \<and> live_session w (ss_access_key t) = Some t
    \<and> known_uid d w (ss_uid t) \<and> rr_ip_address h = ss_on_ip_address t
    \<and> rr_port_number h = ucast (ss_on_port_number t) \<and> rr_public_key h = ss_public_key t
    \<and> ss_component_type t = u8_from_component (if rr_end_route h then Client else Proxy)
    \<and> (if rr_end_route h then ss_uid t = conv_to x else ss_access_key t \<noteq> k)"
proof -
  have inv: "controller_inv d w" by (rule reachable_inv) fact
  then have wf: "session_wf (session_repo w)" by (simp add: controller_inv_def)
  obtain s x where live: "live_session w k = Some s" "stored_conversation w c = Some x"
    using assms(3) by (auto simp: answer_def map_ok_run route_closed split: option.splits)
  obtain t0 where t0: "hop_target k x w t0"
    using next_route_refused [OF inv assms(2) live] assms(3) by fastforce
  obtain t v where "hop_target k x w t" "answer d su (Next_Route k c) w =
      (Ok (Hop (hop_response (su_uuid su) (length (conv_routes x) = 3) t)), v)"
    by (rule next_route_run [OF inv assms(2) live t0])
  with assms(3) have t: "hop_target k x w t" "h = hop_response (su_uuid su) (length (conv_routes x) = 3) t"
    by simp_all
  note typed = hop_target_typed [OF wf t(1)]
  have "known_uid d w (ss_uid t)"
    using inv typed(1) unfolding controller_inv_def users_known_def by blast
  with live(2) typed show ?thesis
    by (intro exI [of _ x] exI [of _ t] conjI) (simp_all add: t(2) hop_response_def split: if_split)
qed

subsection \<open>Panics\<close>

lemma route_no_panic:
  assumes "controller_inv d w" and "fair su w"
  shows "fst (answer d su (Next_Route k c) w) \<noteq> Panic"
proof (cases "\<exists>s x. live_session w k = Some s \<and> stored_conversation w c = Some x")
  case False
  then show ?thesis
    by (auto simp: answer_def map_ok_run route_closed split: option.splits)
next
  case True
  then obtain s x where s: "live_session w k = Some s" and x: "stored_conversation w c = Some x"
    by blast
  show ?thesis
  proof (cases "\<exists>t. hop_target k x w t")
    case False
    show ?thesis by (rule next_route_refused [OF assms s x False]) simp
  next
    case True
    then obtain t0 where t0: "hop_target k x w t0" ..
    show ?thesis by (rule next_route_run [OF assms s x t0]) simp
  qed
qed

text \<open>
  C25. No request, served without interruption, makes a handler panic in a reachable state, with one
  exception: a login whose
  component type is not one of the three codes, from a known address and with a user id, panics in
  the conversion of the code.
\<close>

theorem only_bad_component_panics:
  assumes "reachable d w" and "fair su w"
  shows "fst (answer d su rq w) = Panic \<longleftrightarrow>
    (\<exists>req. rq = Login req \<and> su_remote_addr su \<noteq> None \<and> lr_uid req \<noteq> [] \<and>
       component_from_i32 (lr_component_type req) = None)"
proof (cases rq)
  case (Login req)
  then show ?thesis
    by (auto simp: answer_def map_ok_run login_closed split: option.splits)
next
  case (Next_Route k c)
  then show ?thesis
    using route_no_panic [OF reachable_inv [OF assms(1)] assms(2)] by simp
next
  case (Initialize k to)
  then show ?thesis
    by (auto simp: answer_def map_ok_run initialize_closed Let_def split: option.splits)
next
  case (Redeem k c n)
  then show ?thesis
    by (auto simp: answer_def map_ok_run redeem_closed split: option.splits)
qed (auto simp: answer_def map_ok_run logout_closed ping_closed status_closed split: option.splits)

subsection \<open>Retention\<close>

definition gone_by :: "instant \<Rightarrow> string \<Rightarrow> string \<Rightarrow> world \<Rightarrow> bool" where
  "gone_by t n c w \<longleftrightarrow>
     (\<forall>e. rt_routes (route_repo w) n = Some e \<longrightarrow> ew_expires_at e \<le> t) \<and>
     (\<forall>e. rt_conversations (route_repo w) c = Some e \<longrightarrow> ew_expires_at e \<le> t)"

lemma effect_gone_by:
  assumes "effect d U w w'" and "n \<notin> U" and "c \<notin> create_conversation_id ` U"
    and "gone_by t n c w"
  shows "gone_by t n c w'"
  using assms
proof (cases rule: effect.cases)
  case (issue_route r c' x)
  with assms show ?thesis
    by (auto simp: gone_by_def set_route_conversations split: if_splits)
qed (auto simp: gone_by_def split: if_splits)

lemma effects_gone_by:
  "effects d U w w' \<Longrightarrow> n \<notin> U \<Longrightarrow> c \<notin> create_conversation_id ` U \<Longrightarrow> gone_by t n c w \<Longrightarrow>
   gone_by t n c w'"
  by (induction rule: rtranclp_induct) (auto intro: effect_gone_by)

lemma run_gone_by:
  assumes "run d w es w'" and "controller_inv d w" and "n \<notin> \<Union> (drawn ` set es)"
    and "c \<notin> create_conversation_id ` \<Union> (drawn ` set es)" and "gone_by t n c w"
  shows "gone_by t n c w'"
  using assms
proof (induction rule: run.induct)
  case (run_cons w e v es w')
  have "controller_inv d v" by (rule step_inv) fact+
  moreover have "gone_by t n c v"
    by (rule effects_gone_by [OF step_effects [OF run_cons.hyps(1)]])
       (use run_cons.prems in \<open>auto simp: controller_inv_def\<close>)
  ultimately show ?case using run_cons by auto
qed simp

text \<open>
  C24. Routing data is short-lived, whatever the clients do: a nonce or a conversation that exists in
  some reachable state (or none does) is gone after a route sweep that runs more than a minute
  later, unless its identifier was drawn anew in between.  No request prolongs it.
\<close>

theorem routing_data_expires:
  assumes "reachable d w" and "run d w es v" and "clock w + 60000 < clock v"
    and "step d v Sweep_Routes v'"
    and "n \<notin> \<Union> (drawn ` set es)" and "c \<notin> create_conversation_id ` \<Union> (drawn ` set es)"
  shows "stored_route v' c' n = None \<and> stored_conversation v' c = None"
proof -
  have inv: "controller_inv d w" by (rule reachable_inv) fact
  then have "gone_by (clock w + 60000) n c w"
    by (simp add: controller_inv_def lifetimes_ok_def gone_by_def)
  then have "gone_by (clock w + 60000) n c v" by (rule run_gone_by [OF assms(2) inv assms(5,6)])
  moreover have "v' = v\<lparr>route_repo := kill_expired_routes (clock v) (route_repo v)\<rparr>"
    using assms(4) by (cases rule: step.cases) simp
  ultimately show ?thesis
    using assms(3) by (fastforce simp: gone_by_def stored_route_def stored_conversation_def
        map_filter_vals_None is_expired_def)
qed

end
