(* ===== verification/Gateway.thy ===== *)
theory Gateway
  imports Models
begin

section \<open>The gateway: clients of the services and the authentication loop\<close>

text \<open>
  \<^verbatim>\<open>gateway/src\<close>, the library that proxies and clients use to talk to the controller and to each
  other.  The generated stubs and the transport are not part of the source: they are the
  record \<open>transport\<close>, an argument of every definition that uses them.  \<open>'net\<close> is the state of the
  rest of the system that a remote call may change.

  The traits are records of operations.  An authenticator is one object shared by two tasks, so its
  methods are programs over a state that contains it; a router, proxy, informer or lander is
  created for one use, so its methods take the object and return it.
\<close>

definition lift_outcome :: "('a, 'e) outcome \<Rightarrow> ('w, 'a, 'e) prog" where
  "lift_outcome r w = (r, w)"

subsection \<open>The transport and the generated stubs\<close>

record ('uri, 'chan, 'net) transport =
  tp_uri_try_from :: "string \<rightharpoonup> 'uri"
  tp_tls_error :: "bytes \<Rightarrow> string \<Rightarrow> string option"
  tp_connect :: "'uri \<Rightarrow> bytes \<Rightarrow> string \<Rightarrow> ('net, 'chan, string) prog"
  tp_login :: "'chan \<Rightarrow> login_request \<Rightarrow> ('net, login_response, status) prog"
  tp_logout :: "'chan \<Rightarrow> string \<Rightarrow> ('net, unit, status) prog"
  tp_ping :: "'chan \<Rightarrow> string \<Rightarrow> ('net, ping_response, status) prog"
  tp_initialize :: "'chan \<Rightarrow> string \<Rightarrow> string \<Rightarrow> ('net, string, status) prog"
  tp_route :: "'chan \<Rightarrow> string \<Rightarrow> string \<Rightarrow> ('net, route_response, status) prog"
  tp_redeem :: "'chan \<Rightarrow> string \<Rightarrow> string \<Rightarrow> string \<Rightarrow> ('net, string option, status) prog"
  tp_status :: "'chan \<Rightarrow> string \<Rightarrow> ('net, status_response, status) prog"
  tp_execute_command :: "'chan \<Rightarrow> command_request \<Rightarrow> ('net, string option, status) prog"
  tp_receive :: "'chan \<Rightarrow> text_request \<Rightarrow> ('net, unit, status) prog"
  tp_show_status :: "status \<Rightarrow> string"

text \<open>
  \<^verbatim>\<open>Channel::builder(uri).tls_config(tls)?.connect()\<close>: the TLS configuration is checked before the
  connection is made.
\<close>

definition open_channel ::
  "('uri, 'chan, 'net) transport \<Rightarrow> (string \<Rightarrow> string) \<Rightarrow> 'uri \<Rightarrow> bytes \<Rightarrow> string \<Rightarrow>
     ('net, 'chan, string) prog" where
  "open_channel tp connect_err uri certificate domain_name =
     (case tp_tls_error tp certificate domain_name of
        Some e \<Rightarrow> throw e
      | None \<Rightarrow> map_err connect_err (tp_connect tp uri certificate domain_name))"

text \<open>The channel to the controller, whose settings every client loads again.\<close>

definition open_controller_channel ::
  "('uri, 'chan, 'net) transport \<Rightarrow> environment \<Rightarrow> (string \<Rightarrow> string) \<Rightarrow> ('net, 'chan, string) prog" where
  "open_controller_channel tp env connect_err =
     and_then (lift_outcome (component_connection_settings env Controller)) (\<lambda>cs.
     and_then (unwrap_or_panic (get_public_endpoint (tp_uri_try_from tp) cs)) (\<lambda>uri.
     open_channel tp connect_err uri (cs_certificate cs) (cs_domain_name cs)))"

subsection \<open>Client sessions\<close>

record client_session =
  cl_access_key :: "string option"
  cl_uid :: "string option"

definition default_client_session :: client_session where
  "default_client_session = \<lparr>cl_access_key = None, cl_uid = None\<rparr>"

definition client_set_session :: "string \<Rightarrow> string \<Rightarrow> client_session \<Rightarrow> client_session" where
  "client_set_session uid access_key s = s\<lparr>cl_uid := Some uid, cl_access_key := Some access_key\<rparr>"

definition client_is_authenticated :: "client_session \<Rightarrow> bool" where
  "client_is_authenticated s \<longleftrightarrow> cl_uid s \<noteq> None \<and> cl_access_key s \<noteq> None"

definition unwrap_or_empty :: "string option \<Rightarrow> string" where
  "unwrap_or_empty x = (case x of None \<Rightarrow> [] | Some s \<Rightarrow> s)"

subsection \<open>The authentication client\<close>

text \<open>
  The session is shared through \<^verbatim>\<open>Arc<RwLock<ClientSession>>\<close>: it is a cell of a store, and the client
  holds its address.  Logging out puts a new cell in place of the shared one.
\<close>

record 'chan auth_client =
  ac_session :: nat
  ac_client :: "'chan option"
  ac_credentials :: credentials
  ac_connection_settings :: connection_settings
  ac_component_type :: component

record ('chan, 'net) node =
  nd_auth :: "'chan auth_client"
  nd_cells :: "client_session list"
  nd_net :: 'net

definition on_net :: "('net, 'a, 'e) prog \<Rightarrow> (('chan, 'net) node, 'a, 'e) prog" where
  "on_net = zoom nd_net (\<lambda>n w. w\<lparr>nd_net := n\<rparr>)"

definition new_auth_client :: "nat \<Rightarrow> component_descriptor \<Rightarrow> 'chan auth_client" where
  "new_auth_client session descriptor =
     \<lparr>ac_session = session, ac_client = None,
      ac_credentials = descriptor_credentials descriptor,
      ac_connection_settings = descriptor_connection_settings descriptor,
      ac_component_type = component_of_descriptor descriptor\<rparr>"

definition node_session :: "('chan, 'net) node \<Rightarrow> client_session" where
  "node_session w = nd_cells w ! ac_session (nd_auth w)"

definition write_session :: "client_session \<Rightarrow> ('chan, 'net) node \<Rightarrow> ('chan, 'net) node" where
  "write_session s w = w\<lparr>nd_cells := (nd_cells w)[ac_session (nd_auth w) := s]\<rparr>"

definition auth_initialize ::
  "('uri, 'chan, 'net) transport \<Rightarrow> environment \<Rightarrow> (('chan, 'net) node, unit, string) prog" where
  "auth_initialize tp env =
     and_then (on_net (open_controller_channel tp env
       (\<lambda>e. ''Failed to connect to gRPC server: '' @ e))) (\<lambda>channel.
     total (\<lambda>w. ((), w\<lparr>nd_auth := (nd_auth w)\<lparr>ac_client := Some channel\<rparr>\<rparr>)))"

definition auth_login_request :: "'chan auth_client \<Rightarrow> login_request" where
  "auth_login_request ac =
     \<lparr>lr_component_type = i32_from_component (ac_component_type ac),
      lr_uid = cred_uid (ac_credentials ac), lr_pwd = cred_pwd (ac_credentials ac),
      lr_on_ip = cs_ip (ac_connection_settings ac),
      lr_on_port = ucast (cs_port (ac_connection_settings ac)),
      lr_public_key = cs_certificate (ac_connection_settings ac),
      lr_domain_name = cs_domain_name (ac_connection_settings ac)\<rparr>"

definition client_login ::
  "('uri, 'chan, 'net) transport \<Rightarrow> (('chan, 'net) node, unit, string) prog" where
  "client_login tp =
     and_then (reads nd_auth) (\<lambda>ac.
     and_then (unwrap_or_panic (ac_client ac)) (\<lambda>client.
     and_then (on_net (map_err (\<lambda>s. ''Login failed: '' @ tp_show_status tp s)
       (tp_login tp client (auth_login_request ac)))) (\<lambda>response.
     total (\<lambda>w. ((), write_session (client_set_session (cred_uid (ac_credentials ac))
       (lresp_access_key response) (node_session w)) w)))))"

definition client_logout ::
  "('uri, 'chan, 'net) transport \<Rightarrow> (('chan, 'net) node, unit, string) prog" where
  "client_logout tp =
     and_then (reads node_session) (\<lambda>session.
     and_then (reads nd_auth) (\<lambda>ac.
     and_then (unwrap_or_panic (ac_client ac)) (\<lambda>client.
     and_then (on_net (map_err (\<lambda>s. ''Logout failed: '' @ tp_show_status tp s)
       (tp_logout tp client (unwrap_or_empty (cl_access_key session))))) (\<lambda>_.
     total (\<lambda>w. ((), w\<lparr>nd_cells := nd_cells w @ [default_client_session],
                      nd_auth := (nd_auth w)\<lparr>ac_session := length (nd_cells w)\<rparr>\<rparr>))))))"

definition client_ping ::
  "('uri, 'chan, 'net) transport \<Rightarrow> (('chan, 'net) node, string \<times> i64, string) prog" where
  "client_ping tp =
     and_then (reads node_session) (\<lambda>session.
     and_then (reads nd_auth) (\<lambda>ac.
     and_then (unwrap_or_panic (ac_client ac)) (\<lambda>client.
     and_then (on_net (map_err (tp_show_status tp)
       (tp_ping tp client (unwrap_or_empty (cl_access_key session))))) (\<lambda>response.
     ret (presp_status response, presp_timestamp response)))))"

text \<open>The \<^verbatim>\<open>Authenticator\<close> trait, and the authentication client as one.\<close>

record 'w authenticator =
  au_initialize :: "('w, unit, string) prog"
  au_login :: "('w, unit, string) prog"
  au_logout :: "('w, unit, string) prog"
  au_ping :: "('w, string \<times> i64, string) prog"
  au_get_session :: "'w \<Rightarrow> client_session"
  au_is_authenticated :: "'w \<Rightarrow> bool"

definition auth_client_authenticator ::
  "('uri, 'chan, 'net) transport \<Rightarrow> environment \<Rightarrow> ('chan, 'net) node authenticator" where
  "auth_client_authenticator tp env =
     \<lparr>au_initialize = auth_initialize tp env, au_login = client_login tp,
      au_logout = client_logout tp, au_ping = client_ping tp, au_get_session = node_session,
      au_is_authenticated = (\<lambda>w. client_is_authenticated (node_session w))\<rparr>"

subsection \<open>The authentication loop\<close>

text \<open>What the loop uses of the runtime: cancellation, the clock, sleeping.\<close>

record 'w runtime =
  rn_cancelled :: "'w \<Rightarrow> bool"
  rn_now :: "'w \<Rightarrow> instant"
  rn_sleep :: "duration \<Rightarrow> 'w \<Rightarrow> 'w"

definition PING_INTERVAL :: duration where
  "PING_INTERVAL = 5000"

definition AUTH_DELAY :: duration where
  "AUTH_DELAY = 1000"

definition authenticate :: "'w authenticator \<Rightarrow> ('w, string, string) prog" where
  "authenticate au =
     and_then (map_err (\<lambda>_. ''Impossible to login'') (au_login au)) (\<lambda>_.
     and_then (reads (au_get_session au)) (\<lambda>session.
     and_then (reads (au_is_authenticated au)) (\<lambda>authenticated.
     if \<not> authenticated then throw ''Not authenticated''
     else unwrap_or_panic (cl_access_key session))))"

definition get_next_ping_duration :: "instant \<Rightarrow> instant \<Rightarrow> duration" where
  "get_next_ping_duration last_ping now =
     (let elapsed = now - last_ping
      in if elapsed \<ge> PING_INTERVAL then 0 else PING_INTERVAL - elapsed)"

text \<open>
  The loops may run for ever: \<open>None\<close> is a run that is not over after \<open>fuel\<close> rounds.
\<close>

fun keep_alive_loop ::
  "'w runtime \<Rightarrow> 'w authenticator \<Rightarrow> nat \<Rightarrow> instant \<Rightarrow> 'w \<Rightarrow> ((unit, string) outcome \<times> 'w) option" where
  "keep_alive_loop rn au 0 last_ping w = None"
| "keep_alive_loop rn au (Suc fuel) last_ping w =
     (if rn_cancelled rn w then Some (Ok (), w)
      else
        let w1 = rn_sleep rn (get_next_ping_duration last_ping (rn_now rn w)) w
        in case au_ping au w1 of
             (Ok _, w2) \<Rightarrow> keep_alive_loop rn au fuel (rn_now rn w2) w2
           | (Err e, w2) \<Rightarrow> Some (Err e, w2)
           | (Panic, w2) \<Rightarrow> Some (Panic, w2))"

definition keep_alive ::
  "'w runtime \<Rightarrow> 'w authenticator \<Rightarrow> nat \<Rightarrow> 'w \<Rightarrow> ((unit, string) outcome \<times> 'w) option" where
  "keep_alive rn au fuel w = keep_alive_loop rn au fuel (rn_now rn w) w"

definition auth_finish :: "'w authenticator \<Rightarrow> 'w \<Rightarrow> (unit, string) outcome \<times> 'w" where
  "auth_finish au w =
     (case au_logout au w of (Panic, w') \<Rightarrow> (Panic, w') | (_, w') \<Rightarrow> (Ok (), w'))"

fun auth_handler ::
  "'w runtime \<Rightarrow> 'w authenticator \<Rightarrow> nat \<Rightarrow> 'w \<Rightarrow> ((unit, string) outcome \<times> 'w) option" where
  "auth_handler rn au 0 w = None"
| "auth_handler rn au (Suc fuel) w =
     (if rn_cancelled rn w then Some (auth_finish au w)
      else
        case authenticate au w of
          (Panic, w1) \<Rightarrow> Some (Panic, w1)
        | (Err _, w1) \<Rightarrow> auth_handler rn au fuel (rn_sleep rn AUTH_DELAY w1)
        | (Ok _, w1) \<Rightarrow>
            (case keep_alive rn au fuel w1 of
               None \<Rightarrow> None
             | Some (Ok _, w2) \<Rightarrow> Some (auth_finish au w2)
             | Some (Err _, w2) \<Rightarrow> auth_handler rn au fuel w2
             | Some (Panic, w2) \<Rightarrow> Some (Panic, w2)))"

lemmas auth_client_defs =
  auth_initialize_def client_login_def client_logout_def client_ping_def on_net_def
  write_session_def node_session_def

subsection \<open>The route client\<close>

record 'chan route_client =
  rc_client :: "'chan option"

definition new_route_client :: "'chan route_client" where
  "new_route_client = \<lparr>rc_client = None\<rparr>"

definition route_client_initialize ::
  "('uri, 'chan, 'net) transport \<Rightarrow> environment \<Rightarrow> 'chan route_client \<Rightarrow>
     (('chan, 'net) node, 'chan route_client, string) prog" where
  "route_client_initialize tp env rc =
     and_then (on_net (open_controller_channel tp env (\<lambda>e. e))) (\<lambda>channel.
     ret (rc\<lparr>rc_client := Some channel\<rparr>))"

definition route_client_init_conversation ::
  "('uri, 'chan, 'net) transport \<Rightarrow> 'chan route_client \<Rightarrow> string \<Rightarrow> string \<Rightarrow>
     (('chan, 'net) node, string, string) prog" where
  "route_client_init_conversation tp rc access_key to =
     and_then (unwrap_or_panic (rc_client rc)) (\<lambda>client.
     on_net (map_err (\<lambda>s. ''Impossible to initialize the conversation: '' @ tp_show_status tp s)
       (tp_initialize tp client access_key to)))"

definition route_client_get_route ::
  "('uri, 'chan, 'net) transport \<Rightarrow> 'chan route_client \<Rightarrow> string \<Rightarrow> string \<Rightarrow>
     (('chan, 'net) node, route_response, string) prog" where
  "route_client_get_route tp rc conversation_id access_key =
     and_then (unwrap_or_panic (rc_client rc)) (\<lambda>client.
     on_net (map_err (\<lambda>s. ''Impossible to get a route: '' @ tp_show_status tp s)
       (tp_route tp client access_key conversation_id)))"

definition route_client_redeem ::
  "('uri, 'chan, 'net) transport \<Rightarrow> 'chan route_client \<Rightarrow> string \<Rightarrow> string \<Rightarrow> string \<Rightarrow>
     (('chan, 'net) node, string option, string) prog" where
  "route_client_redeem tp rc conversation_id access_key nonce =
     and_then (unwrap_or_panic (rc_client rc)) (\<lambda>client.
     on_net (map_err (\<lambda>_. ''Impossible to redeem a route'')
       (tp_redeem tp client access_key conversation_id nonce)))"

text \<open>The \<^verbatim>\<open>Router\<close> and \<^verbatim>\<open>RouterFactory\<close> traits: \<open>'r\<close> is the router object a factory makes.\<close>

record ('r, 'w) router_factory =
  rf_get_router :: 'r
  rf_initialize :: "'r \<Rightarrow> ('w, 'r, string) prog"
  rf_init_conversation :: "'r \<Rightarrow> string \<Rightarrow> string \<Rightarrow> ('w, string, string) prog"
  rf_get_route :: "'r \<Rightarrow> string \<Rightarrow> string \<Rightarrow> ('w, route_response, string) prog"
  rf_redeem :: "'r \<Rightarrow> string \<Rightarrow> string \<Rightarrow> string \<Rightarrow> ('w, string option, string) prog"

definition route_client_factory ::
  "('uri, 'chan, 'net) transport \<Rightarrow> environment \<Rightarrow>
     ('chan route_client, ('chan, 'net) node) router_factory" where
  "route_client_factory tp env =
     \<lparr>rf_get_router = new_route_client, rf_initialize = route_client_initialize tp env,
      rf_init_conversation = route_client_init_conversation tp,
      rf_get_route = route_client_get_route tp, rf_redeem = route_client_redeem tp\<rparr>"

subsection \<open>The proxy client\<close>

record ('uri, 'chan) proxy_client =
  pc_endpoint :: 'uri
  pc_public_key :: bytes
  pc_domain_name :: string
  pc_client :: "'chan option"

definition new_proxy_client :: "'uri \<Rightarrow> bytes \<Rightarrow> string \<Rightarrow> ('uri, 'chan) proxy_client" where
  "new_proxy_client endpoint public_key domain_name =
     \<lparr>pc_endpoint = endpoint, pc_public_key = public_key, pc_domain_name = domain_name,
      pc_client = None\<rparr>"

definition proxy_client_initialize ::
  "('uri, 'chan, 'net) transport \<Rightarrow> ('uri, 'chan) proxy_client \<Rightarrow>
     (('chan, 'net) node, ('uri, 'chan) proxy_client, string) prog" where
  "proxy_client_initialize tp pc =
     and_then (on_net (open_channel tp (\<lambda>e. e) (pc_endpoint pc) (pc_public_key pc) (pc_domain_name pc)))
       (\<lambda>channel. ret (pc\<lparr>pc_client := Some channel\<rparr>))"

definition proxy_client_send_command ::
  "('uri, 'chan, 'net) transport \<Rightarrow> ('uri, 'chan) proxy_client \<Rightarrow> string \<Rightarrow> string \<Rightarrow> command_type \<Rightarrow>
     bytes \<Rightarrow> (('chan, 'net) node, string option, string) prog" where
  "proxy_client_send_command tp pc conversation_id nonce command content =
     (case pc_client pc of
        None \<Rightarrow> throw ''Client not initialized''
      | Some client \<Rightarrow>
          on_net (map_err (tp_show_status tp)
            (tp_execute_command tp client
              \<lparr>cr_conversation_id = conversation_id, cr_nonce = nonce,
               cr_command = command_code command, cr_content = Some content\<rparr>)))"

record ('uri, 'p, 'w) proxy_factory =
  pf_get_proxy :: "'uri \<Rightarrow> bytes \<Rightarrow> string \<Rightarrow> 'p"
  pf_initialize :: "'p \<Rightarrow> ('w, 'p, string) prog"
  pf_send_command ::
    "'p \<Rightarrow> string \<Rightarrow> string \<Rightarrow> command_type \<Rightarrow> bytes \<Rightarrow> ('w, string option, string) prog"

definition proxy_client_factory ::
  "('uri, 'chan, 'net) transport \<Rightarrow>
     ('uri, ('uri, 'chan) proxy_client, ('chan, 'net) node) proxy_factory" where
  "proxy_client_factory tp =
     \<lparr>pf_get_proxy = new_proxy_client, pf_initialize = proxy_client_initialize tp,
      pf_send_command = proxy_client_send_command tp\<rparr>"

subsection \<open>The loop ends only when cancelled, and logs out\<close>

lemma keep_alive_loop_Ok:
  "keep_alive_loop rn au fuel t w = Some (Ok (), w') \<Longrightarrow> rn_cancelled rn w'"
  by (induction rn au fuel t w rule: keep_alive_loop.induct)
     (auto simp: Let_def split: if_splits prod.splits outcome.splits)

text \<open>
  C28. The authentication task: whenever it returns without a panic it was cancelled, and its last
  action is one attempt to log out, whether or not that succeeds.
\<close>

theorem auth_handler_logs_out:
  assumes "auth_handler rn au fuel w = Some (Ok (), w')"
  shows "\<exists>v. rn_cancelled rn v \<and> w' = snd (au_logout au v) \<and> fst (au_logout au v) \<noteq> Panic"
  using assms
proof (induction rn au fuel w rule: auth_handler.induct)
  case (2 rn au fuel w)
  have finish: "\<exists>v. rn_cancelled rn v \<and> w' = snd (au_logout au v) \<and> fst (au_logout au v) \<noteq> Panic"
    if "auth_finish au v = (Ok (), w')" "rn_cancelled rn v" for v
    using that by (auto simp: auth_finish_def split: prod.splits outcome.splits)
  show ?case
  proof (cases "rn_cancelled rn w")
    case True
    with "2.prems" finish show ?thesis by simp
  next
    case False
    obtain r w1 where a: "authenticate au w = (r, w1)" by fastforce
    show ?thesis
    proof (cases r)
      case (Ok k)
      obtain q where q: "keep_alive rn au fuel w1 = q" by simp
      show ?thesis
      proof (cases "\<exists>w2. q = Some (Ok (), w2)")
        case True
        then obtain w2 where w2: "keep_alive rn au fuel w1 = Some (Ok (), w2)" using q by blast
        then have "rn_cancelled rn w2" unfolding keep_alive_def by (rule keep_alive_loop_Ok)
        with "2.prems" False a Ok w2 finish show ?thesis by simp
      next
        case no: False
        from "2.prems" False a Ok q no obtain e w2 where "q = Some (Err e, w2)"
          by (auto split: option.splits prod.splits outcome.splits)
        with "2.prems" False a Ok q have run: "auth_handler rn au fuel w2 = Some (Ok (), w')" by simp
        have ka: "keep_alive rn au fuel w1 = Some (Err e, w2)" using q \<open>q = _\<close> by simp
        show ?thesis
          by (rule "2.IH"(1) [OF False a [symmetric] Ok ka refl refl run])
      qed
    next
      case (Err e)
      with "2.prems" "2.IH"(2) [OF False] False a show ?thesis by simp
    next
      case Panic
      with "2.prems" False a show ?thesis by simp
    qed
  qed
qed simp

subsection \<open>The loop ends once cancelled\<close>

text \<open>
  What termination needs of the surroundings: the token is cancelled from the instant \<open>t\<close> on, sleeping
  takes at least the time asked for, and calls do not turn back the clock.
\<close>

definition cancelled_from :: "'w runtime \<Rightarrow> 'w authenticator \<Rightarrow> instant \<Rightarrow> bool" where
  "cancelled_from rn au t \<longleftrightarrow>
     (\<forall>w. rn_cancelled rn w \<longleftrightarrow> t \<le> rn_now rn w) \<and>
     (\<forall>d w. rn_now rn w + d \<le> rn_now rn (rn_sleep rn d w)) \<and>
     (\<forall>w. rn_now rn w \<le> rn_now rn (snd (au_login au w))) \<and>
     (\<forall>w. rn_now rn w \<le> rn_now rn (snd (au_ping au w)))"

lemma authenticate_state: "snd (authenticate au w) = snd (au_login au w)"
  by (auto simp: authenticate_def prog_simps unwrap_or_panic_def
      split: prod.splits outcome.splits option.splits)

lemma keep_alive_round:
  assumes "cancelled_from rn au t" and "\<not> rn_cancelled rn w"
    and "au_ping au (rn_sleep rn (get_next_ping_duration (rn_now rn w) (rn_now rn w)) w) = (r, w')"
  shows "rn_now rn w + 5000 \<le> rn_now rn w'"
proof -
  have sleep: "rn_now rn w + 5000 \<le> rn_now rn (rn_sleep rn 5000 w)"
    and ping: "rn_now rn v \<le> rn_now rn (snd (au_ping au v))" for v
    using assms(1) unfolding cancelled_from_def by blast+
  have "get_next_ping_duration (rn_now rn w) (rn_now rn w) = 5000"
    by (simp add: get_next_ping_duration_def PING_INTERVAL_def)
  with assms(3) sleep ping [of "rn_sleep rn 5000 w"] show ?thesis by simp
qed

lemma keep_alive_ends:
  assumes "cancelled_from rn au t"
  shows "t \<le> rn_now rn w + 1000 * n \<Longrightarrow> n < fuel \<Longrightarrow>
    \<exists>r w'. keep_alive_loop rn au fuel (rn_now rn w) w = Some (r, w') \<and>
      (r = Ok () \<or> r = Panic \<or> rn_now rn w + 5000 \<le> rn_now rn w')"
proof (induction fuel arbitrary: w n)
  case (Suc fuel)
  show ?case
  proof (cases "rn_cancelled rn w")
    case True
    then show ?thesis by simp
  next
    case False
    obtain r v where p: "au_ping au (rn_sleep rn (get_next_ping_duration (rn_now rn w) (rn_now rn w)) w) = (r, v)"
      by fastforce
    have later: "rn_now rn w + 5000 \<le> rn_now rn v" by (rule keep_alive_round [OF assms False p])
    show ?thesis
    proof (cases r)
      case (Ok x)
      have "\<not> t \<le> rn_now rn w" using assms False unfolding cancelled_from_def by blast
      with Suc.prems have n: "n = Suc (n - 1)" by (cases n) simp_all
      with Suc.prems later have "t \<le> rn_now rn v + 1000 * (n - 1)" "n - 1 < fuel" by linarith+
      from Suc.IH [OF this] obtain q w' where
        "keep_alive_loop rn au fuel (rn_now rn v) v = Some (q, w')"
        "q = Ok () \<or> q = Panic \<or> rn_now rn v + 5000 \<le> rn_now rn w'" by blast
      with False p Ok later show ?thesis by (auto simp: Let_def)
    qed (use False p later in \<open>simp_all add: Let_def\<close>)
  qed
qed simp

text \<open>
  C19. The authentication task ends: if the token is cancelled from some instant on, the task
  returns, however often logging in or pinging fails before; one round for each second until the
  cancellation, and two more, are enough.
\<close>

theorem auth_handler_ends:
  assumes "cancelled_from rn au t" and "t \<le> rn_now rn w + 1000 * n"
  shows "\<exists>r w'. auth_handler rn au (n + 2) w = Some (r, w') \<and> (r = Ok () \<or> r = Panic)"
  using assms(2)
proof (induction n arbitrary: w)
  case 0
  then have "rn_cancelled rn w" using assms(1) by (simp add: cancelled_from_def)
  then show ?case by (auto simp: numeral_2_eq_2 auth_finish_def split: prod.splits outcome.splits)
next
  case (Suc n)
  show ?case
  proof (cases "rn_cancelled rn w")
    case True
    then show ?thesis by (auto simp: auth_finish_def split: prod.splits outcome.splits)
  next
    case False
    obtain a v where a: "authenticate au w = (a, v)" by fastforce
    then have v: "rn_now rn w \<le> rn_now rn v"
      using assms(1) authenticate_state [of au w] by (simp add: cancelled_from_def)
    show ?thesis
    proof (cases a)
      case (Ok k)
      have "t \<le> rn_now rn v + 1000 * Suc n" using Suc.prems v by linarith
      then obtain r w' where ka: "keep_alive rn au (n + 2) v = Some (r, w')"
        and r: "r = Ok () \<or> r = Panic \<or> rn_now rn v + 5000 \<le> rn_now rn w'"
        using keep_alive_ends [OF assms(1), of v "Suc n" "n + 2"] unfolding keep_alive_def by auto
      show ?thesis
      proof (cases r)
        case (Err e)
        with r v Suc.prems have "t \<le> rn_now rn w' + 1000 * n" by simp
        from Suc.IH [OF this] False a Ok ka Err show ?thesis by simp
      qed (use False a Ok ka in \<open>auto simp: auth_finish_def split: prod.splits outcome.splits\<close>)
    next
      case (Err e)
      have "rn_now rn v + 1000 \<le> rn_now rn (rn_sleep rn AUTH_DELAY v)"
        using assms(1) by (simp add: cancelled_from_def AUTH_DELAY_def)
      with v Suc.prems have "t \<le> rn_now rn (rn_sleep rn AUTH_DELAY v) + 1000 * n" by simp
      from Suc.IH [OF this] False a Err show ?thesis by simp
    qed (use False a in simp)
  qed
qed

subsection \<open>Heartbeats\<close>

lemma next_ping_time:
  "last_ping \<le> now \<Longrightarrow> now + get_next_ping_duration last_ping now = max now (last_ping + PING_INTERVAL)"
  unfolding get_next_ping_duration_def Let_def max_def by arith

text \<open>
  What is assumed of the surroundings of the loop: sleeping takes at least the time asked for and at
  most \<open>lag\<close> more, a ping takes at most \<open>rtt\<close>, and \<open>pings\<close> is the log of the instants at which
  pings were sent.
\<close>

definition timely ::
  "'w runtime \<Rightarrow> 'w authenticator \<Rightarrow> ('w \<Rightarrow> instant list) \<Rightarrow> duration \<Rightarrow> duration \<Rightarrow> bool" where
  "timely rn au pings lag rtt \<longleftrightarrow>
     (\<forall>d w. rn_now rn w + d \<le> rn_now rn (rn_sleep rn d w) \<and>
            rn_now rn (rn_sleep rn d w) \<le> rn_now rn w + d + lag \<and>
            pings (rn_sleep rn d w) = pings w) \<and>
     (\<forall>w. rn_now rn (snd (au_ping au w)) \<le> rn_now rn w + rtt \<and>
          pings (snd (au_ping au w)) = pings w @ [rn_now rn w])"

lemma timely_ping:
  assumes "timely rn au pings lag rtt" and "au_ping au w = (r, w')"
  shows "rn_now rn w' \<le> rn_now rn w + rtt" and "pings w' = pings w @ [rn_now rn w]"
proof -
  have "rn_now rn (snd (au_ping au w)) \<le> rn_now rn w + rtt"
    "pings (snd (au_ping au w)) = pings w @ [rn_now rn w]"
    using assms(1) unfolding timely_def by blast+
  with assms(2) show "rn_now rn w' \<le> rn_now rn w + rtt" "pings w' = pings w @ [rn_now rn w]"
    by simp_all
qed

lemma keep_alive_gaps:
  assumes "timely rn au pings lag rtt"
    and "keep_alive_loop rn au fuel (rn_now rn w) w = Some (r, w')"
    and "successively (\<lambda>a b. b \<le> a + PING_INTERVAL + lag + rtt) (pings w)"
    and "pings w \<noteq> [] \<Longrightarrow> rn_now rn w \<le> last (pings w) + rtt"
  shows "successively (\<lambda>a b. b \<le> a + PING_INTERVAL + lag + rtt) (pings w')"
  using assms(2-4)
proof (induction fuel arbitrary: w)
  case (Suc fuel)
  show ?case
  proof (cases "rn_cancelled rn w")
    case True
    with Suc.prems show ?thesis by simp
  next
    case False
    define w1 where "w1 = rn_sleep rn (get_next_ping_duration (rn_now rn w) (rn_now rn w)) w"
    have w1: "rn_now rn w1 \<le> rn_now rn w + PING_INTERVAL + lag" "pings w1 = pings w"
      using assms(1) by (auto simp: timely_def w1_def get_next_ping_duration_def PING_INTERVAL_def)
    obtain q w2 where q: "au_ping au w1 = (q, w2)" by fastforce
    note p = timely_ping [OF assms(1) q]
    have gaps: "successively (\<lambda>a b. b \<le> a + PING_INTERVAL + lag + rtt) (pings w2)"
      using Suc.prems(2,3) w1 unfolding p(2)
      by (cases "pings w = []") (simp_all add: successively_append_iff)
    show ?thesis
    proof (cases q)
      case (Ok x)
      have run: "keep_alive_loop rn au fuel (rn_now rn w2) w2 = Some (r, w')"
        using Suc.prems(1) False q Ok by (simp add: w1_def Let_def split: prod.splits)
      show ?thesis by (rule Suc.IH [OF run gaps]) (simp add: p)
    qed (use Suc.prems(1) False q gaps in \<open>simp_all add: w1_def Let_def\<close>)
  qed
qed simp

lemma keep_alive_log:
  assumes "timely rn au pings lag rtt" and "keep_alive_loop rn au fuel (rn_now rn w) w = Some (r, w')"
  shows "set (pings w) \<subseteq> set (pings w')"
  using assms(2)
proof (induction fuel arbitrary: w)
  case (Suc fuel)
  show ?case
  proof (cases "rn_cancelled rn w")
    case False
    define w1 where "w1 = rn_sleep rn (get_next_ping_duration (rn_now rn w) (rn_now rn w)) w"
    obtain q w2 where q: "au_ping au w1 = (q, w2)" by fastforce
    have "pings w1 = pings w" using assms(1) by (simp add: timely_def w1_def)
    with timely_ping(2) [OF assms(1) q] have "set (pings w) \<subseteq> set (pings w2)" by auto
    with Suc.prems Suc.IH [of w2] False q show ?thesis
      by (cases q) (auto simp: w1_def Let_def)
  qed (use Suc.prems in simp)
qed simp

lemma keep_alive_windows:
  assumes "timely rn au pings lag rtt" and "keep_alive_loop rn au fuel (rn_now rn w) w = Some (r, w')"
    and "rn_now rn w \<le> t + rtt" and "t + (5000 + lag + rtt) \<le> rn_now rn w'"
  shows "\<exists>p \<in> set (pings w'). t \<le> p \<and> p \<le> t + (5000 + lag + rtt)"
  using assms(2,3)
proof (induction fuel arbitrary: w)
  case (Suc fuel)
  have "\<not> rn_cancelled rn w"
    using Suc.prems assms(4) by (auto split: if_splits)
  define w1 where "w1 = rn_sleep rn (get_next_ping_duration (rn_now rn w) (rn_now rn w)) w"
  have w1: "rn_now rn w1 \<le> rn_now rn w + 5000 + lag"
    using assms(1) by (auto simp: timely_def w1_def get_next_ping_duration_def PING_INTERVAL_def)
  obtain q w2 where q: "au_ping au w1 = (q, w2)" by fastforce
  note p = timely_ping [OF assms(1) q]
  have over: "w' = w2" if "\<forall>x. q \<noteq> Ok x"
    using that Suc.prems(1) q \<open>\<not> rn_cancelled rn w\<close> by (cases q) (simp_all add: w1_def Let_def)
  have rest: "q = Ok x \<Longrightarrow> keep_alive_loop rn au fuel (rn_now rn w2) w2 = Some (r, w')" for x
    using Suc.prems(1) q \<open>\<not> rn_cancelled rn w\<close> by (simp add: w1_def Let_def split: prod.splits)
  show ?case
  proof (cases "t \<le> rn_now rn w1")
    case True
    have "set (pings w2) \<subseteq> set (pings w')"
      using over rest keep_alive_log [OF assms(1)] by (cases q) auto
    then have "rn_now rn w1 \<in> set (pings w')" using p(2) by auto
    moreover have "rn_now rn w1 \<le> t + (5000 + lag + rtt)" using w1 Suc.prems(2) by simp
    ultimately show ?thesis using True by blast
  next
    case False
    then have later: "rn_now rn w2 \<le> t + rtt" using p(1) by simp
    show ?thesis
    proof (cases q)
      case (Ok x)
      show ?thesis by (rule Suc.IH [OF rest [OF Ok] later])
    qed (use over later assms(4) in \<open>simp_all\<close>)
  qed
qed simp

lemma keep_alive_end:
  assumes "cancelled_from rn au t" and "keep_alive_loop rn au fuel s w = Some (r, w')"
  shows "case r of Ok _ \<Rightarrow> t \<le> rn_now rn w' | Err e \<Rightarrow> \<exists>v. au_ping au v = (Err e, w')
    | Panic \<Rightarrow> \<exists>v. au_ping au v = (Panic, w')"
  using assms
proof (induction rn au fuel s w rule: keep_alive_loop.induct)
  case (2 rn au fuel s w)
  have "rn_cancelled rn w \<longleftrightarrow> t \<le> rn_now rn w"
    using "2.prems"(1) unfolding cancelled_from_def by blast
  with 2 show ?case by (auto simp: Let_def split: if_splits prod.splits outcome.splits)
qed simp

text \<open>
  C29. A logged-in component pings often enough, and goes on until it is told to stop.  Sleeping
  oversleeps by at most \<open>lag\<close>, a ping takes at most \<open>rtt\<close>, \<open>lag + rtt\<close> is at most five seconds, the
  token is cancelled from the instant \<open>stop\<close> on, whenever that is, and the log of pings starts
  empty.  Then the keep-alive loop ends, after at most one round for each second until \<open>stop\<close>
  and one more; it ends well not before \<open>stop\<close>, and otherwise only by a ping that fails; and from
  its start to its end a ping is sent within five seconds, \<open>lag\<close> and \<open>rtt\<close> of every
  instant, so within the ten seconds a session lives without a look-up.
\<close>

theorem pings_are_timely:
  assumes "timely rn au pings lag rtt" and "cancelled_from rn au stop" and "lag + rtt \<le> 5000"
    and "pings w = []" and "stop \<le> rn_now rn w + 1000 * n"
  shows "\<exists>r w'. keep_alive rn au (n + 1) w = Some (r, w')
    \<and> (case r of Ok _ \<Rightarrow> stop \<le> rn_now rn w' | Err e \<Rightarrow> \<exists>v. au_ping au v = (Err e, w')
         | Panic \<Rightarrow> \<exists>v. au_ping au v = (Panic, w'))
    \<and> (\<forall>t. rn_now rn w \<le> t \<longrightarrow> t + (5000 + lag + rtt) \<le> rn_now rn w' \<longrightarrow>
         (\<exists>p \<in> set (pings w'). t \<le> p \<and> p \<le> t + (5000 + lag + rtt) \<and> p \<le> t + 10000))
    \<and> successively (\<lambda>a b. b \<le> a + 5000 + lag + rtt \<and> b \<le> a + 10000) (pings w')"
proof -
  obtain r w' where run: "keep_alive_loop rn au (n + 1) (rn_now rn w) w = Some (r, w')"
    using keep_alive_ends [OF assms(2,5), of "n + 1"] by auto
  have "successively (\<lambda>a b. b \<le> a + PING_INTERVAL + lag + rtt) (pings w')"
    by (rule keep_alive_gaps [OF assms(1) run]) (simp_all add: assms(4))
  then have "successively (\<lambda>a b. b \<le> a + 5000 + lag + rtt \<and> b \<le> a + 10000) (pings w')"
    by (rule successively_mono) (use assms(3) in \<open>auto simp: PING_INTERVAL_def\<close>)
  moreover have "\<exists>p \<in> set (pings w'). t \<le> p \<and> p \<le> t + (5000 + lag + rtt) \<and> p \<le> t + 10000"
    if "rn_now rn w \<le> t" "t + (5000 + lag + rtt) \<le> rn_now rn w'" for t
    using keep_alive_windows [OF assms(1) run trans_le_add1 [OF that(1)] that(2)] assms(3) by fastforce
  ultimately show ?thesis
    using run keep_alive_end [OF assms(2) run] unfolding keep_alive_def by blast
qed

subsection \<open>The shared session\<close>

text \<open>
  Logging in writes the shared session cell, logging out does not clear it: after a successful
  login every holder of the cell sees the new key; after a later successful logout the authenticator
  itself is no longer authenticated, but the cell it shared still holds the key of the session that
  was closed.
\<close>

theorem logout_leaves_shared_session:
  assumes "client_login tp w = (Ok (), w1)" and "ac_session (nd_auth w) < length (nd_cells w)"
    and "client_logout tp w1 = (Ok (), w2)"
  shows "\<exists>k. nd_cells w1 ! ac_session (nd_auth w) =
        \<lparr>cl_access_key = Some k, cl_uid = Some (cred_uid (ac_credentials (nd_auth w)))\<rparr>
      \<and> nd_cells w2 ! ac_session (nd_auth w) = nd_cells w1 ! ac_session (nd_auth w)
      \<and> client_is_authenticated (node_session w1)
      \<and> \<not> client_is_authenticated (node_session w2)"
proof -
  obtain response :: login_response and n where
    "w1 = write_session (client_set_session (cred_uid (ac_credentials (nd_auth w)))
        (lresp_access_key response) (node_session w)) (w\<lparr>nd_net := n\<rparr>)"
    using assms(1)
    by (auto simp: client_login_def on_net_def prog_simps write_session_def node_session_def
        unwrap_or_panic_def split: option.splits prod.splits outcome.splits)
  then have w1: "nd_auth w1 = nd_auth w"
    "nd_cells w1 ! ac_session (nd_auth w) =
      \<lparr>cl_access_key = Some (lresp_access_key response),
       cl_uid = Some (cred_uid (ac_credentials (nd_auth w)))\<rparr>"
    "length (nd_cells w1) = length (nd_cells w)"
    using assms(2) by (simp_all add: write_session_def client_set_session_def)
  from assms(3) obtain n' where "w2 = w1\<lparr>nd_net := n', nd_cells := nd_cells w1 @ [default_client_session],
      nd_auth := (nd_auth w1)\<lparr>ac_session := length (nd_cells w1)\<rparr>\<rparr>"
    by (auto simp: client_logout_def on_net_def prog_simps unwrap_or_panic_def
        split: option.splits prod.splits outcome.splits)
  then show ?thesis
    using w1 assms(2)
    by (simp add: node_session_def client_is_authenticated_def default_client_session_def nth_append)
qed

end
