(* ===== verification/Proxy_Node.thy ===== *)
theory Proxy_Node
  imports Gateway
begin

section \<open>The proxy\<close>

text \<open>
  \<^verbatim>\<open>proxy/src\<close>: the clients for the information service and for landing a message, and the proxy
  service, which redeems the nonce a command comes with, then answers a status command itself or
  passes a message on along the next hop.  The service holds its collaborators as trait objects;
  they are records of operations here as well.
\<close>

subsection \<open>The information client\<close>

record 'chan info_client =
  ic_client :: "'chan option"

definition new_info_client :: "'chan info_client" where
  "new_info_client = \<lparr>ic_client = None\<rparr>"

definition info_client_initialize ::
  "('uri, 'chan, 'net) transport \<Rightarrow> environment \<Rightarrow> 'chan info_client \<Rightarrow>
     (('chan, 'net) node, 'chan info_client, string) prog" where
  "info_client_initialize tp env ic =
     and_then (on_net (open_controller_channel tp env (\<lambda>e. e))) (\<lambda>channel.
     ret (ic\<lparr>ic_client := Some channel\<rparr>))"

definition info_client_get_status ::
  "('uri, 'chan, 'net) transport \<Rightarrow> 'chan info_client \<Rightarrow> string \<Rightarrow>
     (('chan, 'net) node, status_response, string) prog" where
  "info_client_get_status tp ic access_key =
     and_then (unwrap_or_panic (ic_client ic)) (\<lambda>client.
     on_net (map_err (tp_show_status tp) (tp_status tp client access_key)))"

record ('i, 'w) informer_factory =
  if_get_informer :: 'i
  if_initialize :: "'i \<Rightarrow> ('w, 'i, string) prog"
  if_get_status :: "'i \<Rightarrow> string \<Rightarrow> ('w, status_response, string) prog"

definition info_client_factory ::
  "('uri, 'chan, 'net) transport \<Rightarrow> environment \<Rightarrow>
     ('chan info_client, ('chan, 'net) node) informer_factory" where
  "info_client_factory tp env =
     \<lparr>if_get_informer = new_info_client, if_initialize = info_client_initialize tp env,
      if_get_status = info_client_get_status tp\<rparr>"

subsection \<open>The landing client\<close>

record ('uri, 'chan) landing_client =
  lc_endpoint :: 'uri
  lc_public_key :: bytes
  lc_domain_name :: string
  lc_client :: "'chan option"

definition new_landing_client :: "'uri \<Rightarrow> bytes \<Rightarrow> string \<Rightarrow> ('uri, 'chan) landing_client" where
  "new_landing_client endpoint public_key domain_name =
     \<lparr>lc_endpoint = endpoint, lc_public_key = public_key, lc_domain_name = domain_name,
      lc_client = None\<rparr>"

definition landing_client_initialize ::
  "('uri, 'chan, 'net) transport \<Rightarrow> ('uri, 'chan) landing_client \<Rightarrow>
     (('chan, 'net) node, ('uri, 'chan) landing_client, string) prog" where
  "landing_client_initialize tp lc =
     and_then (on_net (open_channel tp (\<lambda>e. e) (lc_endpoint lc) (lc_public_key lc) (lc_domain_name lc)))
       (\<lambda>channel. ret (lc\<lparr>lc_client := Some channel\<rparr>))"

definition landing_client_send_message ::
  "('uri, 'chan, 'net) transport \<Rightarrow> ('uri, 'chan) landing_client \<Rightarrow> string \<Rightarrow> string \<Rightarrow> string \<Rightarrow>
     bytes \<Rightarrow> (('chan, 'net) node, unit, string) prog" where
  "landing_client_send_message tp lc conversation_id access_key nonce content =
     and_then (unwrap_or_panic (lc_client lc)) (\<lambda>client.
     on_net (map_err (tp_show_status tp)
       (tp_receive tp client
         \<lparr>tr_conversation_id = conversation_id, tr_access_key = access_key, tr_nonce = nonce,
          tr_content = content\<rparr>)))"

record ('uri, 'l, 'w) lander_factory =
  lf_get_lander :: "'uri \<Rightarrow> bytes \<Rightarrow> string \<Rightarrow> 'l"
  lf_initialize :: "'l \<Rightarrow> ('w, 'l, string) prog"
  lf_send_message :: "'l \<Rightarrow> string \<Rightarrow> string \<Rightarrow> string \<Rightarrow> bytes \<Rightarrow> ('w, unit, string) prog"

definition landing_client_factory ::
  "('uri, 'chan, 'net) transport \<Rightarrow>
     ('uri, ('uri, 'chan) landing_client, ('chan, 'net) node) lander_factory" where
  "landing_client_factory tp =
     \<lparr>lf_get_lander = new_landing_client, lf_initialize = landing_client_initialize tp,
      lf_send_message = landing_client_send_message tp\<rparr>"

subsection \<open>The proxy service\<close>

text \<open>
  \<open>ps_uri_try_from\<close> is the URI parser of the \<^verbatim>\<open>http\<close> crate and \<open>ps_debug_status\<close> the derived
  \<^verbatim>\<open>Debug\<close> text of a status response.
\<close>

record ('uri, 'r, 'i, 'l, 'p, 'w) proxy_service =
  ps_authenticator :: "'w authenticator"
  ps_router_factory :: "('r, 'w) router_factory"
  ps_informer_factory :: "('i, 'w) informer_factory"
  ps_lander_factory :: "('uri, 'l, 'w) lander_factory"
  ps_proxy_factory :: "('uri, 'p, 'w) proxy_factory"
  ps_uri_try_from :: "string \<rightharpoonup> 'uri"
  ps_debug_status :: "status_response \<Rightarrow> string"

definition new_proxy_service ::
  "('uri, 'chan, 'net) transport \<Rightarrow> environment \<Rightarrow> (status_response \<Rightarrow> string) \<Rightarrow>
     ('uri, 'chan route_client, 'chan info_client, ('uri, 'chan) landing_client,
      ('uri, 'chan) proxy_client, ('chan, 'net) node) proxy_service" where
  "new_proxy_service tp env debug_status =
     \<lparr>ps_authenticator = auth_client_authenticator tp env,
      ps_router_factory = route_client_factory tp env,
      ps_informer_factory = info_client_factory tp env,
      ps_lander_factory = landing_client_factory tp,
      ps_proxy_factory = proxy_client_factory tp,
      ps_uri_try_from = tp_uri_try_from tp, ps_debug_status = debug_status\<rparr>"

definition check_authentication ::
  "('uri, 'r, 'i, 'l, 'p, 'w) proxy_service \<Rightarrow> ('w, string, status) prog" where
  "check_authentication ps =
     and_then (reads (au_is_authenticated (ps_authenticator ps))) (\<lambda>authenticated.
     if \<not> authenticated then throw (mk_status Unauthenticated ''Not authenticated'')
     else
       and_then (reads (au_get_session (ps_authenticator ps))) (\<lambda>session.
       unwrap_or_panic (cl_access_key session)))"

definition proxy_status ::
  "('uri, 'r, 'i, 'l, 'p, 'w) proxy_service \<Rightarrow> string \<Rightarrow> ('w, status_response, status) prog" where
  "proxy_status ps access_key =
     (let f = ps_informer_factory ps
      in and_then (map_err (\<lambda>_. mk_status Internal ''Failed to initialize the informer'')
           (if_initialize f (if_get_informer f))) (\<lambda>informer.
         map_err (\<lambda>_. mk_status Internal ''Failed to get status'')
           (if_get_status f informer access_key)))"

definition proxy_redeem ::
  "('uri, 'r, 'i, 'l, 'p, 'w) proxy_service \<Rightarrow> string \<Rightarrow> string \<Rightarrow> string \<Rightarrow> ('w, unit, status) prog" where
  "proxy_redeem ps conversation_id access_key nonce =
     (let f = ps_router_factory ps
      in and_then (map_err (\<lambda>_. mk_status Internal ''Failed to initialize the router'')
           (rf_initialize f (rf_get_router f))) (\<lambda>router.
         and_then (map_err (\<lambda>_. mk_status Internal ''Failed to redeem route'')
           (rf_redeem f router conversation_id access_key nonce)) (\<lambda>_.
         ret ())))"

definition land_command ::
  "('uri, 'r, 'i, 'l, 'p, 'w) proxy_service \<Rightarrow> connection_settings \<Rightarrow> string \<Rightarrow> string \<Rightarrow> string \<Rightarrow>
     bytes \<Rightarrow> ('w, unit, status) prog" where
  "land_command ps cs conversation_id nonce access_key content =
     (let f = ps_lander_factory ps
      in and_then (unwrap_or_panic (get_public_endpoint (ps_uri_try_from ps) cs)) (\<lambda>endpoint.
         and_then (map_err (\<lambda>e. mk_status Internal (''Impossible to initialize landing client: '' @ e))
           (lf_initialize f (lf_get_lander f endpoint (cs_certificate cs) (cs_domain_name cs))))
           (\<lambda>landing_client.
         and_then (map_err (\<lambda>e. mk_status Internal (''Failed to deliver the message: '' @ e))
           (lf_send_message f landing_client conversation_id access_key nonce content)) (\<lambda>_.
         ret ()))))"

definition route_command ::
  "('uri, 'r, 'i, 'l, 'p, 'w) proxy_service \<Rightarrow> connection_settings \<Rightarrow> string \<Rightarrow> string \<Rightarrow> bytes \<Rightarrow>
     ('w, unit, status) prog" where
  "route_command ps cs conversation_id nonce content =
     (let f = ps_proxy_factory ps
      in and_then (unwrap_or_panic (get_public_endpoint (ps_uri_try_from ps) cs)) (\<lambda>endpoint.
         and_then (map_err (\<lambda>e. mk_status Internal (''Impossible to initialize proxy client: '' @ e))
           (pf_initialize f (pf_get_proxy f endpoint (cs_certificate cs) (cs_domain_name cs))))
           (\<lambda>proxy_client.
         and_then (map_err (\<lambda>e. mk_status Internal (''Failed to route command: '' @ e))
           (pf_send_command f proxy_client conversation_id nonce Send_Command content)) (\<lambda>_.
         ret ()))))"

text \<open>The endpoint is computed a first time for the log entry; a bad one panics either way.\<close>

definition proxy_send ::
  "('uri, 'r, 'i, 'l, 'p, 'w) proxy_service \<Rightarrow> string \<Rightarrow> string \<Rightarrow> bytes \<Rightarrow> ('w, unit, status) prog" where
  "proxy_send ps conversation_id access_key content =
     (let f = ps_router_factory ps
      in and_then (map_err (\<lambda>_. mk_status Internal ''Failed to initialize the router'')
           (rf_initialize f (rf_get_router f))) (\<lambda>router.
         and_then (map_err (\<lambda>_. mk_status Internal ''Failed to get route'')
           (rf_get_route f router conversation_id access_key)) (\<lambda>route.
         let cs = \<lparr>cs_ip = rr_ip_address route, cs_port = ucast (rr_port_number route),
                   cs_domain_name = rr_domain_name route, cs_certificate = rr_public_key route\<rparr>
         in if rr_end_route route
            then land_command ps cs conversation_id (rr_nonce route) access_key content
            else route_command ps cs conversation_id (rr_nonce route) content)))"

definition execute_command ::
  "('uri, 'r, 'i, 'l, 'p, 'w) proxy_service \<Rightarrow> command_request \<Rightarrow> ('w, string option, status) prog" where
  "execute_command ps req =
     and_then (check_authentication ps) (\<lambda>access_key.
     let content = (case cr_content req of Some c \<Rightarrow> c | None \<Rightarrow> []);
         nonce = cr_nonce req;
         conversation_id = cr_conversation_id req
     in and_then (proxy_redeem ps conversation_id access_key nonce) (\<lambda>_.
        case command_from_i32 (cr_command req) of
          Some Status_Command \<Rightarrow>
            and_then (proxy_status ps access_key) (\<lambda>status.
            ret (Some (''Status: '' @ ps_debug_status ps status)))
        | Some Send_Command \<Rightarrow>
            and_then (proxy_send ps conversation_id access_key content) (\<lambda>_.
            ret (Some ''Message sent''))
        | _ \<Rightarrow> ret None))"

lemmas proxy_service_defs =
  check_authentication_def proxy_status_def proxy_redeem_def land_command_def route_command_def
  proxy_send_def execute_command_def

subsection \<open>No nonce, no command\<close>

text \<open>
  C27. A proxy acts on a command only for a redeemed nonce: if the handler answers at all, it was
  authenticated and the controller accepted the nonce of the request, presented with the proxy's own
  access key, before anything else was done.
\<close>

theorem command_needs_redeemed_nonce:
  assumes "fst (execute_command ps req w) = Ok x"
  shows "\<exists>access_key router w1 a w2.
      au_is_authenticated (ps_authenticator ps) w \<and>
      cl_access_key (au_get_session (ps_authenticator ps) w) = Some access_key \<and>
      rf_initialize (ps_router_factory ps) (rf_get_router (ps_router_factory ps)) w = (Ok router, w1) \<and>
      rf_redeem (ps_router_factory ps) router (cr_conversation_id req) access_key (cr_nonce req) w1 =
        (Ok a, w2)"
proof -
  from assms obtain access_key v where
    key: "check_authentication ps w = (Ok access_key, v)" and
    redeemed: "fst (and_then (proxy_redeem ps (cr_conversation_id req) access_key (cr_nonce req))
      (\<lambda>_. case command_from_i32 (cr_command req) of
          Some Status_Command \<Rightarrow>
            and_then (proxy_status ps access_key) (\<lambda>status.
            ret (Some (''Status: '' @ ps_debug_status ps status)))
        | Some Send_Command \<Rightarrow>
            and_then (proxy_send ps (cr_conversation_id req) access_key
              (case cr_content req of Some c \<Rightarrow> c | None \<Rightarrow> [])) (\<lambda>_.
            ret (Some ''Message sent''))
        | _ \<Rightarrow> ret None) v) = Ok x"
    unfolding execute_command_def Let_def
    by (auto simp: and_then_def split: prod.splits outcome.splits)
  from key have auth: "au_is_authenticated (ps_authenticator ps) w"
    "cl_access_key (au_get_session (ps_authenticator ps) w) = Some access_key" "v = w"
    by (auto simp: check_authentication_def prog_simps unwrap_or_panic_def
        split: if_splits option.splits)
  from redeemed obtain u where
    "proxy_redeem ps (cr_conversation_id req) access_key (cr_nonce req) w = (Ok (), u)"
    unfolding auth(3) by (auto simp: and_then_def split: prod.splits outcome.splits)
  then show ?thesis
    using auth unfolding proxy_redeem_def Let_def
    by (auto simp: and_then_def map_err_def ret_def split: prod.splits outcome.splits)
qed

text \<open>
  A refused command has no effect of its own: if the proxy is not authenticated the state is
  untouched and the status is Unauthenticated, and if the controller refuses the nonce the state is
  the one the refusal left and the status is Internal, whatever the command is.
\<close>

theorem refused_command_does_nothing:
  "(\<not> au_is_authenticated (ps_authenticator ps) w \<longrightarrow>
      execute_command ps req w = (Err (mk_status Unauthenticated ''Not authenticated''), w))
   \<and> (au_is_authenticated (ps_authenticator ps) w \<and>
      cl_access_key (au_get_session (ps_authenticator ps) w) = Some access_key \<and>
      rf_initialize (ps_router_factory ps) (rf_get_router (ps_router_factory ps)) w = (Ok router, w1) \<and>
      rf_redeem (ps_router_factory ps) router (cr_conversation_id req) access_key (cr_nonce req) w1 =
        (Err e, w2) \<longrightarrow>
      execute_command ps req w = (Err (mk_status Internal ''Failed to redeem route''), w2))"
  by (simp add: execute_command_def check_authentication_def proxy_redeem_def Let_def prog_simps
      unwrap_or_panic_def)

end
