(* ===== verification/Client_Node.thy ===== *)
theory Client_Node
  imports Gateway
begin

section \<open>The client\<close>

text \<open>
  \<^verbatim>\<open>client/src\<close>: parsing a line of input, the commander that opens a conversation and hands the
  first command to a proxy, the input loop, and the landing service that receives messages.
\<close>

subsection \<open>Commands\<close>

datatype command = Send string bytes | Show_Status

definition SEND_USAGE :: string where
  "SEND_USAGE = ''Invalid command format. Usage: /send <to> <message>''"

text \<open>
  \<^verbatim>\<open>Command::from_str\<close>.  The rest of the line is found by searching the whole line for the second
  word, from its beginning.
\<close>

definition command_from_str :: "string \<Rightarrow> (command, string) outcome" where
  "command_from_str command =
     (let wording = split_whitespace command;
          cmd = (case wording of [] \<Rightarrow> [] | w # _ \<Rightarrow> w);
          rest = (case wording of [] \<Rightarrow> [] | _ # ws \<Rightarrow> ws)
      in if to_lowercase cmd = ''/send'' then
           (case rest of
              [] \<Rightarrow> Err SEND_USAGE
            | to # _ \<Rightarrow>
                (case find to command of
                   None \<Rightarrow> Panic
                 | Some index \<Rightarrow>
                     let message = as_bytes (trim (drop (index + length to) command))
                     in if message \<noteq> [] then Ok (Send to message) else Err SEND_USAGE))
         else if to_lowercase cmd = ''/status'' then Ok Show_Status
         else Err (''Unknown command: '' @ command))"

subsection \<open>The commander\<close>

record ('uri, 'r, 'p, 'w) commander =
  cm_access_key :: string
  cm_router_factory :: "('r, 'w) router_factory"
  cm_proxy_factory :: "('uri, 'p, 'w) proxy_factory"
  cm_uri_try_from :: "string \<rightharpoonup> 'uri"
  cm_show_status :: "status \<Rightarrow> string"

definition new_commander ::
  "('uri, 'chan, 'net) transport \<Rightarrow> environment \<Rightarrow> string \<Rightarrow>
     ('uri, 'chan route_client, ('uri, 'chan) proxy_client, ('chan, 'net) node) commander" where
  "new_commander tp env access_key =
     \<lparr>cm_access_key = access_key, cm_router_factory = route_client_factory tp env,
      cm_proxy_factory = proxy_client_factory tp, cm_uri_try_from = tp_uri_try_from tp,
      cm_show_status = tp_show_status tp\<rparr>"

record 'uri first_hop =
  fh_conversation_id :: string
  fh_nonce :: string
  fh_public_key :: bytes
  fh_domain_name :: string
  fh_uri :: 'uri

definition commander_initialize ::
  "('uri, 'r, 'p, 'w) commander \<Rightarrow> string \<Rightarrow> ('w, 'uri first_hop, string) prog" where
  "commander_initialize cm to =
     (let f = cm_router_factory cm
      in and_then (rf_initialize f (rf_get_router f)) (\<lambda>router.
         and_then (rf_init_conversation f router (cm_access_key cm) to) (\<lambda>conversation_id.
         and_then (rf_get_route f router conversation_id (cm_access_key cm)) (\<lambda>route.
         and_then (lift_outcome
           (to_https_endpoint (cm_uri_try_from cm) (rr_ip_address route) (rr_port_number route)))
           (\<lambda>uri.
         ret \<lparr>fh_conversation_id = conversation_id, fh_nonce = rr_nonce route,
              fh_public_key = rr_public_key route, fh_domain_name = rr_domain_name route,
              fh_uri = uri\<rparr>)))))"

text \<open>What \<^verbatim>\<open>send_message\<close> and \<^verbatim>\<open>get_status\<close> have in common: open a conversation, call the first proxy.\<close>

definition commander_call ::
  "('uri, 'r, 'p, 'w) commander \<Rightarrow> string \<Rightarrow> command_type \<Rightarrow> bytes \<Rightarrow> ('w, string option, string) prog" where
  "commander_call cm to command content =
     (let f = cm_proxy_factory cm
      in and_then (commander_initialize cm to) (\<lambda>route.
         and_then (map_err (\<lambda>e. cm_show_status cm
             (mk_status Internal (''Impossible to initialize proxy client: '' @ e)))
           (pf_initialize f (pf_get_proxy f (fh_uri route) (fh_public_key route) (fh_domain_name route))))
           (\<lambda>proxy_client.
         pf_send_command f proxy_client (fh_conversation_id route) (fh_nonce route) command content)))"

definition commander_send_message ::
  "('uri, 'r, 'p, 'w) commander \<Rightarrow> string \<Rightarrow> bytes \<Rightarrow> ('w, string option, string) prog" where
  "commander_send_message cm to content = commander_call cm to Send_Command content"

definition commander_get_status ::
  "('uri, 'r, 'p, 'w) commander \<Rightarrow> ('w, string option, string) prog" where
  "commander_get_status cm = commander_call cm [] Status_Command []"

subsection \<open>The input loop\<close>

text \<open>
  One line of input.  \<open>Handled\<close> lets the loop go on, \<open>Stopped\<close> ends it: a command that comes before
  the login has set an access key ends the loop.
\<close>

datatype handled = Handled "(string option, string) outcome option" | Stopped

definition handle_input ::
  "(string \<Rightarrow> ('uri, 'r, 'p, 'w) commander) \<Rightarrow> ('w \<Rightarrow> client_session) \<Rightarrow> string \<Rightarrow> 'w \<Rightarrow>
     (handled, string) outcome \<times> 'w" where
  "handle_input make_commander session input w =
     (case command_from_str input of
        Panic \<Rightarrow> (Panic, w)
      | Err _ \<Rightarrow> (Ok (Handled None), w)
      | Ok cmd \<Rightarrow>
          (case cl_access_key (session w) of
             None \<Rightarrow> (Ok Stopped, w)
           | Some access_key \<Rightarrow>
               let commander = make_commander access_key;
                   (response, w') =
                     (case cmd of
                        Show_Status \<Rightarrow> commander_get_status commander w
                      | Send to content \<Rightarrow> commander_send_message commander to content w)
               in case response of
                    Panic \<Rightarrow> (Panic, w')
                  | r \<Rightarrow> (Ok (Handled (Some r)), w')))"

fun handle_inputs ::
  "(string \<Rightarrow> ('uri, 'r, 'p, 'w) commander) \<Rightarrow> ('w \<Rightarrow> client_session) \<Rightarrow> string list \<Rightarrow> 'w \<Rightarrow>
     (unit, string) outcome \<times> 'w" where
  "handle_inputs mk session [] w = (Ok (), w)"
| "handle_inputs mk session (i # is) w =
     (case handle_input mk session i w of
        (Ok (Handled _), w') \<Rightarrow> handle_inputs mk session is w'
      | (Ok Stopped, w') \<Rightarrow> (Ok (), w')
      | (Err e, w') \<Rightarrow> (Err e, w')
      | (Panic, w') \<Rightarrow> (Panic, w'))"

text \<open>The input thread forwards the lines that are not blank, untrimmed.\<close>

definition forwarded_lines :: "string list \<Rightarrow> string list" where
  "forwarded_lines lines = filter (\<lambda>l. trim l \<noteq> []) lines"

subsection \<open>The landing service\<close>

record text_message =
  tm_from :: string
  tm_to :: string
  tm_content :: string
  tm_at :: instant

definition new_text_message :: "instant \<Rightarrow> string \<Rightarrow> string \<Rightarrow> bytes \<Rightarrow> text_message" where
  "new_text_message now from to content =
     \<lparr>tm_from = from, tm_to = to, tm_content = from_utf8_lossy content, tm_at = now\<rparr>"

text \<open>
  \<open>deliver\<close> is the sending end of the channel to the printing task.  The request names the access key
  to redeem with.
\<close>

definition landing_receive ::
  "('r, 'w) router_factory \<Rightarrow> ('w \<Rightarrow> instant) \<Rightarrow> (text_message \<Rightarrow> 'w \<Rightarrow> 'w) \<Rightarrow> text_request \<Rightarrow>
     ('w, unit, status) prog" where
  "landing_receive f now deliver req =
     and_then (map_err (\<lambda>_. mk_status Internal ''Failed to initialize the router'')
       (rf_initialize f (rf_get_router f))) (\<lambda>router.
     and_then (map_err (\<lambda>_. mk_status Internal ''Failed to redeem'')
       (rf_redeem f router (tr_conversation_id req) (tr_access_key req) (tr_nonce req))) (\<lambda>redeemed.
     and_then (unwrap_or_panic redeemed) (\<lambda>source.
     and_then (reads now) (\<lambda>at.
     total (\<lambda>w. ((), deliver (new_text_message at source ''myself'' (tr_content req)) w))))))"

subsection \<open>Parsing\<close>

text \<open>Words of printable ASCII characters.\<close>

definition plain :: "string \<Rightarrow> bool" where
  "plain w \<longleftrightarrow> (\<forall>c \<in> set w. 33 \<le> byte c \<and> byte c \<le> 126)"

lemma ws_len_plain: "33 \<le> byte c \<Longrightarrow> byte c \<le> 126 \<Longrightarrow> ws_len (c # s) = 0"
  by (cases "c # s" rule: ws_len.cases) (auto simp: ws1_def ws2_def ws3_def)

lemma ws_len_space [simp]: "ws_len (CHR '' '' # s) = 1"
  by (cases "CHR '' '' # s" rule: ws_len.cases) (auto simp: ws1_def byte_def)

lemma token_plain [simp]:
  "plain w \<Longrightarrow> token (w @ CHR '' '' # s) = w"
  "plain w \<Longrightarrow> after_token (w @ CHR '' '' # s) = CHR '' '' # s"
  by (induction w) (simp_all add: plain_def ws_len_plain)

lemma trim_start_plain: "plain w \<Longrightarrow> w \<noteq> [] \<Longrightarrow> trim_start (w @ s) = w @ s"
  by (cases w) (simp_all add: trim_start.simps plain_def ws_len_plain)

lemma trim_start_space: "trim_start (CHR '' '' # s) = trim_start s"
  by (subst trim_start.simps) simp

lemma ws_len_bytes: "c \<in> set (take (ws_len s) s) \<Longrightarrow> byte c < 33 \<or> 126 < byte c"
  by (cases s rule: ws_len.cases) (auto simp: ws1_def ws2_def ws3_def split: if_splits)

lemma trim_start_blank: "trim_start s = [] \<Longrightarrow> c \<in> set s \<Longrightarrow> byte c < 33 \<or> 126 < byte c"
proof (induction s rule: trim_start.induct)
  case (1 s)
  show ?case
  proof (cases "ws_len s = 0")
    case True
    with "1.prems" show ?thesis by (simp add: trim_start.simps)
  next
    case False
    with "1.prems" have "trim_start (drop (ws_len s) s) = []" using trim_start.simps [of s] by simp
    moreover have "c \<in> set (take (ws_len s) s) \<or> c \<in> set (drop (ws_len s) s)"
      using "1.prems"(2) by (metis Un_iff append_take_drop_id set_append)
    ultimately show ?thesis using "1.IH" [OF False] ws_len_bytes by blast
  qed
qed

lemma trim_end_plain: "33 \<le> byte c \<Longrightarrow> byte c \<le> 126 \<Longrightarrow> trim_end (s @ [c]) = s @ [c]"
proof (induction s)
  case Nil
  then show ?case using trim_start_blank [of "[c]" c] by auto
next
  case (Cons a s)
  then show ?case using trim_start_blank [of "a # s @ [c]" c] by auto
qed

text \<open>
  Trimming leaves alone what begins and ends with a printable ASCII character.
\<close>

lemma trim_plain:
  assumes "33 \<le> byte a" and "byte a \<le> 126" and "33 \<le> byte c" and "byte c \<le> 126"
  shows "trim (a # s @ [c]) = a # s @ [c]"
proof -
  have "trim_start (a # s @ [c]) = a # s @ [c]"
    using assms(1,2) by (subst trim_start.simps) (simp add: ws_len_plain)
  moreover have "trim_end ((a # s) @ [c]) = (a # s) @ [c]" by (rule trim_end_plain) fact+
  ultimately show ?thesis by (simp add: trim_def)
qed

lemma split_whitespace_space: "split_whitespace (CHR '' '' # t) = split_whitespace t"
  by (subst (1 2) split_whitespace.simps) (simp add: trim_start_space)

lemma split_whitespace_first:
  "plain u \<Longrightarrow> u \<noteq> [] \<Longrightarrow>
     split_whitespace (u @ CHR '' '' # t) = u # split_whitespace (CHR '' '' # t)"
  by (subst split_whitespace.simps) (simp add: trim_start_plain)

lemma split_whitespace_words:
  assumes "plain u" and "u \<noteq> []" and "plain v" and "v \<noteq> []"
  shows "split_whitespace (u @ CHR '' '' # v @ CHR '' '' # s) =
    u # v # split_whitespace (CHR '' '' # s)"
  using assms by (simp add: split_whitespace_first split_whitespace_space)

text \<open>A word that ends the line.\<close>

lemma token_end: "plain w \<Longrightarrow> token w = w \<and> after_token w = []"
  by (induction w) (simp_all add: plain_def ws_len_plain)

lemma split_whitespace_word: "plain w \<Longrightarrow> w \<noteq> [] \<Longrightarrow> split_whitespace w = [w]"
  using trim_start_plain [of w "[]"]
  by (subst split_whitespace.simps) (simp add: token_end split_whitespace.simps [of "[]"]
      trim_start.simps [of "[]"])

text \<open>
  A send command is read as intended when the recipient does not occur earlier in the line:
  the message is what follows the recipient, without the white space around it.
\<close>

theorem send_command_parsed:
  assumes "plain cmd" and "to_lowercase cmd = ''/send''" and "plain to" and "to \<noteq> []"
    and "find to (cmd @ '' '' @ to @ '' '' @ msg) = Some (length cmd + 1)"
  shows "command_from_str (cmd @ '' '' @ to @ '' '' @ msg) =
    (if trim (CHR '' '' # msg) = [] then Err SEND_USAGE
     else Ok (Send to (as_bytes (trim (CHR '' '' # msg)))))"
proof -
  have "cmd \<noteq> []" using assms(2) by (auto simp: to_lowercase_def)
  then have "split_whitespace (cmd @ '' '' @ to @ '' '' @ msg) =
      cmd # to # split_whitespace (CHR '' '' # msg)"
    using split_whitespace_words [OF assms(1) _ assms(3,4)] by simp
  then show ?thesis
    using assms(2,5) by (simp add: command_from_str_def Let_def as_bytes_def)
qed

text \<open>
  The recipient is searched for from the beginning of the line, so a recipient that occurs in
  the word \<^verbatim>\<open>/send\<close> itself corrupts the message.
\<close>

theorem send_to_s_is_misread:
  "command_from_str ''/send s hello'' = Ok (Send ''s'' (as_bytes ''end s hello''))"
proof -
  have w: "plain ''/send''" "plain ''s''" by (simp_all add: plain_def byte_def)
  have "split_whitespace (''/send'' @ CHR '' '' # ''s'' @ CHR '' '' # ''hello'') =
      ''/send'' # ''s'' # split_whitespace (CHR '' '' # ''hello'')"
    by (rule split_whitespace_words [OF w(1) _ w(2)]) simp_all
  then have split: "split_whitespace ''/send s hello'' =
      ''/send'' # ''s'' # split_whitespace (CHR '' '' # ''hello'')"
    by simp
  have find: "find ''s'' ''/send s hello'' = Some 1" by (simp add: starts_with_def)
  have lower: "to_lowercase ''/send'' = ''/send''"
    by (simp add: to_lowercase_def lower_char_def byte_def)
  have "trim (CHR ''e'' # ''nd s hell'' @ [CHR ''o'']) = CHR ''e'' # ''nd s hell'' @ [CHR ''o'']"
    by (rule trim_plain) (simp_all add: byte_def)
  then have trim: "trim ''end s hello'' = ''end s hello''" by simp
  show ?thesis
    unfolding command_from_str_def split Let_def list.case lower
    by (simp only: find option.case) (simp add: trim as_bytes_def)
qed

lemma find_append: "find p (a @ p @ b) \<noteq> None"
proof (induction a)
  case Nil
  have "starts_with p (p @ b)" by (simp add: starts_with_def)
  then show ?case by (cases "p @ b") auto
next
  case (Cons c a)
  then show ?case by simp
qed

lemma trim_start_suffix: "\<exists>a. s = a @ trim_start s"
proof (induction s rule: trim_start.induct)
  case (1 s)
  show ?case
  proof (cases "ws_len s = 0")
    case True
    then show ?thesis by (simp add: trim_start.simps)
  next
    case False
    with 1 obtain a where "drop (ws_len s) s = a @ trim_start (drop (ws_len s) s)" by blast
    then have "s = (take (ws_len s) s @ a) @ trim_start s"
      using False by (metis append_assoc append_take_drop_id trim_start.simps)
    then show ?thesis by blast
  qed
qed

lemma split_whitespace_infix: "w \<in> set (split_whitespace s) \<Longrightarrow> \<exists>a b. s = a @ w @ b"
proof (induction s rule: split_whitespace.induct)
  case (1 s)
  let ?t = "trim_start s"
  obtain a where a: "s = a @ ?t" using trim_start_suffix by blast
  show ?case
  proof (cases "?t = []")
    case True
    with "1.prems" show ?thesis by (simp add: split_whitespace.simps)
  next
    case False
    then have "split_whitespace s = token ?t # split_whitespace (after_token ?t)"
      by (subst split_whitespace.simps) simp
    with "1.prems" consider "w = token ?t" | "w \<in> set (split_whitespace (after_token ?t))"
      by auto
    then show ?thesis
    proof cases
      case 1
      then show ?thesis using a token_append_after [of ?t] by metis
    next
      case 2
      with "1.IH" False obtain b c where "after_token ?t = b @ w @ c" by blast
      then have "s = (a @ token ?t @ b) @ w @ c" using a token_append_after [of ?t] by simp
      then show ?thesis by blast
    qed
  qed
qed

text \<open>
  No line of input makes the parser panic: the recipient is a part of the line, so searching
  the line for it never fails.
\<close>

theorem command_parser_never_panics: "command_from_str line \<noteq> Panic"
proof -
  have "find to line \<noteq> None" if "split_whitespace line = c # to # ws" for c to ws
  proof -
    have "to \<in> set (split_whitespace line)" using that by simp
    then obtain a b where "line = a @ to @ b" by (blast dest: split_whitespace_infix)
    then show ?thesis by (simp add: find_append)
  qed
  then show ?thesis
    by (auto simp: command_from_str_def Let_def split: list.splits option.splits)
qed

subsection \<open>Input and landing\<close>

text \<open>
  A command typed before the login has set an access key ends the input loop for good: the
  remaining lines are never handled and nothing is sent, while lines that are not commands are
  skipped.
\<close>

theorem early_command_ends_input:
  assumes "cl_access_key (session w) = None"
    and "\<forall>l \<in> set skipped. \<exists>e. command_from_str l = Err e" and "command_from_str line = Ok cmd"
  shows "handle_inputs mk session (skipped @ line # rest) w = (Ok (), w)"
  using assms(2)
  by (induction skipped) (use assms(1,3) in \<open>auto simp: handle_input_def\<close>)

text \<open>
  What the landing service does with a message, by the outcome of the redemption: a named sender
  gets the text delivered once; no sender, as after the redemption of a nonce that is no end route,
  panics the handler; a refused redemption is an internal error.  Only the first delivers.
\<close>

theorem landing_receive_exact:
  assumes "rf_initialize f (rf_get_router f) w = (Ok router, w1)"
    and "rf_redeem f router (tr_conversation_id req) (tr_access_key req) (tr_nonce req) w1 = (r, w2)"
  shows "landing_receive f now deliver req w =
    (case r of
       Ok (Some source) \<Rightarrow>
         (Ok (), deliver (new_text_message (now w2) source ''myself'' (tr_content req)) w2)
     | Ok None \<Rightarrow> (Panic, w2)
     | Err _ \<Rightarrow> (Err (mk_status Internal ''Failed to redeem''), w2)
     | Panic \<Rightarrow> (Panic, w2))"
  using assms
  by (auto simp: landing_receive_def prog_simps unwrap_or_panic_def
      split: outcome.splits option.splits)

text \<open>
  The text shown: what was typed is shown as it was typed if it is well-formed UTF-8, and what is shown
  is well-formed whatever bytes arrive.
\<close>

lemma well_formed_text_shown:
  "valid_utf8 (as_bytes text) \<Longrightarrow> tm_content (new_text_message now from to (as_bytes text)) = text"
  by (simp add: new_text_message_def from_utf8_lossy_def utf8_lossy_valid)

lemma shown_text_well_formed:
  "\<exists>bs'. valid_utf8 bs' \<and> tm_content (new_text_message now from to bs) = text_of_bytes bs'"
  using valid_utf8_lossy [of bs] by (auto simp: new_text_message_def from_utf8_lossy_def)

text \<open>A line as the input thread forwards it, with its newline.\<close>

abbreviation newline :: string where
  "newline \<equiv> [CHR 0x0A]"

definition printable :: "char \<Rightarrow> bool" where
  "printable c \<longleftrightarrow> 33 \<le> byte c \<and> byte c \<le> 126"

lemma trim_end_line: "33 \<le> byte c \<Longrightarrow> byte c \<le> 126 \<Longrightarrow> trim_end (s @ c # newline) = s @ [c]"
proof (induction s)
  case Nil
  have "trim_start newline = []"
    using trim_start.simps [of newline] by (simp add: ws1_def byte_def trim_start.simps [of "[]"])
  then show ?case using Nil trim_start_blank [of "c # newline" c] by auto
next
  case (Cons a s)
  then show ?case using trim_start_blank [of "a # s @ c # newline" c] by auto
qed

lemma trim_line:
  assumes "text \<noteq> []" and "printable (hd text)" and "printable (last text)"
  shows "trim (CHR '' '' # text @ newline) = text"
proof -
  obtain s c where s: "text = s @ [c]" using assms(1) by (metis append_butlast_last_id)
  have "trim_start (text @ newline) = text @ newline"
    using assms(1,2) by (cases "text") (simp_all add: trim_start.simps printable_def ws_len_plain)
  moreover have "trim_end (text @ newline) = text"
    using trim_end_line [of c s] assms(3) by (simp add: s printable_def)
  ultimately show ?thesis by (simp add: trim_def trim_start_space)
qed

lemma typed_command_parsed:
  assumes "plain to" and "to \<noteq> []" and "text \<noteq> []" and "printable (hd text)" and "printable (last text)"
    and "find to (''/send '' @ to @ '' '' @ text @ newline) = Some 6"
  shows "command_from_str (''/send '' @ to @ '' '' @ text @ newline) = Ok (Send to (as_bytes text))"
proof -
  have "plain ''/send''" "to_lowercase ''/send'' = ''/send''"
    by (simp_all add: plain_def to_lowercase_def lower_char_def byte_def)
  from send_command_parsed [OF this assms(1,2), of "text @ newline"] trim_line [OF assms(3-5)]
  show ?thesis using assms(3,6) by simp
qed

end
