(* ===== verification/Network.thy ===== *)
theory Network
  imports Controller_Properties Proxy_Node Client_Node
begin

section \<open>A network of one controller, proxies and clients\<close>

text \<open>
  The processes put together.  The transport, an argument of the proxy and the client, is here the
  network itself: a remote call to the controller runs its handler on the controller's world, a
  command sent to a URI runs the proxy service of the process that listens there, a text sent to a
  URI runs the landing service.  Commands nest, one proxy calling the next, so the transport
  carries the depth of calls it still serves; a call beyond it is lost.  Everyone is logged in
  already and no time passes, so sessions neither come nor go.

  The result is end to end: a message a client sends is delivered once, to the client it is for,
  under the name of the sender, over three proxies.
\<close>

subsection \<open>The transport\<close>

record network =
  nw_controller :: world
  nw_next :: nat
  nw_mail :: "(string \<times> text_message) list"

text \<open>\<open>tg_auth\<close> and \<open>tg_cells\<close> are the authentication client and session cells of the process at a URI.\<close>

record topology =
  tg_deployment :: deployment
  tg_env :: environment
  tg_controller :: string
  tg_uuid :: "nat \<Rightarrow> string"
  tg_order :: proxy_order
  tg_pick :: "nat list \<Rightarrow> nat option"
  tg_now :: instant
  tg_addr :: "socket_addr option"
  tg_auth :: "string \<Rightarrow> string auth_client"
  tg_cells :: "string \<Rightarrow> client_session list"
  tg_debug :: "status_response \<Rightarrow> string"

definition lost :: status where
  "lost = mk_status Internal ''connection lost''"

definition surround :: "topology \<Rightarrow> network \<Rightarrow> surroundings" where
  "surround tg net =
     \<lparr>su_remote_addr = tg_addr tg, su_uuid = tg_uuid tg (nw_next net), su_now_micros = 0,
      su_porder = tg_order tg, su_pick = tg_pick tg\<rparr>"

text \<open>A call to the controller; \<open>sel\<close> takes the part of the reply the call returns.\<close>

definition ask ::
  "topology \<Rightarrow> (reply \<rightharpoonup> 'a) \<Rightarrow> request \<Rightarrow> string \<Rightarrow> (network, 'a, status) prog" where
  "ask tg sel rq ch net =
     (if ch \<noteq> tg_controller tg then (Err lost, net)
      else
        case answer (tg_deployment tg) (surround tg net) rq (nw_controller net) of
          (r, w) \<Rightarrow>
            (case r of
               Ok y \<Rightarrow> (case sel y of Some x \<Rightarrow> Ok x | None \<Rightarrow> Err lost)
             | Err e \<Rightarrow> Err e
             | Panic \<Rightarrow> Err lost,
             net\<lparr>nw_controller := w, nw_next := Suc (nw_next net)\<rparr>))"

fun sel_login :: "reply \<Rightarrow> login_response option" where
  "sel_login (Logged_In x) = Some x"
| "sel_login _ = None"

fun sel_logout :: "reply \<Rightarrow> unit option" where
  "sel_logout Logged_Out = Some ()"
| "sel_logout _ = None"

fun sel_pong :: "reply \<Rightarrow> ping_response option" where
  "sel_pong (Pong x) = Some x"
| "sel_pong _ = None"

fun sel_initialized :: "reply \<Rightarrow> string option" where
  "sel_initialized (Initialized x) = Some x"
| "sel_initialized _ = None"

fun sel_hop :: "reply \<Rightarrow> route_response option" where
  "sel_hop (Hop x) = Some x"
| "sel_hop _ = None"

fun sel_redeemed :: "reply \<Rightarrow> (string option) option" where
  "sel_redeemed (Redeemed x) = Some x"
| "sel_redeemed _ = None"

fun sel_status :: "reply \<Rightarrow> status_response option" where
  "sel_status (Status_Is x) = Some x"
| "sel_status _ = None"


definition controller_calls :: "topology \<Rightarrow> (string, string, network) transport" where
  "controller_calls tg =
     \<lparr>tp_uri_try_from = Some, tp_tls_error = (\<lambda>_ _. None), tp_connect = (\<lambda>uri _ _. ret uri),
      tp_login = (\<lambda>ch r. ask tg sel_login (Login r) ch),
      tp_logout = (\<lambda>ch k. ask tg sel_logout (Logout k) ch),
      tp_ping = (\<lambda>ch k. ask tg sel_pong (Ping k) ch),
      tp_initialize = (\<lambda>ch k to. ask tg sel_initialized (Initialize k to) ch),
      tp_route = (\<lambda>ch k c. ask tg sel_hop (Next_Route k c) ch),
      tp_redeem = (\<lambda>ch k c n. ask tg sel_redeemed (Redeem k c n) ch),
      tp_status = (\<lambda>ch k. ask tg sel_status (Status k) ch),
      tp_execute_command = (\<lambda>_ _. throw lost), tp_receive = (\<lambda>_ _. throw lost),
      tp_show_status = st_message\<rparr>"

text \<open>Running a program on the process at a URI; a panic there is a lost connection here.\<close>

definition node_at :: "topology \<Rightarrow> string \<Rightarrow> network \<Rightarrow> (string, network) node" where
  "node_at tg uri net = \<lparr>nd_auth = tg_auth tg uri, nd_cells = tg_cells tg uri, nd_net = net\<rparr>"

definition at_node ::
  "topology \<Rightarrow> string \<Rightarrow> ((string, network) node, 'a, status) prog \<Rightarrow> (network, 'a, status) prog" where
  "at_node tg uri p net =
     (case p (node_at tg uri net) of
        (r, nd) \<Rightarrow> (case r of Ok x \<Rightarrow> Ok x | Err e \<Rightarrow> Err e | Panic \<Rightarrow> Err lost, nd_net nd))"

definition deliver_at ::
  "string \<Rightarrow> text_message \<Rightarrow> (string, network) node \<Rightarrow> (string, network) node" where
  "deliver_at uri m nd = nd\<lparr>nd_net := (nd_net nd)\<lparr>nw_mail := nw_mail (nd_net nd) @ [(uri, m)]\<rparr>\<rparr>"

definition client_calls :: "topology \<Rightarrow> (string, string, network) transport" where
  "client_calls tg = (controller_calls tg)
     \<lparr>tp_receive := (\<lambda>uri req. at_node tg uri
        (landing_receive (route_client_factory (controller_calls tg) (tg_env tg))
           (\<lambda>_. tg_now tg) (deliver_at uri) req))\<rparr>"

fun network_transport :: "topology \<Rightarrow> nat \<Rightarrow> (string, string, network) transport" where
  "network_transport tg 0 = client_calls tg"
| "network_transport tg (Suc depth) = (client_calls tg)
     \<lparr>tp_execute_command := (\<lambda>uri req. at_node tg uri
        (execute_command
           (new_proxy_service (network_transport tg depth) (tg_env tg) (tg_debug tg)) req))\<rparr>"

subsection \<open>Calls over a transport that connects\<close>

definition ideal :: "(string, string, 'net) transport \<Rightarrow> bool" where
  "ideal tp \<longleftrightarrow>
     tp_uri_try_from tp = Some \<and> tp_tls_error tp = (\<lambda>_ _. None) \<and> tp_connect tp = (\<lambda>uri _ _. ret uri)"

definition uri_of :: "string \<Rightarrow> u16 \<Rightarrow> string" where
  "uri_of ip port = ''https://'' @ ip @ '':'' @ show_nat (unat port)"

definition configured :: "topology \<Rightarrow> bool" where
  "configured tg \<longleftrightarrow>
     (\<exists>cs. component_connection_settings (tg_env tg) Controller = Ok cs \<and>
           tg_controller tg = uri_of (cs_ip cs) (cs_port cs))"

lemma ideal_network: "ideal (network_transport tg depth)" "ideal (controller_calls tg)"
  by (cases depth) (simp_all add: ideal_def client_calls_def controller_calls_def)

lemma network_transport_sel [simp]:
  "tp_initialize (network_transport tg depth) = (\<lambda>ch k to. ask tg sel_initialized (Initialize k to) ch)"
  "tp_route (network_transport tg depth) = (\<lambda>ch k c. ask tg sel_hop (Next_Route k c) ch)"
  "tp_redeem (network_transport tg depth) = (\<lambda>ch k c n. ask tg sel_redeemed (Redeem k c n) ch)"
  "tp_redeem (controller_calls tg) = (\<lambda>ch k c n. ask tg sel_redeemed (Redeem k c n) ch)"
  "tp_receive (network_transport tg depth) = (\<lambda>uri req. at_node tg uri
     (landing_receive (route_client_factory (controller_calls tg) (tg_env tg))
        (\<lambda>_. tg_now tg) (deliver_at uri) req))"
  by (cases depth; simp add: client_calls_def controller_calls_def)+

lemma unat_ucast_u16_u32 [simp]: "unat (ucast (p :: u16) :: u32) = unat p"
  by (simp add: unsigned_ucast_eq take_bit_nat_eq_self unsigned_less [THEN less_trans])

lemma ucast_u16_u32_u16 [simp]: "(ucast (ucast (p :: u16) :: u32) :: u16) = p"
proof -
  have "unat (ucast (ucast p :: u32) :: u16) = unat p"
    using unsigned_less [of p, where ?'a = nat]
    by (simp add: unsigned_ucast_eq take_bit_nat_eq_self take_bit_word_eq_self)
  then show ?thesis by (simp only: word_unat_eq_iff)
qed

lemma ideal_endpoint:
  "ideal tp \<Longrightarrow> get_public_endpoint (tp_uri_try_from tp) cs = Some (uri_of (cs_ip cs) (cs_port cs))"
  by (simp add: ideal_def get_public_endpoint_def to_https_endpoint_def to_endpoint_def uri_of_def)

lemma ideal_controller:
  assumes "ideal tp" and "configured tg"
  shows "open_controller_channel tp (tg_env tg) f net = (Ok (tg_controller tg), net)"
  using assms
  by (auto simp: configured_def open_controller_channel_def lift_outcome_def ideal_endpoint)
     (auto simp: ideal_def open_channel_def prog_simps)

lemma ideal_router_initialize:
  assumes "ideal tp" and "configured tg"
  shows "rf_initialize (route_client_factory tp (tg_env tg))
      (rf_get_router (route_client_factory tp (tg_env tg))) nd =
    (Ok \<lparr>rc_client = Some (tg_controller tg)\<rparr>, nd)"
  by (simp add: route_client_factory_def route_client_initialize_def new_route_client_def on_net_def
      prog_simps ideal_controller [OF assms])

lemma router_redeem_run:
  "tp_redeem tp ch k c n (nd_net nd) = (Ok y, net) \<Longrightarrow>
   rf_redeem (route_client_factory tp env) \<lparr>rc_client = Some ch\<rparr> c k n nd = (Ok y, nd\<lparr>nd_net := net\<rparr>)"
  by (simp add: route_client_factory_def route_client_redeem_def on_net_def prog_simps)

lemma router_get_route_run:
  "tp_route tp ch k c (nd_net nd) = (Ok y, net) \<Longrightarrow>
   rf_get_route (route_client_factory tp env) \<lparr>rc_client = Some ch\<rparr> c k nd = (Ok y, nd\<lparr>nd_net := net\<rparr>)"
  by (simp add: route_client_factory_def route_client_get_route_def on_net_def prog_simps)

lemma router_init_run:
  "tp_initialize tp ch k to (nd_net nd) = (Ok y, net) \<Longrightarrow>
   rf_init_conversation (route_client_factory tp env) \<lparr>rc_client = Some ch\<rparr> k to nd =
     (Ok y, nd\<lparr>nd_net := net\<rparr>)"
  by (simp add: route_client_factory_def route_client_init_conversation_def on_net_def prog_simps)

lemma proxy_call_run:
  assumes "ideal tp"
    and "tp_execute_command tp uri
      \<lparr>cr_conversation_id = c, cr_nonce = n, cr_command = command_code cmd, cr_content = Some content\<rparr>
      (nd_net nd) = (Ok y, net)"
  shows "\<exists>pc. pf_initialize (proxy_client_factory tp) (pf_get_proxy (proxy_client_factory tp) uri cert dn) nd =
      (Ok pc, nd) \<and>
    pf_send_command (proxy_client_factory tp) pc c n cmd content nd = (Ok y, nd\<lparr>nd_net := net\<rparr>)"
  using assms
  by (simp add: proxy_client_factory_def proxy_client_initialize_def new_proxy_client_def on_net_def
      prog_simps open_channel_def ideal_def proxy_client_send_command_def)

lemma proxy_call_fails:
  assumes "ideal tp"
    and "tp_execute_command tp uri
      \<lparr>cr_conversation_id = c, cr_nonce = n, cr_command = command_code cmd, cr_content = Some content\<rparr>
      (nd_net nd) = (Err e, net)"
  shows "\<exists>pc. pf_initialize (proxy_client_factory tp) (pf_get_proxy (proxy_client_factory tp) uri cert dn) nd =
      (Ok pc, nd) \<and>
    pf_send_command (proxy_client_factory tp) pc c n cmd content nd =
      (Err (tp_show_status tp e), nd\<lparr>nd_net := net\<rparr>)"
  using assms
  by (simp add: proxy_client_factory_def proxy_client_initialize_def new_proxy_client_def on_net_def
      prog_simps open_channel_def ideal_def proxy_client_send_command_def)

lemma lander_call_run:
  assumes "ideal tp"
    and "tp_receive tp uri
      \<lparr>tr_conversation_id = c, tr_access_key = k, tr_nonce = n, tr_content = content\<rparr> (nd_net nd) =
        (Ok (), net)"
  shows "\<exists>lc. lf_initialize (landing_client_factory tp) (lf_get_lander (landing_client_factory tp) uri cert dn) nd =
      (Ok lc, nd) \<and>
    lf_send_message (landing_client_factory tp) lc c k n content nd = (Ok (), nd\<lparr>nd_net := net\<rparr>)"
  using assms
  by (simp add: landing_client_factory_def landing_client_initialize_def new_landing_client_def
      on_net_def prog_simps open_channel_def ideal_def landing_client_send_message_def)

subsection \<open>One call of a proxy\<close>

text \<open>The session a hop leads to, and the process that runs there.\<close>

definition session_uri :: "session_info \<Rightarrow> string" where
  "session_uri s = uri_of (ss_on_ip_address s) (ss_on_port_number s)"

definition logged_in_as :: "topology \<Rightarrow> string \<Rightarrow> string \<Rightarrow> bool" where
  "logged_in_as tg uri k \<longleftrightarrow>
     (\<exists>uid. tg_cells tg uri ! ac_session (tg_auth tg uri) = \<lparr>cl_access_key = Some k, cl_uid = Some uid\<rparr>)"

abbreviation service :: "topology \<Rightarrow> (string, string, network) transport \<Rightarrow>
    (string, string route_client, string info_client, (string, string) landing_client,
     (string, string) proxy_client, (string, network) node) proxy_service" where
  "service tg tp \<equiv> new_proxy_service tp (tg_env tg) (tg_debug tg)"

definition send_request :: "string \<Rightarrow> string \<Rightarrow> bytes \<Rightarrow> command_request" where
  "send_request c n content =
     \<lparr>cr_conversation_id = c, cr_nonce = n, cr_command = command_code Send_Command,
      cr_content = Some content\<rparr>"

lemma service_sel [simp]:
  "ps_router_factory (service tg tp) = route_client_factory tp (tg_env tg)"
  "ps_lander_factory (service tg tp) = landing_client_factory tp"
  "ps_proxy_factory (service tg tp) = proxy_client_factory tp"
  "ps_uri_try_from (service tg tp) = tp_uri_try_from tp"
  "ps_authenticator (service tg tp) = auth_client_authenticator tp (tg_env tg)"
  by (simp_all add: new_proxy_service_def)

lemma check_authentication_run:
  assumes "logged_in_as tg uri k"
  shows "check_authentication (service tg tp) (node_at tg uri net) = (Ok k, node_at tg uri net)"
  using assms
  by (auto simp: check_authentication_def prog_simps auth_client_authenticator_def
      client_is_authenticated_def node_session_def node_at_def logged_in_as_def)

lemma proxy_redeem_run:
  assumes "ideal tp" and "configured tg"
    and "tp_redeem tp (tg_controller tg) k c n (nd_net nd) = (Ok y, net)"
  shows "proxy_redeem (service tg tp) c k n nd = (Ok (), nd\<lparr>nd_net := net\<rparr>)"
  using ideal_router_initialize [OF assms(1,2), of nd] router_redeem_run [OF assms(3)]
  by (simp add: proxy_redeem_def Let_def prog_simps)

lemma node_at_net [simp]: "nd_net (node_at tg uri net) = net"
  "(node_at tg uri net)\<lparr>nd_net := net'\<rparr> = node_at tg uri net'"
  by (simp_all add: node_at_def)

text \<open>The hop a proxy is given, passed on to the next proxy or landed.\<close>

lemma proxy_send_forward:
  assumes "ideal tp" and "configured tg"
    and "tp_route tp (tg_controller tg) k c net = (Ok (hop_response n False s), net1)"
    and "tp_execute_command tp (session_uri s) (send_request c n content) net1 = (Ok y, net2)"
  shows "proxy_send (service tg tp) c k content (node_at tg uri net) = (Ok (), node_at tg uri net2)"
proof -
  obtain pc where pc: "pf_initialize (proxy_client_factory tp) (pf_get_proxy (proxy_client_factory tp)
        (session_uri s) (ss_public_key s) (ss_domain_name s)) (node_at tg uri net1) =
      (Ok pc, node_at tg uri net1)"
    "pf_send_command (proxy_client_factory tp) pc c n Send_Command content (node_at tg uri net1) =
      (Ok y, node_at tg uri net2)"
    using proxy_call_run [OF assms(1), of "session_uri s" c n Send_Command content
        "node_at tg uri net1" y net2 "ss_public_key s" "ss_domain_name s"]
      assms(4) [unfolded send_request_def]
    unfolding node_at_net by blast
  have route: "rf_get_route (route_client_factory tp (tg_env tg)) \<lparr>rc_client = Some (tg_controller tg)\<rparr>
      c k (node_at tg uri net) = (Ok (hop_response n False s), node_at tg uri net1)"
    using router_get_route_run [of tp "tg_controller tg" k c "node_at tg uri net"] assms(3) by simp
  show ?thesis
    using ideal_router_initialize [OF assms(1,2), of "node_at tg uri net"] route pc
    by (simp add: proxy_send_def Let_def prog_simps route_command_def ideal_endpoint [OF assms(1)]
        hop_response_def session_uri_def)
qed

lemma proxy_send_fails:
  assumes "ideal tp" and "configured tg"
    and "tp_route tp (tg_controller tg) k c net = (Ok (hop_response n False s), net1)"
    and "tp_execute_command tp (session_uri s) (send_request c n content) net1 = (Err e, net2)"
  shows "\<exists>e'. proxy_send (service tg tp) c k content (node_at tg uri net) = (Err e', node_at tg uri net2)"
proof -
  obtain pc where pc: "pf_initialize (proxy_client_factory tp) (pf_get_proxy (proxy_client_factory tp)
        (session_uri s) (ss_public_key s) (ss_domain_name s)) (node_at tg uri net1) =
      (Ok pc, node_at tg uri net1)"
    "pf_send_command (proxy_client_factory tp) pc c n Send_Command content (node_at tg uri net1) =
      (Err (tp_show_status tp e), node_at tg uri net2)"
    using proxy_call_fails [OF assms(1), of "session_uri s" c n Send_Command content
        "node_at tg uri net1" e net2 "ss_public_key s" "ss_domain_name s"]
      assms(4) [unfolded send_request_def]
    unfolding node_at_net by blast
  have route: "rf_get_route (route_client_factory tp (tg_env tg)) \<lparr>rc_client = Some (tg_controller tg)\<rparr>
      c k (node_at tg uri net) = (Ok (hop_response n False s), node_at tg uri net1)"
    using router_get_route_run [of tp "tg_controller tg" k c "node_at tg uri net"] assms(3) by simp
  show ?thesis
    using ideal_router_initialize [OF assms(1,2), of "node_at tg uri net"] route pc
    by (simp add: proxy_send_def Let_def prog_simps route_command_def ideal_endpoint [OF assms(1)]
        hop_response_def session_uri_def)
qed

lemma proxy_send_land:
  assumes "ideal tp" and "configured tg"
    and "tp_route tp (tg_controller tg) k c net = (Ok (hop_response n True s), net1)"
    and "tp_receive tp (session_uri s)
      \<lparr>tr_conversation_id = c, tr_access_key = k, tr_nonce = n, tr_content = content\<rparr> net1 = (Ok (), net2)"
  shows "proxy_send (service tg tp) c k content (node_at tg uri net) = (Ok (), node_at tg uri net2)"
proof -
  obtain lc where lc: "lf_initialize (landing_client_factory tp) (lf_get_lander (landing_client_factory tp)
        (session_uri s) (ss_public_key s) (ss_domain_name s)) (node_at tg uri net1) =
      (Ok lc, node_at tg uri net1)"
    "lf_send_message (landing_client_factory tp) lc c k n content (node_at tg uri net1) =
      (Ok (), node_at tg uri net2)"
    using lander_call_run [OF assms(1), of "session_uri s" c k n content
        "node_at tg uri net1" net2 "ss_public_key s" "ss_domain_name s"] assms(4)
    unfolding node_at_net by blast
  have route: "rf_get_route (route_client_factory tp (tg_env tg)) \<lparr>rc_client = Some (tg_controller tg)\<rparr>
      c k (node_at tg uri net) = (Ok (hop_response n True s), node_at tg uri net1)"
    using router_get_route_run [of tp "tg_controller tg" k c "node_at tg uri net"] assms(3) by simp
  show ?thesis
    using ideal_router_initialize [OF assms(1,2), of "node_at tg uri net"] route lc
    by (simp add: proxy_send_def Let_def prog_simps land_command_def ideal_endpoint [OF assms(1)]
        hop_response_def session_uri_def)
qed

lemma execute_send_run:
  assumes "ideal tp" and "configured tg" and "logged_in_as tg uri k"
    and "tp_redeem tp (tg_controller tg) k c n net = (Ok y, net1)"
    and "proxy_send (service tg tp) c k content (node_at tg uri net1) = (Ok (), node_at tg uri net2)"
  shows "at_node tg uri (execute_command (service tg tp) (send_request c n content)) net =
    (Ok (Some ''Message sent''), net2)"
  using check_authentication_run [OF assms(3), of tp net]
    proxy_redeem_run [OF assms(1,2), of k c n "node_at tg uri net"] assms(4,5)
  by (simp add: at_node_def execute_command_def send_request_def Let_def prog_simps command_from_i32_def)

lemma execute_send_fails:
  assumes "ideal tp" and "configured tg" and "logged_in_as tg uri k"
    and "tp_redeem tp (tg_controller tg) k c n net = (Ok y, net1)"
    and "proxy_send (service tg tp) c k content (node_at tg uri net1) = (Err e, node_at tg uri net2)"
  shows "at_node tg uri (execute_command (service tg tp) (send_request c n content)) net = (Err e, net2)"
  using check_authentication_run [OF assms(3), of tp net]
    proxy_redeem_run [OF assms(1,2), of k c n "node_at tg uri net"] assms(4,5)
  by (simp add: at_node_def execute_command_def send_request_def Let_def prog_simps command_from_i32_def)

subsection \<open>The controller between two calls\<close>

definition same_sessions :: "world \<Rightarrow> world \<Rightarrow> bool" where
  "same_sessions w w' \<longleftrightarrow>
     live_session w' = live_session w \<and>
     st_proxies (session_repo w') = st_proxies (session_repo w) \<and>
     st_clients (session_repo w') = st_clients (session_repo w) \<and>
     st_controllers (session_repo w') = st_controllers (session_repo w)"

lemma same_sessions_touch: "session_repo w' = session_repo (touch k w) \<Longrightarrow> same_sessions w w'"
proof -
  assume same: "session_repo w' = session_repo (touch k w)"
  have "live_session w' = live_session (touch k w)"
    by (simp add: live_session_def fun_eq_iff same del: touch_sel live_touch)
  with same show ?thesis by (simp add: same_sessions_def)
qed

lemma same_sessions_trans: "same_sessions u v \<Longrightarrow> same_sessions v w \<Longrightarrow> same_sessions u w"
  by (simp add: same_sessions_def)

lemma get_client_live:
  "inmem_get_client u (session_repo w) = Option.bind (st_clients (session_repo w) u) (live_session w)"
  by (simp add: inmem_get_client_def live_session_def split: option.splits)

lemma same_sessions_views:
  assumes "same_sessions w w'"
  shows "live_session w' = live_session w"
    and "st_proxies (session_repo w') = st_proxies (session_repo w)"
    and "inmem_get_client u (session_repo w') = inmem_get_client u (session_repo w)"
    and "hop_target k x w' t = hop_target k x w t"
    and "fresh_session_key u (session_repo w') = fresh_session_key u (session_repo w)"
proof -
  show views: "live_session w' = live_session w"
    "st_proxies (session_repo w') = st_proxies (session_repo w)"
    using assms by (simp_all add: same_sessions_def)
  show client: "inmem_get_client u (session_repo w') = inmem_get_client u (session_repo w)" for u
    using assms by (simp add: get_client_live same_sessions_def)
  show "hop_target k x w' t = hop_target k x w t"
    by (simp add: hop_target_def views client)
  have "dom (st_sessions (session_repo v)) = dom (live_session v)" for v
    by (auto simp: live_session_def)
  then show "fresh_session_key u (session_repo w') = fresh_session_key u (session_repo w)"
    using assms by (simp add: fresh_session_key_def same_sessions_def)
qed

definition placed :: "topology \<Rightarrow> world \<Rightarrow> bool" where
  "placed tg w \<longleftrightarrow>
     (\<forall>u j t. st_proxies (session_repo w) u = Some j \<and> live_session w j = Some t \<longrightarrow>
        logged_in_as tg (session_uri t) j)"

definition serving :: "topology \<Rightarrow> network \<Rightarrow> bool" where
  "serving tg net \<longleftrightarrow>
     (let w = nw_controller net
      in controller_inv (tg_deployment tg) w \<and> picks (tg_pick tg) \<and> placed tg w \<and>
         enumerates (tg_order tg (st_proxies (session_repo w))) (st_proxies (session_repo w)) \<and>
         (\<forall>i \<ge> nw_next net. fresh_uuid (tg_uuid tg i) w))"

definition distinct_ids :: "topology \<Rightarrow> bool" where
  "distinct_ids tg \<longleftrightarrow> inj (create_conversation_id \<circ> tg_uuid tg)"

definition moved :: "world \<Rightarrow> network \<Rightarrow> network" where
  "moved w net = net\<lparr>nw_controller := w, nw_next := Suc (nw_next net)\<rparr>"

lemma moved_sel [simp]:
  "nw_controller (moved w net) = w" "nw_next (moved w net) = Suc (nw_next net)"
  "nw_mail (moved w net) = nw_mail net"
  by (simp_all add: moved_def)

lemma surround_sel [simp]: "su_uuid (surround tg net) = tg_uuid tg (nw_next net)"
  by (simp add: surround_def)

lemma serving_fair: "serving tg net \<Longrightarrow> fair (surround tg net) (nw_controller net)"
  by (simp add: serving_def fair_def Let_def) (simp add: surround_def)

lemma serving_inv: "serving tg net \<Longrightarrow> controller_inv (tg_deployment tg) (nw_controller net)"
  by (simp add: serving_def Let_def)

lemma fresh_uuid_views:
  "fresh_uuid u w \<longleftrightarrow> fresh_session_key u (session_repo w) \<and> (\<forall>c. stored_route w c u = None) \<and>
     stored_conversation w (create_conversation_id u) = None"
  by (simp add: fresh_uuid_def stored_route_def stored_conversation_def)

text \<open>A call that keeps the sessions leaves the controller serving.\<close>

lemma ask_serving:
  assumes serving: "serving tg net" and ids: "distinct_ids tg"
    and ans: "answer (tg_deployment tg) (surround tg net) rq (nw_controller net) = (r, w')"
    and same: "same_sessions (nw_controller net) w'"
    and routes: "\<And>a u. u \<noteq> tg_uuid tg (nw_next net) \<Longrightarrow> stored_route (nw_controller net) a u = None \<Longrightarrow>
      stored_route w' a u = None"
    and convs: "\<And>c. c \<noteq> create_conversation_id (tg_uuid tg (nw_next net)) \<Longrightarrow>
      stored_conversation (nw_controller net) c = None \<Longrightarrow> stored_conversation w' c = None"
  shows "serving tg (moved w' net)"
proof -
  have step: "step (tg_deployment tg) (nw_controller net) (Request (surround tg net) rq) w'"
    by (rule step.request [OF serving_fair [OF serving] ans])
  have inv: "controller_inv (tg_deployment tg) w'"
    by (rule step_inv [OF step serving_inv [OF serving]])
  have fresh: "fresh_uuid (tg_uuid tg i) w'" if i: "Suc (nw_next net) \<le> i" for i
  proof -
    from i have "i \<noteq> nw_next net" by simp
    then have ids': "create_conversation_id (tg_uuid tg i) \<noteq> create_conversation_id (tg_uuid tg (nw_next net))"
      using ids by (auto simp: distinct_ids_def inj_def)
    then have "tg_uuid tg i \<noteq> tg_uuid tg (nw_next net)" by auto
    moreover have "fresh_uuid (tg_uuid tg i) (nw_controller net)"
      using serving i by (simp add: serving_def Let_def)
    ultimately show ?thesis
      using routes convs [OF ids'] by (simp add: fresh_uuid_views same_sessions_views [OF same])
  qed
  have "placed tg w'"
    using serving unfolding serving_def Let_def placed_def same_sessions_views [OF same] by blast
  with serving inv fresh show ?thesis
    by (simp add: serving_def Let_def same_sessions_views [OF same])
qed

subsection \<open>The three calls a message needs\<close>

lemma ask_run:
  assumes "answer (tg_deployment tg) (surround tg net) rq (nw_controller net) = (Ok y, w')"
    and "sel y = Some x"
  shows "ask tg sel rq (tg_controller tg) net = (Ok x, moved w' net)"
  using assms by (simp add: ask_def moved_def)

lemma ask_initialize:
  assumes "serving tg net" and "distinct_ids tg" and "live_session (nw_controller net) k = Some s"
    and "cid = create_conversation_id (tg_uuid tg (nw_next net))"
  obtains w' where "ask tg sel_initialized (Initialize k to) (tg_controller tg) net = (Ok cid, moved w' net)"
    and "serving tg (moved w' net)" and "same_sessions (nw_controller net) w'"
    and "stored_conversation w' = (stored_conversation (nw_controller net))
      (cid \<mapsto> new_conversation cid (ss_uid s) (init_target to) 1)"
    and "stored_route w' = stored_route (nw_controller net)"
proof -
  let ?w = "nw_controller net"
  let ?x = "new_conversation cid (ss_uid s) (init_target to) 1"
  define w' where "w' = (touch k ?w)\<lparr>route_repo := snd (inmem_set_conversation (clock ?w) ?x (route_repo ?w))\<rparr>"
  have x: "conv_id ?x = cid" by (simp add: new_conversation_def)
  have fresh: "rt_conversations (route_repo ?w) cid = None"
    using serving_fair [OF assms(1)] by (simp add: fair_def fresh_uuid_def assms(4))
  have ans: "answer (tg_deployment tg) (surround tg net) (Initialize k to) ?w = (Ok (Initialized cid), w')"
    using fresh
    by (simp add: answer_def map_ok_run initialize_closed assms(3) Let_def assms(4) [symmetric] x w'_def)
  have same: "same_sessions ?w w'" by (rule same_sessions_touch [of _ k]) (simp add: w'_def)
  have views: "stored_conversation w' = (stored_conversation ?w)(cid \<mapsto> ?x)"
    "stored_route w' = stored_route ?w"
    by (auto simp: w'_def stored_conversation_def stored_route_def x fun_eq_iff)
  have "serving tg (moved w' net)"
    by (rule ask_serving [OF assms(1,2) ans same]) (simp_all add: views assms(4))
  moreover have "ask tg sel_initialized (Initialize k to) (tg_controller tg) net = (Ok cid, moved w' net)"
    by (rule ask_run [OF ans]) simp
  ultimately show thesis using that same views by blast
qed

lemma ask_route:
  assumes "serving tg net" and "distinct_ids tg" and "live_session (nw_controller net) k = Some s"
    and "stored_conversation (nw_controller net) c = Some x" and "hop_target k x (nw_controller net) t0"
    and "n = tg_uuid tg (nw_next net)" and "fin = (length (conv_routes x) = 3)"
  obtains t w' where "hop_target k x (nw_controller net) t"
    and "ask tg sel_hop (Next_Route k c) (tg_controller tg) net = (Ok (hop_response n fin t), moved w' net)"
    and "serving tg (moved w' net)" and "same_sessions (nw_controller net) w'"
    and "stored_conversation w' = (stored_conversation (nw_controller net))
      (c \<mapsto> push_route (hop_route n fin t) x)"
    and "stored_route w' = (\<lambda>a. (stored_route (nw_controller net) a)(n \<mapsto> hop_route n fin t))"
proof -
  let ?w = "nw_controller net"
  obtain t w' where t: "hop_target k x ?w t"
    and ans: "answer (tg_deployment tg) (surround tg net) (Next_Route k c) ?w =
      (Ok (Hop (hop_response n fin t)), w')"
    and views: "stored_conversation w' = (stored_conversation ?w)(c \<mapsto> push_route (hop_route n fin t) x)"
      "stored_route w' = (\<lambda>a. (stored_route ?w a)(n \<mapsto> hop_route n fin t))"
    and repo: "session_repo w' = session_repo (touch k ?w)"
    by (rule next_route_run [OF serving_inv serving_fair assms(3-5), OF assms(1,1)])
       (simp only: surround_sel assms(6,7))
  have same: "same_sessions ?w w'" by (rule same_sessions_touch [OF repo])
  have "serving tg (moved w' net)"
    by (rule ask_serving [OF assms(1,2) ans same]) (use assms(4,6) in \<open>auto simp: views\<close>)
  moreover have "ask tg sel_hop (Next_Route k c) (tg_controller tg) net =
      (Ok (hop_response n fin t), moved w' net)"
    by (rule ask_run [OF ans]) simp
  ultimately show thesis using that t same views by blast
qed

lemma ask_redeem:
  assumes "serving tg net" and "distinct_ids tg" and "live_session (nw_controller net) k = Some s"
    and "stored_conversation (nw_controller net) c = Some x"
    and "stored_route (nw_controller net) c n = Some r"
  obtains w' where "ask tg sel_redeemed (Redeem k c n) (tg_controller tg) net =
      (Ok (if rt_end_route r then Some (conv_from x) else None), moved w' net)"
    and "serving tg (moved w' net)" and "same_sessions (nw_controller net) w'"
    and "stored_conversation w' =
      (if rt_end_route r then (stored_conversation (nw_controller net))(c := None)
       else stored_conversation (nw_controller net))"
    and "stored_route w' = (\<lambda>a. (stored_route (nw_controller net) a)(n := None))"
proof -
  let ?w = "nw_controller net"
  define w' where "w' = (touch k ?w)\<lparr>route_repo := redeemed c n (rt_end_route r) (route_repo ?w)\<rparr>"
  have ans: "answer (tg_deployment tg) (surround tg net) (Redeem k c n) ?w =
      (Ok (Redeemed (if rt_end_route r then Some (conv_from x) else None)), w')"
    by (simp add: answer_def map_ok_run redeem_closed assms(3-5) w'_def)
  have same: "same_sessions ?w w'" by (rule same_sessions_touch [of _ k]) (simp add: w'_def)
  have views: "stored_conversation w' =
      (if rt_end_route r then (stored_conversation ?w)(c := None) else stored_conversation ?w)"
    "stored_route w' = (\<lambda>a. (stored_route ?w a)(n := None))"
    by (auto simp: w'_def stored_conversation_def stored_route_def fun_eq_iff)
  have "serving tg (moved w' net)"
    by (rule ask_serving [OF assms(1,2) ans same]) (auto simp: views)
  moreover have "ask tg sel_redeemed (Redeem k c n) (tg_controller tg) net =
      (Ok (if rt_end_route r then Some (conv_from x) else None), moved w' net)"
    by (rule ask_run [OF ans]) simp
  ultimately show thesis using that same views by blast
qed

subsection \<open>A message on its way\<close>

definition indexed_proxy :: "world \<Rightarrow> string \<Rightarrow> session_info \<Rightarrow> bool" where
  "indexed_proxy w j t \<longleftrightarrow>
     (\<exists>u. st_proxies (session_repo w) u = Some j) \<and> live_session w j = Some t"

definition two_proxies :: "world \<Rightarrow> bool" where
  "two_proxies w \<longleftrightarrow> (\<exists>i j s t. i \<noteq> j \<and> indexed_proxy w i s \<and> indexed_proxy w j t)"

lemma two_proxiesI:
  "indexed_proxy w i s \<Longrightarrow> indexed_proxy w j t \<Longrightarrow> i \<noteq> j \<Longrightarrow> two_proxies w"
  by (auto simp: two_proxies_def)

lemma same_sessions_proxies:
  "same_sessions w w' \<Longrightarrow> indexed_proxy w' = indexed_proxy w \<and> two_proxies w' = two_proxies w"
  by (simp add: fun_eq_iff indexed_proxy_def two_proxies_def same_sessions_views)

lemma hop_target_proxy:
  "length (conv_routes x) \<noteq> 3 \<Longrightarrow> hop_target k x w t \<longleftrightarrow> (\<exists>j. j \<noteq> k \<and> indexed_proxy w j t)"
  by (auto simp: hop_target_def indexed_proxy_def)

lemma another_proxy:
  assumes "two_proxies w" and "length (conv_routes x) \<noteq> 3"
  obtains t where "hop_target k x w t"
proof -
  obtain i j s t where "i \<noteq> j" "indexed_proxy w i s" "indexed_proxy w j t"
    using assms(1) by (auto simp: two_proxies_def)
  then have "\<exists>t j. j \<noteq> k \<and> indexed_proxy w j t" by (cases "i = k") auto
  then show thesis using that by (auto simp: hop_target_proxy [OF assms(2)])
qed

lemma proxy_logged_in:
  "serving tg net \<Longrightarrow> indexed_proxy (nw_controller net) j t \<Longrightarrow> logged_in_as tg (session_uri t) j"
  unfolding serving_def Let_def placed_def indexed_proxy_def by blast

text \<open>What became of the network when a message has been delivered.\<close>

definition delivered_to ::
  "topology \<Rightarrow> network \<Rightarrow> string \<Rightarrow> string \<Rightarrow> bytes \<Rightarrow> nat \<Rightarrow> network \<Rightarrow> bool" where
  "delivered_to tg net uri from content calls net' \<longleftrightarrow>
     nw_mail net' = nw_mail net @ [(uri, new_text_message (tg_now tg) from ''myself'' content)] \<and>
     nw_next net' = nw_next net + calls \<and>
     same_sessions (nw_controller net) (nw_controller net')"

lemma receive_run:
  assumes "configured tg" and "distinct_ids tg" and "serving tg net"
    and "live_session (nw_controller net) k = Some s"
    and "stored_conversation (nw_controller net) c = Some x"
    and "stored_route (nw_controller net) c n = Some r" and "rt_end_route r"
  obtains net' where "tp_receive (network_transport tg depth) uri
      \<lparr>tr_conversation_id = c, tr_access_key = k, tr_nonce = n, tr_content = content\<rparr> net = (Ok (), net')"
    and "delivered_to tg net uri (conv_from x) content 1 net'"
    and "stored_conversation (nw_controller net') = (stored_conversation (nw_controller net))(c := None)"
    and "stored_route (nw_controller net') = (\<lambda>a. (stored_route (nw_controller net) a)(n := None))"
proof -
  obtain w' where w': "ask tg sel_redeemed (Redeem k c n) (tg_controller tg) net =
      (Ok (Some (conv_from x)), moved w' net)"
    "same_sessions (nw_controller net) w'"
    "stored_conversation w' = (stored_conversation (nw_controller net))(c := None)"
    "stored_route w' = (\<lambda>a. (stored_route (nw_controller net) a)(n := None))"
    by (rule ask_redeem [OF assms(3,2,4-6)]) (simp add: assms(7))
  let ?f = "route_client_factory (controller_calls tg) (tg_env tg)"
  have redeem: "rf_redeem ?f \<lparr>rc_client = Some (tg_controller tg)\<rparr> c k n (node_at tg uri net) =
      (Ok (Some (conv_from x)), node_at tg uri (moved w' net))"
    using router_redeem_run [of "controller_calls tg" "tg_controller tg" k c n "node_at tg uri net"]
      w'(1) by simp
  let ?net' = "(moved w' net)\<lparr>nw_mail := nw_mail net @
    [(uri, new_text_message (tg_now tg) (conv_from x) ''myself'' content)]\<rparr>"
  have "tp_receive (network_transport tg depth) uri
      \<lparr>tr_conversation_id = c, tr_access_key = k, tr_nonce = n, tr_content = content\<rparr> net = (Ok (), ?net')"
    using redeem ideal_router_initialize [OF ideal_network(2) assms(1), where nd = "node_at tg uri net"]
    by (simp add: at_node_def landing_receive_def prog_simps deliver_at_def)
  then show thesis
    by (rule that) (simp_all add: delivered_to_def w')
qed

text \<open>What a proxy does with a send command before it calls on: a redemption and a route request.\<close>

definition called_on ::
  "topology \<Rightarrow> nat \<Rightarrow> string \<Rightarrow> string \<Rightarrow> string \<Rightarrow> bytes \<Rightarrow> bool \<Rightarrow> session_info \<Rightarrow> network \<Rightarrow>
     network \<Rightarrow> bool" where
  "called_on tg depth c k n content fin t net net' \<longleftrightarrow>
     (if fin
      then tp_receive (network_transport tg depth) (session_uri t)
             \<lparr>tr_conversation_id = c, tr_access_key = k, tr_nonce = n, tr_content = content\<rparr> net = (Ok (), net')
      else \<exists>y. tp_execute_command (network_transport tg depth) (session_uri t)
             (send_request c n content) net = (Ok y, net'))"

lemma proxy_turn:
  assumes "configured tg" and "distinct_ids tg" and "serving tg net"
    and t: "indexed_proxy (nw_controller net) j t"
    and x: "stored_conversation (nw_controller net) c = Some x"
    and r: "stored_route (nw_controller net) c n = Some r" "\<not> rt_end_route r"
    and t0: "hop_target j x (nw_controller net) t0" and fin: "fin = (length (conv_routes x) = 3)"
  obtains t' n' net2 where "hop_target j x (nw_controller net) t'" and "serving tg net2"
    and "same_sessions (nw_controller net) (nw_controller net2)"
    and "nw_mail net2 = nw_mail net" and "nw_next net2 = Suc (Suc (nw_next net))"
    and "\<And>a. stored_route (nw_controller net) a n' = None" and "n' \<noteq> n"
    and "stored_conversation (nw_controller net2) =
      (stored_conversation (nw_controller net))(c \<mapsto> push_route (hop_route n' fin t') x)"
    and "stored_route (nw_controller net2) =
      (\<lambda>a. (stored_route (nw_controller net) a)(n := None, n' \<mapsto> hop_route n' fin t'))"
    and "\<And>content net'. called_on tg depth c j n' content fin t' net2 net' \<Longrightarrow>
      tp_execute_command (network_transport tg (Suc depth)) (session_uri t) (send_request c n content) net =
        (Ok (Some ''Message sent''), net')"
    and "\<And>content e net'. \<not> fin \<Longrightarrow> tp_execute_command (network_transport tg depth) (session_uri t')
        (send_request c n' content) net2 = (Err e, net') \<Longrightarrow>
      \<exists>e'. tp_execute_command (network_transport tg (Suc depth)) (session_uri t) (send_request c n content) net =
        (Err e', net')"
proof -
  let ?tp = "network_transport tg depth"
  have s: "live_session (nw_controller net) j = Some t" using t by (simp add: indexed_proxy_def)
  obtain w1 where w1: "ask tg sel_redeemed (Redeem j c n) (tg_controller tg) net = (Ok None, moved w1 net)"
    "serving tg (moved w1 net)" "same_sessions (nw_controller net) w1"
    "stored_conversation w1 = stored_conversation (nw_controller net)"
    "stored_route w1 = (\<lambda>a. (stored_route (nw_controller net) a)(n := None))"
    by (rule ask_redeem [OF assms(3,2) s x r(1)]) (use r(2) in simp)
  let ?n = "tg_uuid tg (Suc (nw_next net))"
  have live1: "live_session (nw_controller (moved w1 net)) j = Some t"
    and x1: "stored_conversation (nw_controller (moved w1 net)) c = Some x"
    and t01: "hop_target j x (nw_controller (moved w1 net)) t0"
    and n1: "?n = tg_uuid tg (nw_next (moved w1 net))"
    using s x t0 by (simp_all add: same_sessions_views [OF w1(3)] w1(4))
  obtain t' w2 where w2: "hop_target j x (nw_controller (moved w1 net)) t'"
    "ask tg sel_hop (Next_Route j c) (tg_controller tg) (moved w1 net) =
      (Ok (hop_response ?n fin t'), moved w2 (moved w1 net))"
    "serving tg (moved w2 (moved w1 net))" "same_sessions (nw_controller (moved w1 net)) w2"
    "stored_conversation w2 = (stored_conversation (nw_controller (moved w1 net)))
      (c \<mapsto> push_route (hop_route ?n fin t') x)"
    "stored_route w2 = (\<lambda>a. (stored_route (nw_controller (moved w1 net)) a)(?n \<mapsto> hop_route ?n fin t'))"
    by (rule ask_route [OF w1(2) assms(2) live1 x1 t01 n1 fin])
  have unused: "stored_route (nw_controller net) a ?n = None" for a
    using assms(3) by (simp add: serving_def Let_def fresh_uuid_views)
  have calls: "tp_execute_command (network_transport tg (Suc depth)) (session_uri t)
        (send_request c n content) net = (Ok (Some ''Message sent''), net')"
    if "called_on tg depth c j ?n content fin t' (moved w2 (moved w1 net)) net'" for content net'
  proof -
    have sent: "proxy_send (service tg ?tp) c j content (node_at tg (session_uri t) (moved w1 net)) =
        (Ok (), node_at tg (session_uri t) net')"
    proof (cases fin)
      case True
      with that w2(2) show ?thesis
        by (intro proxy_send_land [OF ideal_network(1) assms(1)]) (simp_all add: called_on_def)
    next
      case False
      with that obtain y where y: "tp_execute_command ?tp (session_uri t') (send_request c ?n content)
          (moved w2 (moved w1 net)) = (Ok y, net')"
        by (auto simp: called_on_def)
      from False w2(2) show ?thesis
        by (intro proxy_send_forward [OF ideal_network(1) assms(1) _ y]) simp
    qed
    have redeem: "tp_redeem ?tp (tg_controller tg) j c n net = (Ok None, moved w1 net)"
      using w1(1) by simp
    show ?thesis
      using execute_send_run [OF ideal_network(1) assms(1) proxy_logged_in [OF assms(3) t] redeem sent]
      by simp
  qed
  have fails: "\<exists>e'. tp_execute_command (network_transport tg (Suc depth)) (session_uri t)
        (send_request c n content) net = (Err e', net')"
    if inner: "\<not> fin" and e: "tp_execute_command ?tp (session_uri t') (send_request c ?n content)
        (moved w2 (moved w1 net)) = (Err e, net')" for content e net'
  proof -
    obtain e' where sent: "proxy_send (service tg ?tp) c j content
        (node_at tg (session_uri t) (moved w1 net)) = (Err e', node_at tg (session_uri t) net')"
      using proxy_send_fails [OF ideal_network(1) assms(1) _ e, of j "moved w1 net" "session_uri t"]
        inner w2(2) by auto
    have redeem: "tp_redeem ?tp (tg_controller tg) j c n net = (Ok None, moved w1 net)"
      using w1(1) by simp
    show ?thesis
      using execute_send_fails [OF ideal_network(1) assms(1) proxy_logged_in [OF assms(3) t] redeem sent]
      by simp
  qed
  show thesis
  proof (rule that [OF _ w2(3) _ _ _ unused _ _ _ calls fails])
    show "hop_target j x (nw_controller net) t'"
      using w2(1) by (simp add: same_sessions_views [OF w1(3)])
    show "same_sessions (nw_controller net) (nw_controller (moved w2 (moved w1 net)))"
      using same_sessions_trans [OF w1(3), of w2] w2(4) by simp
    show "?n \<noteq> n" using unused [of c] r(1) by auto
  qed (simp_all add: w1 w2)
qed

lemma relay_last:
  assumes "configured tg" and "distinct_ids tg" and "serving tg net"
    and "indexed_proxy (nw_controller net) j t"
    and "stored_conversation (nw_controller net) c = Some x"
    and "stored_route (nw_controller net) c n = Some r" and "\<not> rt_end_route r"
    and "inmem_get_client (conv_to x) (session_repo (nw_controller net)) = Some cl"
    and "length (conv_routes x) = 3"
  shows "\<exists>net'. tp_execute_command (network_transport tg (Suc m)) (session_uri t)
          (send_request c n content) net = (Ok (Some ''Message sent''), net') \<and>
      delivered_to tg net (session_uri cl) (conv_from x) content 3 net' \<and>
      stored_conversation (nw_controller net') = (stored_conversation (nw_controller net))(c := None) \<and>
      stored_route (nw_controller net') = (\<lambda>a. (stored_route (nw_controller net) a)(n := None))"
proof -
  have fin: "True = (length (conv_routes x) = 3)" using assms(9) by simp
  have target: "hop_target j x (nw_controller net) cl"
    using assms(9,8) by (simp add: hop_target_def)
  obtain t' n' net2 where two: "hop_target j x (nw_controller net) t'" "serving tg net2"
    "same_sessions (nw_controller net) (nw_controller net2)"
    "nw_mail net2 = nw_mail net" "nw_next net2 = Suc (Suc (nw_next net))"
    "\<And>a. stored_route (nw_controller net) a n' = None" "n' \<noteq> n"
    "stored_conversation (nw_controller net2) =
      (stored_conversation (nw_controller net))(c \<mapsto> push_route (hop_route n' True t') x)"
    "stored_route (nw_controller net2) =
      (\<lambda>a. (stored_route (nw_controller net) a)(n := None, n' \<mapsto> hop_route n' True t'))"
    and call: "\<And>content net'. called_on tg m c j n' content True t' net2 net' \<Longrightarrow>
      tp_execute_command (network_transport tg (Suc m)) (session_uri t) (send_request c n content) net =
        (Ok (Some ''Message sent''), net')"
    by (rule proxy_turn [OF assms(1-7) target fin, of m]) blast
  have "t' = cl" using two(1) target assms(9) by (simp add: hop_target_def)
  have live: "live_session (nw_controller net2) j = Some t"
    using assms(4) by (simp add: indexed_proxy_def same_sessions_views [OF two(3)])
  have conv: "stored_conversation (nw_controller net2) c = Some (push_route (hop_route n' True t') x)"
    and route: "stored_route (nw_controller net2) c n' = Some (hop_route n' True t')"
    using two(8,9) by simp_all
  obtain net' where net': "tp_receive (network_transport tg (m)) (session_uri cl)
        \<lparr>tr_conversation_id = c, tr_access_key = j, tr_nonce = n', tr_content = content\<rparr> net2 = (Ok (), net')"
    "delivered_to tg net2 (session_uri cl) (conv_from (push_route (hop_route n' True t') x)) content 1 net'"
    "stored_conversation (nw_controller net') = (stored_conversation (nw_controller net2))(c := None)"
    "stored_route (nw_controller net') = (\<lambda>a. (stored_route (nw_controller net2) a)(n' := None))"
    by (rule receive_run [OF assms(1,2) two(2) live conv route]) simp
  have "stored_conversation (nw_controller net') = (stored_conversation (nw_controller net))(c := None)"
    using net'(3) two(8) by simp
  moreover have "stored_route (nw_controller net') = (\<lambda>a. (stored_route (nw_controller net) a)(n := None))"
    using net'(4) two(6,9) by (auto simp: fun_eq_iff)
  moreover have "delivered_to tg net (session_uri cl) (conv_from x) content (3) net'"
    using net'(2) two(3-5) by (auto simp: delivered_to_def intro: same_sessions_trans)
  moreover have "called_on tg m c j n' content True t' net2 net'"
    using net'(1) \<open>t' = cl\<close> by (simp add: called_on_def)
  ultimately show ?thesis using call by blast
qed

text \<open>
  A send command that reaches a proxy with the nonce of an inner hop, \<open>h\<close> proxies before the last:
  the message is delivered, in two calls to the controller for each proxy and one for the client.
\<close>

lemma relay:
  assumes "configured tg" and "distinct_ids tg"
  shows "serving tg net \<Longrightarrow> two_proxies (nw_controller net) \<Longrightarrow>
    indexed_proxy (nw_controller net) j t \<Longrightarrow>
    stored_conversation (nw_controller net) c = Some x \<Longrightarrow> length (conv_routes x) + h = 3 \<Longrightarrow>
    stored_route (nw_controller net) c n = Some r \<Longrightarrow> \<not> rt_end_route r \<Longrightarrow>
    inmem_get_client (conv_to x) (session_repo (nw_controller net)) = Some cl \<Longrightarrow>
    \<exists>net'. tp_execute_command (network_transport tg (Suc (h + m))) (session_uri t)
          (send_request c n content) net = (Ok (Some ''Message sent''), net') \<and>
      delivered_to tg net (session_uri cl) (conv_from x) content (2 * h + 3) net' \<and>
      stored_conversation (nw_controller net') = (stored_conversation (nw_controller net))(c := None) \<and>
      stored_route (nw_controller net') = (\<lambda>a. (stored_route (nw_controller net) a)(n := None))"
proof (induction h arbitrary: net j t x n r)
  case 0
  show ?case
    using relay_last [OF assms "0.prems"(1,3,4,6,7,8), of m content] "0.prems"(5)
    by (simp only: add_0 add_0_right mult_0_right)
next
  case (Suc h)
  have fin: "False = (length (conv_routes x) = 3)" using Suc.prems(5) by simp
  obtain t0 where target: "hop_target j x (nw_controller net) t0"
    by (rule another_proxy [OF Suc.prems(2)]) (use fin in auto)
  obtain t' n' net2 where two: "hop_target j x (nw_controller net) t'" "serving tg net2"
    "same_sessions (nw_controller net) (nw_controller net2)"
    "nw_mail net2 = nw_mail net" "nw_next net2 = Suc (Suc (nw_next net))"
    "\<And>a. stored_route (nw_controller net) a n' = None" "n' \<noteq> n"
    "stored_conversation (nw_controller net2) =
      (stored_conversation (nw_controller net))(c \<mapsto> push_route (hop_route n' False t') x)"
    "stored_route (nw_controller net2) =
      (\<lambda>a. (stored_route (nw_controller net) a)(n := None, n' \<mapsto> hop_route n' False t'))"
    and call: "\<And>content net'. called_on tg (Suc h + m) c j n' content False t' net2 net' \<Longrightarrow>
      tp_execute_command (network_transport tg (Suc (Suc h + m))) (session_uri t)
        (send_request c n content) net = (Ok (Some ''Message sent''), net')"
    by (rule proxy_turn [OF assms Suc.prems(1,3,4,6,7) target fin, of "Suc h + m"]) blast
  obtain j' where "indexed_proxy (nw_controller net) j' t'"
    using two(1) fin by (auto simp: hop_target_proxy)
  then have proxies: "two_proxies (nw_controller net2)" "indexed_proxy (nw_controller net2) j' t'"
    using Suc.prems(2) same_sessions_proxies [OF two(3)] by simp_all
  let ?x = "push_route (hop_route n' False t') x"
  have "\<exists>net'. tp_execute_command (network_transport tg (Suc (h + m))) (session_uri t')
        (send_request c n' content) net2 = (Ok (Some ''Message sent''), net') \<and>
      delivered_to tg net2 (session_uri cl) (conv_from ?x) content (2 * h + 3) net' \<and>
      stored_conversation (nw_controller net') = (stored_conversation (nw_controller net2))(c := None) \<and>
      stored_route (nw_controller net') = (\<lambda>a. (stored_route (nw_controller net2) a)(n' := None))"
    by (rule Suc.IH [OF two(2) proxies, where r = "hop_route n' False t'"])
       (use two(8,9) Suc.prems(5,8) in \<open>simp_all add: same_sessions_views [OF two(3)]\<close>)
  then obtain net' where net': "tp_execute_command (network_transport tg (Suc (h + m))) (session_uri t')
        (send_request c n' content) net2 = (Ok (Some ''Message sent''), net')"
    "delivered_to tg net2 (session_uri cl) (conv_from ?x) content (2 * h + 3) net'"
    "stored_conversation (nw_controller net') = (stored_conversation (nw_controller net2))(c := None)"
    "stored_route (nw_controller net') = (\<lambda>a. (stored_route (nw_controller net2) a)(n' := None))"
    by blast
  have "stored_conversation (nw_controller net') = (stored_conversation (nw_controller net))(c := None)"
    using net'(3) two(8) by simp
  moreover have "stored_route (nw_controller net') = (\<lambda>a. (stored_route (nw_controller net) a)(n := None))"
    using net'(4) two(6,9) by (auto simp: fun_eq_iff)
  moreover have "delivered_to tg net (session_uri cl) (conv_from x) content (2 * Suc h + 3) net'"
    using net'(2) two(3-5) by (auto simp: delivered_to_def intro: same_sessions_trans)
  moreover have "called_on tg (Suc h + m) c j n' content False t' net2 net'"
    using net'(1) by (auto simp: called_on_def)
  ultimately show ?case using call by blast
qed

lemma ideal_https:
  "ideal tp \<Longrightarrow> to_https_endpoint (tp_uri_try_from tp) ip (ucast (p :: u16)) = Ok (uri_of ip p)"
  by (simp add: ideal_def to_https_endpoint_def to_endpoint_def uri_of_def)

text \<open>What the commander does before it calls on: it opens a conversation and asks for the first hop.\<close>

lemma commander_initialize_run:
  assumes "ideal tp" and "configured tg"
    and "tp_initialize tp (tg_controller tg) k to net = (Ok c, net1)"
    and "tp_route tp (tg_controller tg) k c net1 = (Ok (hop_response n False s), net2)"
  shows "commander_initialize (new_commander tp (tg_env tg) k) to (node_at tg uri net) =
    (Ok \<lparr>fh_conversation_id = c, fh_nonce = n, fh_public_key = ss_public_key s,
         fh_domain_name = ss_domain_name s, fh_uri = session_uri s\<rparr>, node_at tg uri net2)"
proof -
  have init: "rf_init_conversation (route_client_factory tp (tg_env tg))
      \<lparr>rc_client = Some (tg_controller tg)\<rparr> k to (node_at tg uri net) = (Ok c, node_at tg uri net1)"
    using router_init_run [of tp "tg_controller tg" k to "node_at tg uri net"] assms(3) by simp
  have route: "rf_get_route (route_client_factory tp (tg_env tg)) \<lparr>rc_client = Some (tg_controller tg)\<rparr>
      c k (node_at tg uri net1) = (Ok (hop_response n False s), node_at tg uri net2)"
    using router_get_route_run [of tp "tg_controller tg" k c "node_at tg uri net1"] assms(4) by simp
  have endpoint: "to_https_endpoint (tp_uri_try_from tp) (ss_on_ip_address s)
      (ucast (ss_on_port_number s)) = Ok (session_uri s)"
    by (simp add: ideal_https [OF assms(1)] session_uri_def)
  show ?thesis
    using ideal_router_initialize [OF assms(1,2), where nd = "node_at tg uri net"] init route endpoint
    by (simp add: commander_initialize_def new_commander_def Let_def prog_simps hop_response_def lift_outcome_def)
qed

lemma commander_run:
  assumes "ideal tp" and "configured tg"
    and "tp_initialize tp (tg_controller tg) k to net = (Ok c, net1)"
    and "tp_route tp (tg_controller tg) k c net1 = (Ok (hop_response n False s), net2)"
    and "tp_execute_command tp (session_uri s) (send_request c n content) net2 = (Ok y, net3)"
  shows "commander_send_message (new_commander tp (tg_env tg) k) to content (node_at tg uri net) =
    (Ok y, node_at tg uri net3)"
  using proxy_call_run [OF assms(1), of "session_uri s" c n Send_Command content
      "node_at tg uri net2" y net3 "ss_public_key s" "ss_domain_name s"] assms(5)
  by (auto simp: commander_send_message_def commander_call_def Let_def prog_simps send_request_def
      commander_initialize_run [OF assms(1-4)]) (auto simp: new_commander_def)

lemma commander_fails:
  assumes "ideal tp" and "configured tg"
    and "tp_initialize tp (tg_controller tg) k to net = (Ok c, net1)"
    and "tp_route tp (tg_controller tg) k c net1 = (Ok (hop_response n False s), net2)"
    and "tp_execute_command tp (session_uri s) (send_request c n content) net2 = (Err e, net3)"
  shows "commander_send_message (new_commander tp (tg_env tg) k) to content (node_at tg uri net) =
    (Err (tp_show_status tp e), node_at tg uri net3)"
  using proxy_call_fails [OF assms(1), of "session_uri s" c n Send_Command content
      "node_at tg uri net2" e net3 "ss_public_key s" "ss_domain_name s"] assms(5)
  by (auto simp: commander_send_message_def commander_call_def Let_def prog_simps send_request_def
      commander_initialize_run [OF assms(1-4)]) (auto simp: new_commander_def)

text \<open>The first two calls of a message: the conversation is open and the first hop is issued.\<close>

lemma first_hop_run:
  assumes "distinct_ids tg" and "serving tg net"
    and "two_proxies (nw_controller net)" and "live_session (nw_controller net) k = Some s"
  obtains c x n j t net1 net2 where "x = new_conversation c (ss_uid s) (init_target to) 1"
    and "ask tg sel_initialized (Initialize k to) (tg_controller tg) net = (Ok c, net1)"
    and "ask tg sel_hop (Next_Route k c) (tg_controller tg) net1 = (Ok (hop_response n False t), net2)"
    and "serving tg net2" and "same_sessions (nw_controller net) (nw_controller net2)"
    and "nw_mail net2 = nw_mail net" and "nw_next net2 = nw_next net + 2"
    and "indexed_proxy (nw_controller net) j t"
    and "stored_conversation (nw_controller net) c = None"
    and "\<And>a. stored_route (nw_controller net) a n = None"
    and "stored_conversation (nw_controller net2) =
      (stored_conversation (nw_controller net))(c \<mapsto> push_route (hop_route n False t) x)"
    and "stored_route (nw_controller net2) =
      (\<lambda>a. (stored_route (nw_controller net) a)(n \<mapsto> hop_route n False t))"
proof -
  define c where "c = create_conversation_id (tg_uuid tg (nw_next net))"
  define x where "x = new_conversation c (ss_uid s) (init_target to) 1"
  have x: "conv_routes x = []" by (simp add: x_def new_conversation_def)
  obtain w1 where w1: "ask tg sel_initialized (Initialize k to) (tg_controller tg) net = (Ok c, moved w1 net)"
    "serving tg (moved w1 net)" "same_sessions (nw_controller net) w1"
    "stored_conversation w1 = (stored_conversation (nw_controller net))(c \<mapsto> x)"
    "stored_route w1 = stored_route (nw_controller net)"
    unfolding x_def by (rule ask_initialize [OF assms(2,1,4) c_def])
  define n where "n = tg_uuid tg (nw_next (moved w1 net))"
  have unused: "stored_conversation (nw_controller net) c = None"
    "\<And>a. stored_route (nw_controller net) a n = None"
    using assms(2) by (simp_all add: serving_def Let_def fresh_uuid_views c_def n_def)
  have live1: "live_session (nw_controller (moved w1 net)) k = Some s"
    and x1: "stored_conversation (nw_controller (moved w1 net)) c = Some x"
    using assms(4) by (simp_all add: same_sessions_views [OF w1(3)] w1(4))
  have fin: "False = (length (conv_routes x) = 3)" by (simp add: x)
  have "two_proxies (nw_controller (moved w1 net))"
    using assms(3) same_sessions_proxies [OF w1(3)] by simp
  then obtain t0 where t0: "hop_target k x (nw_controller (moved w1 net)) t0"
    by (rule another_proxy [of _ x k]) (simp_all add: x)
  obtain t w2 where w2: "hop_target k x (nw_controller (moved w1 net)) t"
    "ask tg sel_hop (Next_Route k c) (tg_controller tg) (moved w1 net) =
      (Ok (hop_response n False t), moved w2 (moved w1 net))"
    "serving tg (moved w2 (moved w1 net))" "same_sessions (nw_controller (moved w1 net)) w2"
    "stored_conversation w2 = (stored_conversation (nw_controller (moved w1 net)))
      (c \<mapsto> push_route (hop_route n False t) x)"
    "stored_route w2 = (\<lambda>a. (stored_route (nw_controller (moved w1 net)) a)(n \<mapsto> hop_route n False t))"
    by (rule ask_route [OF w1(2) assms(1) live1 x1 t0 n_def fin])
  obtain j where j: "indexed_proxy (nw_controller net) j t"
    using w2(1) same_sessions_proxies [OF w1(3)] by (auto simp: hop_target_proxy x)
  have same: "same_sessions (nw_controller net) (nw_controller (moved w2 (moved w1 net)))"
    using same_sessions_trans [OF w1(3)] w2(4) by simp
  show thesis
    by (rule that [OF x_def w1(1) w2(2,3) same _ _ j unused]) (simp_all add: w1(4,5) w2(5,6))
qed

text \<open>
  The whole way of a message: the conversation is opened, the first hop issued, and the command, given to
  the proxy there, ends in the delivery and leaves nothing of the conversation behind.
\<close>

lemma delivery_run:
  assumes "configured tg" and "distinct_ids tg" and "serving tg net"
    and "two_proxies (nw_controller net)" and "live_session (nw_controller net) k = Some s"
    and "inmem_get_client (init_target to) (session_repo (nw_controller net)) = Some cl"
  obtains c n t net1 net2 net' where
      "ask tg sel_initialized (Initialize k to) (tg_controller tg) net = (Ok c, net1)"
    and "ask tg sel_hop (Next_Route k c) (tg_controller tg) net1 = (Ok (hop_response n False t), net2)"
    and "tp_execute_command (network_transport tg (3 + m)) (session_uri t) (send_request c n content) net2 =
        (Ok (Some ''Message sent''), net')"
    and "delivered_to tg net (session_uri cl) (ss_uid s) content 9 net'"
    and "stored_conversation (nw_controller net') = stored_conversation (nw_controller net)"
    and "stored_route (nw_controller net') = stored_route (nw_controller net)"
proof -
  let ?tp = "network_transport tg (3 + m)"
  obtain c x n j t net1 net2 where x: "x = new_conversation c (ss_uid s) (init_target to) 1"
    and calls: "ask tg sel_initialized (Initialize k to) (tg_controller tg) net = (Ok c, net1)"
      "ask tg sel_hop (Next_Route k c) (tg_controller tg) net1 = (Ok (hop_response n False t), net2)"
    and net2: "serving tg net2" "same_sessions (nw_controller net) (nw_controller net2)"
      "nw_mail net2 = nw_mail net" "nw_next net2 = nw_next net + 2"
    and j: "indexed_proxy (nw_controller net) j t"
    and unused: "stored_conversation (nw_controller net) c = None"
      "\<And>a. stored_route (nw_controller net) a n = None"
    and views: "stored_conversation (nw_controller net2) =
        (stored_conversation (nw_controller net))(c \<mapsto> push_route (hop_route n False t) x)"
      "stored_route (nw_controller net2) =
        (\<lambda>a. (stored_route (nw_controller net) a)(n \<mapsto> hop_route n False t))"
    by (rule first_hop_run [OF assms(2-5), where to = to]) blast
  have x': "conv_routes x = []" "conv_from x = ss_uid s" "conv_to x = init_target to"
    by (simp_all add: x new_conversation_def)
  have proxies: "two_proxies (nw_controller net2)" "indexed_proxy (nw_controller net2) j t"
    using assms(4) j same_sessions_proxies [OF net2(2)] by simp_all
  let ?x = "push_route (hop_route n False t) x"
  have "\<exists>net'. tp_execute_command (network_transport tg (Suc (2 + m))) (session_uri t)
        (send_request c n content) net2 = (Ok (Some ''Message sent''), net') \<and>
      delivered_to tg net2 (session_uri cl) (conv_from ?x) content (2 * 2 + 3) net' \<and>
      stored_conversation (nw_controller net') = (stored_conversation (nw_controller net2))(c := None) \<and>
      stored_route (nw_controller net') = (\<lambda>a. (stored_route (nw_controller net2) a)(n := None))"
    by (rule relay [OF assms(1,2) net2(1) proxies, where r = "hop_route n False t"])
       (use assms(6) in \<open>simp_all add: views x' same_sessions_views [OF net2(2)]\<close>)
  then obtain net' where net': "tp_execute_command ?tp (session_uri t) (send_request c n content) net2 =
        (Ok (Some ''Message sent''), net')"
    "delivered_to tg net2 (session_uri cl) (ss_uid s) content 7 net'"
    "stored_conversation (nw_controller net') = (stored_conversation (nw_controller net2))(c := None)"
    "stored_route (nw_controller net') = (\<lambda>a. (stored_route (nw_controller net2) a)(n := None))"
    by (auto simp: x' numeral_3_eq_3)
  have "delivered_to tg net (session_uri cl) (ss_uid s) content 9 net'"
    using net'(2) net2(2-4) by (auto simp: delivered_to_def intro: same_sessions_trans)
  moreover have "stored_conversation (nw_controller net') = stored_conversation (nw_controller net)"
    "stored_route (nw_controller net') = stored_route (nw_controller net)"
    using unused by (auto simp: net'(3,4) views fun_eq_iff)
  ultimately show thesis by (rule that [OF calls net'(1)])
qed

lemma message_run:
  assumes "configured tg" and "distinct_ids tg" and "serving tg net"
    and "two_proxies (nw_controller net)" and "live_session (nw_controller net) k = Some s"
    and "inmem_get_client (init_target to) (session_repo (nw_controller net)) = Some cl"
  shows "\<exists>net'. commander_send_message (new_commander (network_transport tg (3 + m)) (tg_env tg) k)
        to content (node_at tg uri net) = (Ok (Some ''Message sent''), node_at tg uri net')
    \<and> delivered_to tg net (session_uri cl) (ss_uid s) content 9 net'
    \<and> stored_conversation (nw_controller net') = stored_conversation (nw_controller net)
    \<and> stored_route (nw_controller net') = stored_route (nw_controller net)"
proof (rule delivery_run [OF assms, of m content])
  fix c n t net1 net2 net'
  assume calls: "ask tg sel_initialized (Initialize k to) (tg_controller tg) net = (Ok c, net1)"
      "ask tg sel_hop (Next_Route k c) (tg_controller tg) net1 = (Ok (hop_response n False t), net2)"
    and sent: "tp_execute_command (network_transport tg (3 + m)) (session_uri t) (send_request c n content) net2 =
        (Ok (Some ''Message sent''), net')"
    and kept: "delivered_to tg net (session_uri cl) (ss_uid s) content 9 net'"
      "stored_conversation (nw_controller net') = stored_conversation (nw_controller net)"
      "stored_route (nw_controller net') = stored_route (nw_controller net)"
  have "commander_send_message (new_commander (network_transport tg (3 + m)) (tg_env tg) k) to content
      (node_at tg uri net) = (Ok (Some ''Message sent''), node_at tg uri net')"
    by (rule commander_run [OF ideal_network(1) assms(1) _ _ sent, of k to net net1 uri])
       (simp_all add: calls)
  with kept show ?thesis by blast
qed

text \<open>
  C3. A message arrives, end to end.  Let the controller be in a state that satisfies its invariant
  with at least two proxies indexed and live, each logged in at the address its session names, let the sender have a
  session and the recipient be a client with one, and let the identifiers still to be drawn be
  distinct and unused.  Then sending succeeds: the text is delivered once, at the recipient's address
  and under the sender's name, after nine calls to the controller, over three proxies (command calls
  nested three deep suffice), and the controller keeps nothing of it: the conversations and routes
  it stores are those it stored before.
\<close>

theorem message_delivered:
  assumes "configured tg" and "distinct_ids tg" and "serving tg net"
    and "two_proxies (nw_controller net)" and "live_session (nw_controller net) k = Some s"
    and "inmem_get_client (init_target to) (session_repo (nw_controller net)) = Some cl"
  shows "\<exists>net'. commander_send_message (new_commander (network_transport tg (3 + m)) (tg_env tg) k)
        to content (node_at tg uri net) = (Ok (Some ''Message sent''), node_at tg uri net')
    \<and> delivered_to tg net (session_uri cl) (ss_uid s) content 9 net'
    \<and> stored_conversation (nw_controller net') = stored_conversation (nw_controller net)
    \<and> stored_route (nw_controller net') = stored_route (nw_controller net)"
  by (rule message_run [OF assms])

end
