(* ===== verification/Network_Reports.thy ===== *)
theory Network_Reports
  imports Network
begin

section \<open>A network that loses calls, and what a sender is told\<close>

text \<open>
  The network of \<open>Network\<close> never fails.  Here the transport is one that does, in any way whatsoever: an
  address may not parse, a TLS configuration be refused, a connection not come about, a request be lost
  before it is served and a reply afterwards, and the channel between the landing service and
  the listener may be closed, so that the text is dropped, which the service does not notice.  While a
  request is on its way anything may happen to the controller.  The state of the network is any
  too: sessions may be missing, processes not logged in, nonces unknown.

  A small calculus: \<open>quiet\<close> programs deliver nothing, \<open>reports\<close> ones deliver at most one message.  It closes
  over the combinators the proxy, the client and the landing service are written with.
\<close>

subsection \<open>The transport\<close>

datatype remote =
    To_Controller request
  | Command_To string command_request
  | Text_To string text_request

text \<open>
  What may go wrong is a function of the call, of the depth it is made at and of the state it finds.
\<close>

record faults =
  fl_uri :: "string \<rightharpoonup> string"
  fl_tls :: "bytes \<Rightarrow> string \<Rightarrow> string option"
  fl_refused :: "string \<Rightarrow> network \<Rightarrow> string option"
  fl_lost :: "nat \<Rightarrow> remote \<Rightarrow> network \<Rightarrow> status option"
  fl_meanwhile :: "nat \<Rightarrow> remote \<Rightarrow> network \<Rightarrow> world"
  fl_reply_lost :: "nat \<Rightarrow> remote \<Rightarrow> network \<Rightarrow> status option"
  fl_closed :: "string \<Rightarrow> network \<Rightarrow> bool"
  fl_show :: "status \<Rightarrow> string"

definition disturbed ::
  "faults \<Rightarrow> nat \<Rightarrow> remote \<Rightarrow> (network, 'a, status) prog \<Rightarrow> (network, 'a, status) prog" where
  "disturbed fl depth c p net =
     (case fl_lost fl depth c net of
        Some e \<Rightarrow> (Err e, net)
      | None \<Rightarrow>
          (case p (net\<lparr>nw_controller := fl_meanwhile fl depth c net\<rparr>) of
             (r, net') \<Rightarrow>
               (case fl_reply_lost fl depth c net' of
                  Some e \<Rightarrow> (Err e, net')
                | None \<Rightarrow> (r, net'))))"

definition faulty_ask ::
  "faults \<Rightarrow> topology \<Rightarrow> nat \<Rightarrow> (reply \<rightharpoonup> 'a) \<Rightarrow> request \<Rightarrow> string \<Rightarrow> (network, 'a, status) prog" where
  "faulty_ask fl tg depth sel rq ch = disturbed fl depth (To_Controller rq) (ask tg sel rq ch)"

definition faulty_controller_calls :: "faults \<Rightarrow> topology \<Rightarrow> nat \<Rightarrow> (string, string, network) transport" where
  "faulty_controller_calls fl tg depth =
     \<lparr>tp_uri_try_from = fl_uri fl, tp_tls_error = fl_tls fl,
      tp_connect = (\<lambda>uri _ _ net. (case fl_refused fl uri net of Some e \<Rightarrow> (Err e, net) | None \<Rightarrow> (Ok uri, net))),
      tp_login = (\<lambda>ch r. faulty_ask fl tg depth sel_login (Login r) ch),
      tp_logout = (\<lambda>ch k. faulty_ask fl tg depth sel_logout (Logout k) ch),
      tp_ping = (\<lambda>ch k. faulty_ask fl tg depth sel_pong (Ping k) ch),
      tp_initialize = (\<lambda>ch k to. faulty_ask fl tg depth sel_initialized (Initialize k to) ch),
      tp_route = (\<lambda>ch k c. faulty_ask fl tg depth sel_hop (Next_Route k c) ch),
      tp_redeem = (\<lambda>ch k c n. faulty_ask fl tg depth sel_redeemed (Redeem k c n) ch),
      tp_status = (\<lambda>ch k. faulty_ask fl tg depth sel_status (Status k) ch),
      tp_execute_command = (\<lambda>_ _. throw lost), tp_receive = (\<lambda>_ _. throw lost),
      tp_show_status = fl_show fl\<rparr>"

text \<open>\<^verbatim>\<open>_ = self.tx.send(message).await\<close>: a closed channel drops the message, and the result is ignored.\<close>

definition deliver_or_drop ::
  "faults \<Rightarrow> string \<Rightarrow> text_message \<Rightarrow> (string, network) node \<Rightarrow> (string, network) node" where
  "deliver_or_drop fl uri m nd = (if fl_closed fl uri (nd_net nd) then nd else deliver_at uri m nd)"

definition faulty_client_calls :: "faults \<Rightarrow> topology \<Rightarrow> nat \<Rightarrow> (string, string, network) transport" where
  "faulty_client_calls fl tg depth = (faulty_controller_calls fl tg depth)
     \<lparr>tp_receive := (\<lambda>uri req. disturbed fl depth (Text_To uri req) (at_node tg uri
        (landing_receive (route_client_factory (faulty_controller_calls fl tg depth) (tg_env tg))
           (\<lambda>_. tg_now tg) (deliver_or_drop fl uri) req)))\<rparr>"

fun faulty_transport :: "faults \<Rightarrow> topology \<Rightarrow> nat \<Rightarrow> (string, string, network) transport" where
  "faulty_transport fl tg 0 = faulty_client_calls fl tg 0"
| "faulty_transport fl tg (Suc depth) = (faulty_client_calls fl tg (Suc depth))
     \<lparr>tp_execute_command := (\<lambda>uri req. disturbed fl (Suc depth) (Command_To uri req) (at_node tg uri
        (execute_command
           (new_proxy_service (faulty_transport fl tg depth) (tg_env tg) (tg_debug tg)) req)))\<rparr>"

text \<open>The network of \<open>Network\<close> is the one in which nothing goes wrong.\<close>

definition no_faults :: faults where
  "no_faults =
     \<lparr>fl_uri = Some, fl_tls = (\<lambda>_ _. None), fl_refused = (\<lambda>_ _. None), fl_lost = (\<lambda>_ _ _. None),
      fl_meanwhile = (\<lambda>_ _. nw_controller), fl_reply_lost = (\<lambda>_ _ _. None),
      fl_closed = (\<lambda>_ _. False), fl_show = st_message\<rparr>"

definition calm_at :: "faults \<Rightarrow> nat \<Rightarrow> bool" where
  "calm_at fl depth \<longleftrightarrow>
     (\<forall>c net. fl_lost fl depth c net = None \<and> fl_meanwhile fl depth c net = nw_controller net
        \<and> fl_reply_lost fl depth c net = None)"

definition calm :: "faults \<Rightarrow> bool" where
  "calm fl \<longleftrightarrow> fl_uri fl = Some \<and> fl_tls fl = (\<lambda>_ _. None) \<and> fl_refused fl = (\<lambda>_ _. None)
     \<and> fl_closed fl = (\<lambda>_ _. False) \<and> fl_show fl = st_message"

lemma calm_disturbed: "calm_at fl depth \<Longrightarrow> disturbed fl depth c p = p"
  by (simp add: fun_eq_iff disturbed_def calm_at_def split: prod.splits)

lemma calm_client_calls:
  assumes "calm fl" and "calm_at fl depth"
  shows "faulty_controller_calls fl tg depth = controller_calls tg"
    and "faulty_client_calls fl tg depth = client_calls tg"
proof -
  have "deliver_or_drop fl = deliver_at"
    using assms(1) by (simp add: fun_eq_iff deliver_or_drop_def calm_def)
  moreover have "(\<lambda>uri (_ :: bytes) (_ :: string). Pair (Ok uri)) =
      (\<lambda>uri _ _. ret uri :: (network, string, string) prog)"
    by (simp add: fun_eq_iff ret_def)
  then show "faulty_controller_calls fl tg depth = controller_calls tg"
    using assms(1) by (simp add: faulty_controller_calls_def controller_calls_def faulty_ask_def
        calm_disturbed [OF assms(2)] calm_def)
  ultimately show "faulty_client_calls fl tg depth = client_calls tg"
    by (simp add: faulty_client_calls_def client_calls_def calm_disturbed [OF assms(2)])
qed

lemma calm_network:
  "calm fl \<Longrightarrow> (\<And>d. d \<le> depth \<Longrightarrow> calm_at fl d) \<Longrightarrow> faulty_transport fl tg depth = network_transport tg depth"
  by (induction depth) (simp_all add: calm_client_calls calm_disturbed)

lemma no_faults_network: "faulty_transport no_faults tg depth = network_transport tg depth"
  by (rule calm_network) (simp_all add: calm_def calm_at_def no_faults_def)

subsection \<open>Programs that deliver at most one message\<close>

named_theorems quiet_rules \<open>programs that deliver nothing\<close>

definition quiet :: "('w \<Rightarrow> 'm) \<Rightarrow> ('w, 'a, 'e) prog \<Rightarrow> bool" where
  "quiet mail p \<longleftrightarrow> (\<forall>w. mail (snd (p w)) = mail w)"

text \<open>
  \<open>D\<close> allows a program that ends well to have dropped the message, \<open>L\<close> one that fails to have delivered it.
\<close>

definition reports ::
  "('w \<Rightarrow> ('u \<times> 'm) list) \<Rightarrow> ('m \<Rightarrow> bool) \<Rightarrow> bool \<Rightarrow> bool \<Rightarrow> ('a \<Rightarrow> bool) \<Rightarrow> ('w, 'a, 'e) prog \<Rightarrow> bool" where
  "reports mail M D L P p \<longleftrightarrow>
     (\<forall>w. case p w of (r, w') \<Rightarrow> \<exists>sent. mail w' = mail w @ sent
        \<and> (sent = [] \<or> (\<exists>u m. sent = [(u, m)] \<and> M m))
        \<and> (case r of Ok x \<Rightarrow> P x \<and> (sent = [] \<longrightarrow> D) | _ \<Rightarrow> sent = [] \<or> L))"

abbreviation node_mail :: "('chan, network) node \<Rightarrow> (string \<times> text_message) list" where
  "node_mail nd \<equiv> nw_mail (nd_net nd)"

subsection \<open>The calculus\<close>

lemma quiet_basic [quiet_rules]:
  "quiet mail (ret x)" "quiet mail (throw e)" "quiet mail panic" "quiet mail (reads f)"
  "quiet mail (lift_outcome r)" "quiet mail (unwrap_or_panic y)"
  by (auto simp: quiet_def prog_simps lift_outcome_def unwrap_or_panic_def split: option.splits)

lemma quiet_and_then [quiet_rules]:
  "quiet mail p \<Longrightarrow> (\<And>x. quiet mail (k x)) \<Longrightarrow> quiet mail (and_then p k)"
  unfolding quiet_def and_then_def
  by (auto split: prod.splits outcome.splits) (metis snd_conv)+

lemma quiet_map_err [quiet_rules]: "quiet mail p \<Longrightarrow> quiet mail (map_err f p)"
  by (auto simp: quiet_def map_err_def split: prod.splits outcome.splits) (metis snd_conv)+

lemma quiet_on_net [quiet_rules]: "quiet nw_mail p \<Longrightarrow> quiet node_mail (on_net p)"
  by (auto simp: quiet_def on_net_def zoom_def split: prod.splits) (metis snd_conv)

lemma quiet_if [quiet_rules]: "quiet mail p \<Longrightarrow> quiet mail q \<Longrightarrow> quiet mail (if b then p else q)"
  by simp

lemma quiet_ask [quiet_rules]: "quiet nw_mail (ask tg sel rq ch)"
  by (auto simp: quiet_def ask_def split: prod.splits)

lemma quiet_disturbed [quiet_rules]: "quiet nw_mail p \<Longrightarrow> quiet nw_mail (disturbed fl d c p)"
  by (auto simp: quiet_def disturbed_def split: option.splits prod.splits)
     (metis network.select_convs(3) network.surjective network.update_convs(1) snd_conv)+

lemma quiet_faulty_ask [quiet_rules]: "quiet nw_mail (faulty_ask fl tg d sel rq ch)"
  unfolding faulty_ask_def by (intro quiet_rules)

lemma reports_quiet_then:
  assumes "quiet mail p" and "\<And>x. reports mail M D L P (k x)"
  shows "reports mail M D L P (and_then p k)"
  unfolding reports_def
proof
  fix w
  obtain r v where p: "p w = (r, v)" by fastforce
  then have v: "mail v = mail w" using assms(1) by (metis quiet_def snd_conv)
  show "case and_then p k w of (r, w') \<Rightarrow> \<exists>sent. mail w' = mail w @ sent
      \<and> (sent = [] \<or> (\<exists>u m. sent = [(u, m)] \<and> M m))
      \<and> (case r of Ok x \<Rightarrow> P x \<and> (sent = [] \<longrightarrow> D) | _ \<Rightarrow> sent = [] \<or> L)"
  proof (cases r)
    case (Ok x)
    with assms(2) [of x, unfolded reports_def, THEN spec, of v] p v show ?thesis
      by (simp add: and_then_def)
  qed (simp_all add: p v and_then_def)
qed

lemma reports_map_err: "reports mail M D L P p \<Longrightarrow> reports mail M D L P (map_err f p)"
  unfolding reports_def map_err_def
  by (intro allI, erule_tac x = w in allE) (auto split: prod.splits outcome.splits)

lemma reports_then_ret:
  "reports mail M D L Q p \<Longrightarrow> P y \<Longrightarrow> reports mail M D L P (and_then p (\<lambda>_. ret y))"
  unfolding reports_def and_then_def ret_def
  by (intro allI, erule_tac x = w in allE) (auto split: prod.splits outcome.splits)

lemma reports_throw: "reports mail M D L P (throw e)" "reports mail M D L P panic"
  by (simp_all add: reports_def prog_simps)

lemma reports_on_net: "reports nw_mail M D L P p \<Longrightarrow> reports node_mail M D L P (on_net p)"
  unfolding reports_def on_net_def zoom_def
  by (intro allI, erule_tac x = "nd_net w" in allE) (auto split: prod.splits outcome.splits)

lemma reports_at_node:
  assumes "reports node_mail M D L P p"
  shows "reports nw_mail M D L P (at_node tg uri p)"
  unfolding reports_def
proof
  fix net
  obtain r nd where p: "p (node_at tg uri net) = (r, nd)" by fastforce
  from assms [unfolded reports_def, THEN spec, of "node_at tg uri net"] p
  show "case at_node tg uri p net of (r, w') \<Rightarrow> \<exists>sent. nw_mail w' = nw_mail net @ sent
      \<and> (sent = [] \<or> (\<exists>u m. sent = [(u, m)] \<and> M m))
      \<and> (case r of Ok x \<Rightarrow> P x \<and> (sent = [] \<longrightarrow> D) | _ \<Rightarrow> sent = [] \<or> L)"
    by (cases r) (simp_all add: at_node_def)
qed

text \<open>The loss of a reply turns a delivery into a failure.\<close>

lemma reports_disturbed:
  assumes "reports nw_mail M D L P p" and "\<And>net. fl_reply_lost fl d c net \<noteq> None \<Longrightarrow> L"
  shows "reports nw_mail M D L P (disturbed fl d c p)"
  unfolding reports_def
proof
  fix net
  let ?net = "net\<lparr>nw_controller := fl_meanwhile fl d c net\<rparr>"
  obtain r net' where p: "p ?net = (r, net')" by fastforce
  from assms(1) [unfolded reports_def, THEN spec, of ?net] p obtain sent
    where sent: "nw_mail net' = nw_mail net @ sent" "sent = [] \<or> (\<exists>u m. sent = [(u, m)] \<and> M m)"
      "case r of Ok x \<Rightarrow> P x \<and> (sent = [] \<longrightarrow> D) | _ \<Rightarrow> sent = [] \<or> L" by auto
  show "case disturbed fl d c p net of (r, w') \<Rightarrow> \<exists>sent. nw_mail w' = nw_mail net @ sent
      \<and> (sent = [] \<or> (\<exists>u m. sent = [(u, m)] \<and> M m))
      \<and> (case r of Ok x \<Rightarrow> P x \<and> (sent = [] \<longrightarrow> D) | _ \<Rightarrow> sent = [] \<or> L)"
  proof (cases "fl_lost fl d c net")
    case None
    show ?thesis
    proof (cases "fl_reply_lost fl d c net'")
      case None
      with \<open>fl_lost fl d c net = None\<close> p sent show ?thesis by (auto simp: disturbed_def)
    next
      case (Some e)
      with assms(2) [of net'] have L by simp
      with \<open>fl_lost fl d c net = None\<close> Some p sent(1,2) show ?thesis by (auto simp: disturbed_def)
    qed
  qed (simp add: disturbed_def)
qed

lemmas reports_rules = reports_quiet_then reports_map_err reports_throw reports_on_net

subsection \<open>The clients and services\<close>

definition connects_quietly :: "(string, string, network) transport \<Rightarrow> bool" where
  "connects_quietly tp \<longleftrightarrow> (\<forall>uri cert dn. quiet nw_mail (tp_connect tp uri cert dn))"

lemma faulty_transport_sel [simp]:
  "tp_initialize (faulty_transport fl tg depth) =
     (\<lambda>ch k to. faulty_ask fl tg depth sel_initialized (Initialize k to) ch)"
  "tp_route (faulty_transport fl tg depth) = (\<lambda>ch k c. faulty_ask fl tg depth sel_hop (Next_Route k c) ch)"
  "tp_redeem (faulty_transport fl tg depth) =
     (\<lambda>ch k c n. faulty_ask fl tg depth sel_redeemed (Redeem k c n) ch)"
  "tp_redeem (faulty_controller_calls fl tg depth) =
     (\<lambda>ch k c n. faulty_ask fl tg depth sel_redeemed (Redeem k c n) ch)"
  "tp_receive (faulty_transport fl tg depth) = (\<lambda>uri req. disturbed fl depth (Text_To uri req) (at_node tg uri
     (landing_receive (route_client_factory (faulty_controller_calls fl tg depth) (tg_env tg))
        (\<lambda>_. tg_now tg) (deliver_or_drop fl uri) req)))"
  "tp_uri_try_from (faulty_transport fl tg depth) = fl_uri fl"
  "tp_tls_error (faulty_transport fl tg depth) = fl_tls fl"
  "tp_connect (faulty_transport fl tg depth) = tp_connect (faulty_controller_calls fl tg depth)"
  by (cases depth; simp add: faulty_client_calls_def faulty_controller_calls_def)+

lemma faulty_connects [quiet_rules]:
  "connects_quietly (faulty_transport fl tg depth)" "connects_quietly (faulty_controller_calls fl tg depth)"
  by (simp_all add: connects_quietly_def quiet_def faulty_controller_calls_def split: option.splits)

lemma quiet_channel [quiet_rules]:
  "connects_quietly tp \<Longrightarrow> quiet nw_mail (open_channel tp f uri cert dn)"
  unfolding open_channel_def connects_quietly_def by (auto intro!: quiet_rules split: option.split)

lemma quiet_controller_channel [quiet_rules]:
  "connects_quietly tp \<Longrightarrow> quiet nw_mail (open_controller_channel tp env f)"
  unfolding open_controller_channel_def by (intro quiet_rules)

lemma quiet_router [quiet_rules]:
  "connects_quietly tp \<Longrightarrow> quiet node_mail (rf_initialize (route_client_factory tp env) rc)"
  by (auto simp: route_client_factory_def route_client_initialize_def intro!: quiet_rules)

lemma quiet_router_calls [quiet_rules]:
  "quiet node_mail (rf_redeem (route_client_factory (faulty_controller_calls fl tg depth) env) rc c k n)"
  "quiet node_mail (rf_redeem (route_client_factory (faulty_transport fl tg depth) env) rc c k n)"
  "quiet node_mail (rf_get_route (route_client_factory (faulty_transport fl tg depth) env) rc c k)"
  "quiet node_mail (rf_init_conversation (route_client_factory (faulty_transport fl tg depth) env) rc k to)"
  by (auto simp: route_client_factory_def route_client_redeem_def route_client_get_route_def
      route_client_init_conversation_def intro!: quiet_rules)

lemma quiet_factories [quiet_rules]:
  "connects_quietly tp \<Longrightarrow> quiet node_mail (pf_initialize (proxy_client_factory tp) pc)"
  "connects_quietly tp \<Longrightarrow> quiet node_mail (lf_initialize (landing_client_factory tp) lc)"
  by (auto simp: proxy_client_factory_def proxy_client_initialize_def landing_client_factory_def
      landing_client_initialize_def intro!: quiet_rules)

lemma quiet_authentication [quiet_rules]: "quiet mail (check_authentication ps)"
  unfolding check_authentication_def by (intro quiet_rules)

abbreviation sent_text :: "topology \<Rightarrow> bytes \<Rightarrow> text_message \<Rightarrow> bool" where
  "sent_text tg content m \<equiv> \<exists>from. m = new_text_message (tg_now tg) from ''myself'' content"

abbreviation confirmed :: "string option \<Rightarrow> bool" where
  "confirmed x \<equiv> x = Some ''Message sent''"

text \<open>A channel to a listener is closed; the reply of a command or of a text is lost.\<close>

definition some_closed :: "faults \<Rightarrow> bool" where
  "some_closed fl \<longleftrightarrow> (\<exists>uri net. fl_closed fl uri net)"

definition some_reply_lost :: "faults \<Rightarrow> bool" where
  "some_reply_lost fl \<longleftrightarrow>
     (\<exists>d uri net. (\<exists>req. fl_reply_lost fl d (Command_To uri req) net \<noteq> None)
        \<or> (\<exists>req. fl_reply_lost fl d (Text_To uri req) net \<noteq> None))"

abbreviation sends ::
  "('w \<Rightarrow> (string \<times> text_message) list) \<Rightarrow> faults \<Rightarrow> topology \<Rightarrow> bytes \<Rightarrow> ('a \<Rightarrow> bool) \<Rightarrow> ('w, 'a, 'e) prog \<Rightarrow> bool" where
  "sends mail fl tg content P \<equiv>
     reports mail (sent_text tg content) (some_closed fl) (some_reply_lost fl) P"

lemma landing_reports:
  assumes "tr_content req = content"
  shows "sends nw_mail fl tg content (\<lambda>_. True) (tp_receive (faulty_transport fl tg depth) uri req)"
proof -
  have deliver: "sends node_mail fl tg content (\<lambda>_. True)
      (total (\<lambda>w. ((), deliver_or_drop fl uri (new_text_message at source ''myself'' (tr_content req)) w)))"
    if "at = tg_now tg" for at source
    using that assms by (auto simp: reports_def prog_simps deliver_or_drop_def deliver_at_def some_closed_def)
  have now: "and_then (reads (\<lambda>_. tg_now tg)) k = k (tg_now tg)"
    for k :: "instant \<Rightarrow> ((string, network) node, unit, status) prog"
    by (rule ext) (simp add: prog_simps)
  have lost: "fl_reply_lost fl depth (Text_To uri req) net \<noteq> None \<Longrightarrow> some_reply_lost fl" for net
    unfolding some_reply_lost_def by blast
  show ?thesis
    unfolding faulty_transport_sel landing_receive_def now
    by (rule reports_disturbed [OF _ lost])
       (intro reports_at_node reports_quiet_then quiet_rules deliver refl)
qed

lemma proxy_send_reports:
  assumes "\<And>uri c n. sends nw_mail fl tg content confirmed
      (tp_execute_command (faulty_transport fl tg depth) uri (send_request c n content))"
  shows "sends node_mail fl tg content (\<lambda>_. True)
      (proxy_send (service tg (faulty_transport fl tg depth)) c k content)"
proof -
  let ?tp = "faulty_transport fl tg depth"
  have land: "sends node_mail fl tg content (\<lambda>_. True)
      (lf_send_message (landing_client_factory ?tp) lc c k n content)" for lc n
    unfolding landing_client_factory_def lander_factory.select_convs landing_client_send_message_def
    by (intro reports_rules landing_reports quiet_rules) simp
  have forward: "sends node_mail fl tg content confirmed
      (pf_send_command (proxy_client_factory ?tp) pc c n Send_Command content)" for pc n
    using assms [unfolded send_request_def]
    by (auto simp: proxy_client_factory_def proxy_client_send_command_def split: option.splits
        intro!: reports_rules)
  have landed: "sends node_mail fl tg content (\<lambda>_. True) (land_command (service tg ?tp) cs c n k content)"
    for cs n
    unfolding land_command_def Let_def service_sel
    by (intro reports_quiet_then quiet_rules reports_then_ret [OF reports_map_err [OF land]]) simp
  have routed: "sends node_mail fl tg content (\<lambda>_. True) (route_command (service tg ?tp) cs c n content)"
    for cs n
    unfolding route_command_def Let_def service_sel
    by (intro reports_quiet_then quiet_rules reports_then_ret [OF reports_map_err [OF forward]]) simp
  show ?thesis
    unfolding proxy_send_def Let_def service_sel
    by (intro reports_quiet_then quiet_rules) (simp add: landed routed)
qed

lemma send_request_sel:
  "cr_conversation_id (send_request c n content) = c" "cr_nonce (send_request c n content) = n"
  "command_from_i32 (cr_command (send_request c n content)) = Some Send_Command"
  "cr_content (send_request c n content) = Some content"
  by (simp_all add: send_request_def command_from_i32_def)

lemma execute_reports:
  "sends nw_mail fl tg content confirmed
     (tp_execute_command (faulty_transport fl tg depth) uri (send_request c n content))"
proof (induction depth arbitrary: uri c n)
  case 0
  show ?case by (simp add: faulty_client_calls_def faulty_controller_calls_def reports_throw)
next
  case (Suc depth)
  let ?tp = "faulty_transport fl tg depth" and ?req = "send_request c n content"
  have send: "sends node_mail fl tg content (\<lambda>_. True) (proxy_send (service tg ?tp) c k content)" for k
    by (rule proxy_send_reports) (rule Suc.IH)
  have redeem: "quiet node_mail (proxy_redeem (service tg ?tp) c k n)" for k
    unfolding proxy_redeem_def Let_def service_sel by (intro quiet_rules)
  have run: "sends node_mail fl tg content confirmed (execute_command (service tg ?tp) ?req)"
    unfolding execute_command_def Let_def send_request_sel
    by (rule reports_quiet_then [OF quiet_authentication], rule reports_quiet_then [OF redeem])
       (simp add: reports_then_ret [OF send])
  have lost: "fl_reply_lost fl (Suc depth) (Command_To uri ?req) net \<noteq> None \<Longrightarrow> some_reply_lost fl" for net
    unfolding some_reply_lost_def by blast
  show ?case
    using reports_disturbed [OF reports_at_node [OF run] lost] by simp
qed

text \<open>
  C4. A message is delivered at most once, whatever is lost on the way and whatever state the
  network is in; if something is delivered it is the text that was sent.  If sending ends well, the
  answer is the confirmation, and the message was delivered unless a listener was gone; if it
  fails, for whatever reason and at whichever process, nothing was delivered unless the reply to a
  command or to a text was lost.
\<close>

theorem delivered_at_most_once:
  "case commander_send_message (new_commander (faulty_transport fl tg depth) (tg_env tg) k)
      to content (node_at tg uri net) of
     (told, nd) \<Rightarrow> \<exists>sent. nw_mail (nd_net nd) = nw_mail net @ sent
       \<and> (sent = [] \<or> (\<exists>u from. sent = [(u, new_text_message (tg_now tg) from ''myself'' content)]))
       \<and> (case told of
            Ok confirmation \<Rightarrow> confirmation = Some ''Message sent'' \<and> (sent = [] \<longrightarrow> some_closed fl)
          | _ \<Rightarrow> sent = [] \<or> some_reply_lost fl)"
proof -
  let ?tp = "faulty_transport fl tg depth"
  have forward: "sends node_mail fl tg content confirmed
      (pf_send_command (proxy_client_factory ?tp) pc c n Send_Command content)" for pc c n
    using execute_reports [unfolded send_request_def]
    by (auto simp: proxy_client_factory_def proxy_client_send_command_def split: option.splits
        intro!: reports_rules)
  have init: "quiet node_mail (commander_initialize (new_commander ?tp (tg_env tg) k) to)"
    unfolding commander_initialize_def new_commander_def Let_def commander.select_convs
    by (intro quiet_rules)
  have "sends node_mail fl tg content confirmed
      (commander_send_message (new_commander ?tp (tg_env tg) k) to content)"
    unfolding commander_send_message_def commander_call_def Let_def
    by (rule reports_quiet_then [OF init])
       (simp add: new_commander_def, intro reports_quiet_then quiet_rules forward)
  from this [unfolded reports_def, THEN spec, of "node_at tg uri net"] show ?thesis
    by (simp add: node_at_net) (auto split: prod.splits)
qed

end
