(* ===== verification/Sender_Privacy.thy ===== *)
theory Sender_Privacy
  imports Controller_Runs
begin

section \<open>The sender stays private\<close>

text \<open>
  A conversation records who opened it, and the controller discloses that name in one place: to who
  redeems the end route.  Two controllers whose tables differ only in those names are \<open>alike\<close>; they
  answer every request alike and stay alike, and a reply can differ only when an end route is
  redeemed.
\<close>

subsection \<open>Events with their replies\<close>

text \<open>An event as a function of the state, with the reply to a request.\<close>

fun perform :: "deployment \<Rightarrow> event \<Rightarrow> world \<Rightarrow> (reply, status) outcome option \<times> world" where
  "perform d (Request su rq) w = (Some (fst (answer d su rq w)), snd (answer d su rq w))"
| "perform d (Tick n) w = (None, w\<lparr>clock := clock w + n\<rparr>)"
| "perform d (Sweep_Sessions order) w =
     (None, w\<lparr>session_repo := kill_expired_sessions (clock w) order (session_repo w)\<rparr>)"
| "perform d Sweep_Routes w = (None, w\<lparr>route_repo := kill_expired_routes (clock w) (route_repo w)\<rparr>)"
| "perform d (Register_Self u) w = (None, snd (registered d u w))"

lemma step_perform: "step d w e w' \<Longrightarrow> w' = snd (perform d e w)"
  by (induction rule: step.induct) simp_all

subsection \<open>Tables up to the senders\<close>

definition unnamed :: "conversation \<Rightarrow> conversation" where
  "unnamed x = x\<lparr>conv_from := []\<rparr>"

definition veil_entry :: "conversation expiration_wrapper \<Rightarrow> conversation expiration_wrapper" where
  "veil_entry e = e\<lparr>ew_value := unnamed (ew_value e)\<rparr>"

definition veil ::
  "(string \<rightharpoonup> conversation expiration_wrapper) \<Rightarrow> string \<rightharpoonup> conversation expiration_wrapper" where
  "veil m c = map_option veil_entry (m c)"

definition alike :: "world \<Rightarrow> world \<Rightarrow> bool" where
  "alike w v \<longleftrightarrow> clock w = clock v \<and> session_repo w = session_repo v \<and> member_repo w = member_repo v
     \<and> rt_routes (route_repo w) = rt_routes (route_repo v)
     \<and> veil (rt_conversations (route_repo w)) = veil (rt_conversations (route_repo v))"

lemma unnamed_sel [simp]:
  "conv_to (unnamed x) = conv_to x" "conv_routing_id (unnamed x) = conv_routing_id x"
  "conv_routes (unnamed x) = conv_routes x" "conv_id (unnamed x) = conv_id x"
  "push_route r (unnamed x) = unnamed (push_route r x)"
  by (simp_all add: unnamed_def push_route_def)

lemma veil_entry_simps [simp]:
  "ew_value (veil_entry e) = unnamed (ew_value e)"
  "is_expired now (veil_entry e) = is_expired now e"
  "veil_entry (wrapper_new now x t) = wrapper_new now (unnamed x) t"
  by (simp_all add: veil_entry_def is_expired_def wrapper_new_def)

lemma veil_entry_push:
  "veil_entry (e\<lparr>ew_value := push_route r (ew_value e)\<rparr>) =
     (veil_entry e)\<lparr>ew_value := push_route r (ew_value (veil_entry e))\<rparr>"
  by (cases e) (simp add: veil_entry_def)

lemma veil_remove [simp]: "veil (m(c := None)) = (veil m)(c := None)"
  by (auto simp: veil_def)

lemma veil_insert [simp]:
  "veil (m(c \<mapsto> wrapper_new now x t)) = (veil m)(c \<mapsto> wrapper_new now (unnamed x) t)"
  by (auto simp: veil_def)

lemma veil_push [simp]:
  "veil (m(c := map_option (\<lambda>e. e\<lparr>ew_value := push_route r (ew_value e)\<rparr>) (m c))) =
     (veil m)(c := map_option (\<lambda>e. e\<lparr>ew_value := push_route r (ew_value e)\<rparr>) (veil m c))"
proof (rule ext)
  fix c'
  show "veil (m(c := map_option (\<lambda>e. e\<lparr>ew_value := push_route r (ew_value e)\<rparr>) (m c))) c' =
     ((veil m)(c := map_option (\<lambda>e. e\<lparr>ew_value := push_route r (ew_value e)\<rparr>) (veil m c))) c'"
    unfolding veil_def fun_upd_apply option.map_comp
    by (cases "m c") (simp_all only: veil_entry_push option.map comp_apply if_cancel split: if_split, simp_all)
qed

lemma veil_sweep [simp]:
  "veil (map_filter_vals (\<lambda>e. \<not> is_expired now e) m) =
     map_filter_vals (\<lambda>e. \<not> is_expired now e) (veil m)"
  by (auto simp: veil_def map_filter_vals_def fun_eq_iff split: option.splits)

lemma veil_None: "veil m = veil m' \<Longrightarrow> m c = None \<longleftrightarrow> m' c = None"
  by (metis veil_def option.map_disc_iff)

lemma alike_live: "alike w v \<Longrightarrow> live_session w = live_session v"
  by (simp add: alike_def live_session_def fun_eq_iff)

lemma alike_route: "alike w v \<Longrightarrow> stored_route w = stored_route v"
  by (simp add: alike_def stored_route_def fun_eq_iff)

lemma alike_touch: "alike w v \<Longrightarrow> alike (touch k w) (touch k v)"
  by (simp add: alike_def)

lemma alike_members: "alike w v \<Longrightarrow> member_repo w = member_repo v"
  by (simp add: alike_def)

lemma alike_conversation:
  assumes "alike w v"
  obtains (none) "stored_conversation w c = None" and "stored_conversation v c = None"
  | (both) x y where "stored_conversation w c = Some x" and "stored_conversation v c = Some y"
      and "unnamed x = unnamed y"
proof -
  have "map_option unnamed (stored_conversation u c) = map_option ew_value (veil (rt_conversations (route_repo u)) c)"
    for u by (simp add: stored_conversation_def veil_def option.map_comp comp_def)
  with assms have "map_option unnamed (stored_conversation w c) = map_option unnamed (stored_conversation v c)"
    by (simp add: alike_def)
  with none both show thesis
    by (cases "stored_conversation w c"; cases "stored_conversation v c") auto
qed

lemma alike_sessions:
  assumes "alike w v"
  shows "alike (w\<lparr>session_repo := s\<rparr>) (v\<lparr>session_repo := s\<rparr>)"
    "session_repo w = session_repo v" "clock w = clock v"
  using assms by (simp_all add: alike_def)

subsection \<open>Requests\<close>

text \<open>The one request that names a sender.\<close>

fun ends_conversation :: "event \<Rightarrow> world \<Rightarrow> bool" where
  "ends_conversation (Request su (Redeem k c n)) w \<longleftrightarrow>
     (\<exists>r. stored_route w c n = Some r \<and> rt_end_route r)"
| "ends_conversation _ w \<longleftrightarrow> False"

text \<open>Two outcomes with the same answer and tables that are alike.\<close>

definition same_answer :: "('a, 'e) outcome \<times> world \<Rightarrow> ('a, 'e) outcome \<times> world \<Rightarrow> bool" where
  "same_answer x y \<longleftrightarrow> fst x = fst y \<and> alike (snd x) (snd y)"

lemma same_answer_simps [simp]:
  "same_answer (r, w) (q, v) \<longleftrightarrow> r = q \<and> alike w v"
  by (simp add: same_answer_def)

lemma fst_map_ok: "fst (p w) = fst (p v) \<Longrightarrow> fst (map_ok f p w) = fst (map_ok f p v)"
proof -
  have "fst (map_ok f p u) = (case fst (p u) of Ok x \<Rightarrow> Ok (f x) | Err e \<Rightarrow> Err e | Panic \<Rightarrow> Panic)" for u
    by (simp add: map_ok_run split: prod.split outcome.split)
  then show "fst (p w) = fst (p v) \<Longrightarrow> fst (map_ok f p w) = fst (map_ok f p v)" by (simp only:)
qed

lemma same_answer_map: "same_answer (p w) (p v) \<Longrightarrow> same_answer (map_ok f p w) (map_ok f p v)"
  by (auto simp: same_answer_def intro: fst_map_ok)

lemma same_issue: "alike w v \<Longrightarrow> same_answer (issue u c e s w) (issue u c e s v)"
  using veil_None [of "rt_conversations (route_repo w)" "rt_conversations (route_repo v)" c]
  by (simp add: issue_def set_route_fst set_route_conversations alike_def)

lemma same_next_hop:
  assumes "alike w v" and "unnamed x = unnamed y"
  shows "same_answer (next_hop po pick u k c x w) (next_hop po pick u k c y v)"
proof -
  have xy: "conv_routing_id x = conv_routing_id y" "conv_routes x = conv_routes y" "conv_to x = conv_to y"
    using arg_cong [OF assms(2), of conv_routing_id] arg_cong [OF assms(2), of conv_routes]
      arg_cong [OF assms(2), of conv_to] by simp_all
  have rnd: "random_next_route pick ps w = (r, w')
      \<Longrightarrow> w' = w \<and> random_next_route pick ps v = (r, v)" for ps w' and r :: "(session_info option, status) outcome"
    by (auto simp: random_next_route_def Let_def prog_simps split: if_splits option.splits)
  show ?thesis
    using assms(1) same_issue [OF assms(1)]
    by (auto simp: next_hop_def xy alike_sessions [OF assms(1)] split: option.splits prod.splits outcome.splits
        dest: rnd)
qed

lemma same_route:
  assumes "alike w v"
  shows "same_answer
    (route_route (inmemory_session_repository po) (new_route_manager inmemory_route_repository pick) u k c w)
    (route_route (inmemory_session_repository po) (new_route_manager inmemory_route_repository pick) u k c v)"
  using assms
proof (cases rule: alike_conversation [where c = c])
  case none
  with assms show ?thesis
    by (simp add: route_closed alike_live [OF assms] alike_touch split: option.splits)
next
  case (both x y)
  with assms same_next_hop [OF alike_touch [OF assms] both(3)] show ?thesis
    by (simp add: route_closed alike_live [OF assms] split: option.splits)
qed

lemma same_initialize:
  assumes "alike w v"
  shows "same_answer
    (route_initialize (inmemory_session_repository po) (new_route_manager inmemory_route_repository pick) u k to w)
    (route_initialize (inmemory_session_repository po) (new_route_manager inmemory_route_repository pick) u k to v)"
  using assms veil_None [of "rt_conversations (route_repo w)" "rt_conversations (route_repo v)"]
  by (simp add: initialize_closed alike_live [OF assms] Let_def alike_def split: option.splits)

lemma same_redeem:
  assumes "alike w v"
  shows "alike
      (snd (route_redeem (inmemory_session_repository po) (new_route_manager inmemory_route_repository pick) k c n w))
      (snd (route_redeem (inmemory_session_repository po) (new_route_manager inmemory_route_repository pick) k c n v))"
    and "\<not> ends_conversation (Request su (Redeem k c n)) w \<Longrightarrow> same_answer
      (route_redeem (inmemory_session_repository po) (new_route_manager inmemory_route_repository pick) k c n w)
      (route_redeem (inmemory_session_repository po) (new_route_manager inmemory_route_repository pick) k c n v)"
  using assms
  by (cases rule: alike_conversation [where c = c],
      auto simp: redeem_closed alike_live [OF assms] alike_route [OF assms] alike_def split: option.splits)+

lemma same_session_requests:
  assumes "alike w v"
  shows "same_answer (auth_login (inmemory_session_repository po) inmemory_member_repository u a req w)
      (auth_login (inmemory_session_repository po) inmemory_member_repository u a req v)"
    and "same_answer (auth_logout (inmemory_session_repository po) k w)
      (auth_logout (inmemory_session_repository po) k v)"
    and "same_answer (auth_ping (inmemory_session_repository po) a now k w)
      (auth_ping (inmemory_session_repository po) a now k v)"
    and "same_answer (info_status (inmemory_session_repository po) version k w)
      (info_status (inmemory_session_repository po) version k v)"
  using assms alike_touch [OF assms, of k]
  by (auto simp: login_closed logout_closed ping_closed status_closed alike_live [OF assms]
      alike_sessions known_credentials_def alike_members split: option.splits)

text \<open>A request answered in two states.\<close>

lemma same_requests:
  assumes "alike w v"
  shows "alike (snd (answer d su rq w)) (snd (answer d su rq v))"
    and "\<not> ends_conversation (Request su rq) w \<Longrightarrow> fst (answer d su rq w) = fst (answer d su rq v)"
proof -
  have other: "same_answer (answer d su rq w) (answer d su rq v)" if "\<nexists>k c n. rq = Redeem k c n"
    using that assms
    by (cases rq) (auto simp: answer_def intro!: same_answer_map same_session_requests same_route same_initialize)
  have redeem: "alike (snd (answer d su rq w)) (snd (answer d su rq v))
      \<and> (\<not> ends_conversation (Request su rq) w \<longrightarrow> fst (answer d su rq w) = fst (answer d su rq v))"
    if "rq = Redeem k c n" for k c n
    unfolding that
    using same_redeem [OF assms, where po = "su_porder su" and pick = "su_pick su" and k = k and c = c and n = n]
    by (auto simp: answer_def same_answer_def intro: fst_map_ok)
  show "alike (snd (answer d su rq w)) (snd (answer d su rq v))"
    and "\<not> ends_conversation (Request su rq) w \<Longrightarrow> fst (answer d su rq w) = fst (answer d su rq v)"
    using other redeem unfolding same_answer_def by blast+
qed

subsection \<open>Runs\<close>

text \<open>
  Two states in which a sequence of events gets the same replies, but for redemptions of end routes.
\<close>

fun indistinguishable :: "deployment \<Rightarrow> event list \<Rightarrow> world \<Rightarrow> world \<Rightarrow> bool" where
  "indistinguishable d [] w v = True"
| "indistinguishable d (e # es) w v =
     ((fst (perform d e w) = fst (perform d e v) \<or> ends_conversation e w)
      \<and> indistinguishable d es (snd (perform d e w)) (snd (perform d e v)))"

lemma alike_registered:
  assumes "alike w v"
  shows "alike (snd (registered d u w)) (snd (registered d u v))"
  by (cases "get_public_socket_address (dep_parse_addr d) (descriptor_connection_settings (dep_descriptor d))";
      cases "descriptor_connection_settings (dep_descriptor d)")
     (use assms in \<open>simp_all add: registered_def register_self_def Let_def prog_simps sm_set_session_run alike_def\<close>)

lemma alike_perform: "alike w v \<Longrightarrow> alike (snd (perform d e w)) (snd (perform d e v))"
  by (cases e) (simp_all add: same_requests alike_registered, simp_all add: alike_def)

lemma alike_indistinguishable: "alike w v \<Longrightarrow> indistinguishable d es w v"
proof (induction es arbitrary: w v)
  case (Cons e es)
  have "fst (perform d e w) = fst (perform d e v) \<or> ends_conversation e w"
    using same_requests(2) [OF Cons.prems] by (cases e) auto
  with Cons.IH [OF alike_perform [OF Cons.prems]] show ?case by simp
qed simp

text \<open>
  C8. The sender stays private: whichever of two users with fresh sessions opens a conversation, the
  same conversation id is returned, and whatever requests, sweeps, registrations and delays follow,
  every reply is the same, but for the redemption of an end route.  No other reply, not even to a
  proxy on the way or to someone who guesses, depends on who the sender is.
\<close>

theorem sender_stays_private:
  assumes "live_session w k \<noteq> None" and "live_session w k' \<noteq> None"
    and "touch k w = w" and "touch k' w = w"
  shows "fst (perform d (Request su (Initialize k to)) w) = fst (perform d (Request su (Initialize k' to)) w)
    \<and> indistinguishable d es (snd (perform d (Request su (Initialize k to)) w))
        (snd (perform d (Request su (Initialize k' to)) w))"
proof -
  obtain s s' where s: "live_session w k = Some s" and s': "live_session w k' = Some s'"
    using assms(1,2) by blast
  then have same: "alike (snd (perform d (Request su (Initialize k to)) w))
      (snd (perform d (Request su (Initialize k' to)) w))"
    by (simp add: answer_def initialize_closed assms(3,4) Let_def alike_def new_conversation_def unnamed_def)
  have "fst (perform d (Request su (Initialize k to)) w) = fst (perform d (Request su (Initialize k' to)) w)"
    using s s' by (simp add: answer_def map_ok_run initialize_closed Let_def new_conversation_def)
  with alike_indistinguishable [OF same] show ?thesis by blast
qed

end
