(* ===== verification/Controller_Samples.thy ===== *)
theory Controller_Samples
  imports Controller_Properties Sender_Privacy
begin

section \<open>A concrete controller\<close>

text \<open>
  A member file with three users, and a run in which the proxy \<open>p1\<close> and the clients \<open>alice\<close> and
  \<open>bob\<close> log in, \<open>alice\<close> opens a conversation with \<open>bob\<close> and asks for four hops.  The theorems of
  \<open>Controller_Properties\<close> are applied to the states of this run.
\<close>

definition home :: socket_addr where
  "home = SocketAddrV4 0x7F000001 5000"

definition away :: socket_addr where
  "away = SocketAddrV4 0x7F000002 5000"

definition sample_env :: environment where
  "sample_env =
     \<lparr>env_var = [''MEMBERS_CSV_FILE'' \<mapsto> ''m.csv''], current_dir = None,
      read_file = [''m.csv'' \<mapsto> [1]]\<rparr>"

definition sample_csv :: "bytes \<Rightarrow> string list option list" where
  "sample_csv b =
     (if b = [1] then [Some [''alice'', ''pa''], Some [''p1'', ''pp''], Some [''bob'', ''b1''],
                       None, Some [''bob'', ''b2'']]
      else [])"

definition sample_deployment :: deployment where
  "sample_deployment =
     \<lparr>dep_descriptor = ControllerDescriptor \<lparr>cred_uid = ''ctl'', cred_pwd = ''cp''\<rparr>
        \<lparr>cs_ip = ''10.0.0.1'', cs_port = 50050, cs_domain_name = ''controller'', cs_certificate = []\<rparr>
        ''1.0.0'',
      dep_parse_addr = (\<lambda>_. Some home)\<rparr>"

definition sample_su :: "string list \<Rightarrow> string \<Rightarrow> surroundings" where
  "sample_su order uuid =
     \<lparr>su_remote_addr = Some home, su_uuid = uuid, su_now_micros = 7,
      su_porder = (\<lambda>_. order), su_pick = pick_first\<rparr>"

lemma sample_su_sel [simp]:
  "su_remote_addr (sample_su order uuid) = Some home" "su_uuid (sample_su order uuid) = uuid"
  "su_now_micros (sample_su order uuid) = 7" "su_porder (sample_su order uuid) m = order"
  "su_pick (sample_su order uuid) = pick_first"
  by (simp_all add: sample_su_def)

definition sample_login :: "component \<Rightarrow> string \<Rightarrow> string \<Rightarrow> login_request" where
  "sample_login c uid pwd =
     \<lparr>lr_component_type = i32_from_component c, lr_uid = uid, lr_pwd = pwd, lr_on_ip = ''10.0.0.9'',
      lr_on_port = 4000, lr_public_key = [], lr_domain_name = uid\<rparr>"

lemma sample_login_sel [simp]:
  "lr_uid (sample_login c uid pwd) = uid" "lr_pwd (sample_login c uid pwd) = pwd"
  "lr_component_type (sample_login c uid pwd) = i32_from_component c"
  by (simp_all add: sample_login_def)

definition sample_session_of :: "string \<Rightarrow> component \<Rightarrow> string \<Rightarrow> string \<Rightarrow> session_info" where
  "sample_session_of k c uid pwd = login_session k home c (sample_login c uid pwd)"

lemma sample_session_of_sel [simp]:
  "ss_access_key (sample_session_of k c uid pwd) = k" "ss_uid (sample_session_of k c uid pwd) = uid"
  "ss_client_ip (sample_session_of k c uid pwd) = home"
  "ss_component_type (sample_session_of k c uid pwd) = u8_from_component c"
  by (simp_all add: sample_session_of_def)

text \<open>The worlds of the run.\<close>

definition sample_members :: member_table where
  "sample_members =
     [''alice'' \<mapsto> new_member ''alice'' ''pa'', ''p1'' \<mapsto> new_member ''p1'' ''pp'',
      ''bob'' \<mapsto> new_member ''bob'' ''b2'']"

definition world0 :: world where
  "world0 = new_world\<lparr>member_repo := sample_members\<rparr>"

definition log_in :: "string \<Rightarrow> component \<Rightarrow> string \<Rightarrow> string \<Rightarrow> world \<Rightarrow> world" where
  "log_in k c uid pwd w =
     w\<lparr>session_repo := put_session (clock w) c (sample_session_of k c uid pwd) (session_repo w)\<rparr>"

definition world3 :: world where
  "world3 = log_in ''k3'' Client ''bob'' ''b2''
     (log_in ''k2'' Client ''alice'' ''pa'' (log_in ''k1'' Proxy ''p1'' ''pp'' world0))"

definition sample_conversation :: "string \<Rightarrow> route list \<Rightarrow> conversation" where
  "sample_conversation c rs =
     (new_conversation c ''alice'' ''bob'' 1)\<lparr>conv_routes := rs\<rparr>"

definition hop_to_p1 :: "string \<Rightarrow> route" where
  "hop_to_p1 n = hop_route n False (sample_session_of ''k1'' Proxy ''p1'' ''pp'')"

definition hop_to_bob :: "string \<Rightarrow> route" where
  "hop_to_bob n = hop_route n True (sample_session_of ''k3'' Client ''bob'' ''b2'')"

lemma sample_hop_sel [simp]:
  "rt_nonce (hop_to_p1 n) = n" "rt_nonce (hop_to_bob n) = n"
  "\<not> rt_end_route (hop_to_p1 n)" "rt_end_route (hop_to_bob n)"
  by (simp_all add: hop_to_p1_def hop_to_bob_def)

lemma sample_conversation_sel [simp]:
  "conv_id (sample_conversation c rs) = c" "conv_from (sample_conversation c rs) = ''alice''"
  "conv_to (sample_conversation c rs) = ''bob''" "conv_routes (sample_conversation c rs) = rs"
  "conv_routing_id (sample_conversation c rs) = 1"
  "push_route r (sample_conversation c rs) = sample_conversation c (rs @ [r])"
  by (simp_all add: sample_conversation_def new_conversation_def push_route_def)

definition with_routes :: "(string \<rightharpoonup> route) \<Rightarrow> route list \<Rightarrow> world" where
  "with_routes routes rs = world3\<lparr>route_repo :=
     \<lparr>rt_routes = (\<lambda>n. map_option (\<lambda>r. wrapper_new 0 r ROUTES_EXPIRATION_TIME) (routes n)),
      rt_conversations = [''c1'' \<mapsto>
        wrapper_new 0 (sample_conversation ''c1'' rs) CONVERSATIONS_EXPIRATION_TIME]\<rparr>\<rparr>"

definition world4 :: world where
  "world4 = with_routes Map.empty []"

definition world8 :: world where
  "world8 = with_routes
     [''n0'' \<mapsto> hop_to_p1 ''n0'', ''n1'' \<mapsto> hop_to_p1 ''n1'', ''n2'' \<mapsto> hop_to_p1 ''n2'',
      ''n3'' \<mapsto> hop_to_bob ''n3'']
     [hop_to_p1 ''n0'', hop_to_p1 ''n1'', hop_to_p1 ''n2'', hop_to_bob ''n3'']"

lemma sample_seeded: "seeded sample_env sample_csv world0"
proof -
  have "(member_repo new_world) (''alice'' \<mapsto> new_member ''alice'' ''pa'', ''p1'' \<mapsto> new_member ''p1'' ''pp'',
       ''bob'' \<mapsto> new_member ''bob'' ''b1'', ''bob'' \<mapsto> new_member ''bob'' ''b2'') = sample_members"
    by (simp add: new_world_def sample_members_def fun_upd_twist)
  moreover have "env_var sample_env ''MEMBERS_CSV_FILE'' = Some ''m.csv''"
    "read_file sample_env ''m.csv'' = Some [1]"
    by (simp_all add: sample_env_def)
  ultimately show ?thesis
    by (simp add: seeded_def controller_initialize_def get_env_variable_def
        mm_seed_members_from_csv_def read_members_from_csv_def sample_csv_def repo_simps
        new_member_def world0_def ret_def del: fun_upd_apply)
qed

text \<open>The steps of the run.\<close>

lemma sample_log_in:
  assumes "known_credentials w uid pwd" and "uid \<noteq> []" and "c \<noteq> Controller"
  shows "answer sample_deployment (sample_su order k) (Login (sample_login c uid pwd)) w =
    (Ok (Logged_In \<lparr>lresp_access_key = k, lresp_message = ''Login successful''\<rparr>), log_in k c uid pwd w)"
  using assms
  by (simp add: answer_def map_ok_run login_closed log_in_def sample_session_of_def)

lemma log_in_sel [simp]:
  "member_repo (log_in k c uid pwd w) = member_repo w" "clock (log_in k c uid pwd w) = clock w"
  "route_repo (log_in k c uid pwd w) = route_repo w"
  "session_repo (log_in k c uid pwd w) =
     put_session (clock w) c (sample_session_of k c uid pwd) (session_repo w)"
  by (simp_all add: log_in_def)

lemma world0_sel [simp]:
  "member_repo world0 = sample_members" "clock world0 = 0" "route_repo world0 = new_route_tables"
  "session_repo world0 = new_session_tables"
  by (simp_all add: world0_def new_world_def)

lemma new_tables_sel [simp]:
  "st_sessions new_session_tables = Map.empty" "st_clients new_session_tables = Map.empty"
  "st_proxies new_session_tables = Map.empty" "st_controllers new_session_tables = Map.empty"
  "rt_routes new_route_tables = Map.empty" "rt_conversations new_route_tables = Map.empty"
  by (simp_all add: new_session_tables_def new_route_tables_def)

lemma sample_credentials:
  "member_repo w = sample_members \<Longrightarrow> known_credentials w ''p1'' ''pp''"
  "member_repo w = sample_members \<Longrightarrow> known_credentials w ''alice'' ''pa''"
  "member_repo w = sample_members \<Longrightarrow> known_credentials w ''bob'' ''b2''"
  by (simp_all add: known_credentials_def sample_members_def new_member_def)

lemma fair_sample:
  assumes "fresh_session_key u (session_repo w)" and "rt_routes (route_repo w) u = None"
    and "rt_conversations (route_repo w) (create_conversation_id u) = None"
    and "enumerates order (st_proxies (session_repo w))"
  shows "fair (sample_su order u) w"
  using assms by (simp add: fair_def fresh_uuid_def picks_pick_first)

lemma run_log_in:
  assumes "fair (sample_su order k) w" and "known_credentials w uid pwd" and "uid \<noteq> []"
    and "c \<noteq> Controller" and "run sample_deployment (log_in k c uid pwd w) es w'"
  shows "run sample_deployment w (Request (sample_su order k) (Login (sample_login c uid pwd)) # es) w'"
  by (rule run_cons [OF step.request [OF assms(1) sample_log_in [OF assms(2-4)]] assms(5)])

lemma world3_run:
  "run sample_deployment world0
     [Request (sample_su [] ''k1'') (Login (sample_login Proxy ''p1'' ''pp'')),
      Request (sample_su [''p1''] ''k2'') (Login (sample_login Client ''alice'' ''pa'')),
      Request (sample_su [''p1''] ''k3'') (Login (sample_login Client ''bob'' ''b2''))] world3"
  by (intro run_log_in fair_sample sample_credentials)
     (simp_all add: fresh_session_key_def enumerates_def world3_def)

lemma world3_sel [simp]:
  "member_repo world3 = sample_members" "clock world3 = 0" "route_repo world3 = new_route_tables"
  "st_sessions (session_repo world3) =
     [''k1'' \<mapsto> wrapper_new 0 (sample_session_of ''k1'' Proxy ''p1'' ''pp'') 10000,
      ''k2'' \<mapsto> wrapper_new 0 (sample_session_of ''k2'' Client ''alice'' ''pa'') 10000,
      ''k3'' \<mapsto> wrapper_new 0 (sample_session_of ''k3'' Client ''bob'' ''b2'') 10000]"
  "st_clients (session_repo world3) = [''alice'' \<mapsto> ''k2'', ''bob'' \<mapsto> ''k3'']"
  "st_proxies (session_repo world3) = [''p1'' \<mapsto> ''k1'']"
  "st_controllers (session_repo world3) = Map.empty"
  by (simp_all add: world3_def SESSIONS_EXPIRATION_TIME_def)

lemma with_routes_sel [simp]:
  "session_repo (with_routes R rs) = session_repo world3" "clock (with_routes R rs) = 0"
  "member_repo (with_routes R rs) = sample_members"
  "rt_routes (route_repo (with_routes R rs)) n =
     map_option (\<lambda>r. wrapper_new 0 r ROUTES_EXPIRATION_TIME) (R n)"
  "rt_conversations (route_repo (with_routes R rs)) =
     [''c1'' \<mapsto> wrapper_new 0 (sample_conversation ''c1'' rs) CONVERSATIONS_EXPIRATION_TIME]"
  "live_session (with_routes R rs) = live_session world3"
  "stored_conversation (with_routes R rs) = [''c1'' \<mapsto> sample_conversation ''c1'' rs]"
  "stored_route (with_routes R rs) c n = R n"
  by (simp_all add: with_routes_def live_session_def stored_conversation_def stored_route_def
      fun_eq_iff option.map_comp comp_def option.map_ident)

lemma live_world3 [simp]:
  "live_session world3 k =
     (if k = ''k1'' then Some (sample_session_of ''k1'' Proxy ''p1'' ''pp'')
      else if k = ''k2'' then Some (sample_session_of ''k2'' Client ''alice'' ''pa'')
      else if k = ''k3'' then Some (sample_session_of ''k3'' Client ''bob'' ''b2'') else None)"
  by (simp add: live_session_def)

lemma touch_with_routes [simp]: "touch ''k2'' (with_routes R rs) = with_routes R rs"
  by (simp add: touch_def inmem_get_session_def fun_upd_idem renew_def wrapper_new_def)

lemma touch_world3 [simp]: "touch ''k2'' world3 = world3"
  by (simp add: touch_def inmem_get_session_def fun_upd_idem renew_def wrapper_new_def)

lemma world4_step:
  "answer sample_deployment (sample_su [''p1''] ''c-1'') (Initialize ''k2'' ''bob'') world3 =
     (Ok (Initialized ''c1''), world4)"
  by (simp add: answer_def map_ok_run initialize_closed Let_def create_conversation_id_def
      inmem_set_conversation_def world4_def with_routes_def sample_conversation_def
      new_conversation_def init_target_def new_route_tables_def)

lemma issue_with_routes:
  assumes "R n = None" and "r = hop_route n e s"
  shows "issue n ''c1'' e s (with_routes R rs) =
    (Ok (hop_response n e s), with_routes (R(n \<mapsto> r)) (rs @ [r]))"
proof -
  have "(\<lambda>m. map_option (\<lambda>r. wrapper_new 0 r ROUTES_EXPIRATION_TIME) ((R(n \<mapsto> r)) m)) =
      (\<lambda>m. map_option (\<lambda>r. wrapper_new 0 r ROUTES_EXPIRATION_TIME) (R m))
        (n \<mapsto> wrapper_new 0 r ROUTES_EXPIRATION_TIME)"
    by (simp add: fun_eq_iff)
  then show ?thesis
    using assms
    by (simp add: issue_def inmem_set_route_def Let_def with_routes_def del: fun_upd_apply)
       (simp add: wrapper_new_def)
qed

lemma next_route_to_p1:
  assumes "R n = None" and "length rs \<noteq> 3"
  shows "answer sample_deployment (sample_su [''p1''] n) (Next_Route ''k2'' ''c1'') (with_routes R rs) =
    (Ok (Hop (hop_response n False (sample_session_of ''k1'' Proxy ''p1'' ''pp''))),
     with_routes (R(n \<mapsto> hop_to_p1 n)) (rs @ [hop_to_p1 n]))"
proof -
  have "inmem_get_proxies [''p1''] ''k2'' (session_repo world3) =
      Some [sample_session_of ''k1'' Proxy ''p1'' ''pp'']"
    by (simp add: inmem_get_proxies_def proxy_sessions_def List.map_filter_simps)
  with assms show ?thesis
    by (simp add: answer_def map_ok_run route_closed next_hop_def random_next_route_def ret_def
        pick_first_def issue_with_routes hop_to_p1_def)
qed

lemma next_route_to_bob:
  assumes "R n = None" and "length rs = 3"
  shows "answer sample_deployment (sample_su [''p1''] n) (Next_Route ''k2'' ''c1'') (with_routes R rs) =
    (Ok (Hop (hop_response n True (sample_session_of ''k3'' Client ''bob'' ''b2''))),
     with_routes (R(n \<mapsto> hop_to_bob n)) (rs @ [hop_to_bob n]))"
  using assms
  by (simp add: answer_def map_ok_run route_closed next_hop_def inmem_get_client_def
      issue_with_routes hop_to_bob_def)

lemma fair_with_routes:
  assumes "R u = None" and "create_conversation_id u \<noteq> ''c1''" and "u \<notin> {''k1'', ''k2'', ''k3''}"
  shows "fair (sample_su [''p1''] u) (with_routes R rs)"
  by (rule fair_sample) (use assms in \<open>auto simp: fresh_session_key_def enumerates_def ran_def
      split: if_splits\<close>)

lemma fair_world3: "u \<notin> {''k1'', ''k2'', ''k3''} \<Longrightarrow> fair (sample_su [''p1''] u) world3"
  by (rule fair_sample) (auto simp: fresh_session_key_def enumerates_def ran_def split: if_splits)

lemma run_append: "run d u es v \<Longrightarrow> run d v fs w \<Longrightarrow> run d u (es @ fs) w"
  by (induction rule: run.induct) (auto intro: run_cons)

lemma run_one: "fair su w \<Longrightarrow> answer d su rq w = (r, w') \<Longrightarrow> run d w' es v \<Longrightarrow>
    run d w (Request su rq # es) v"
  by (rule run_cons [OF step.request])

lemma reachable_run: "reachable d v \<Longrightarrow> run d v es w \<Longrightarrow> reachable d w"
  unfolding reachable_def by (meson run_append)

lemma world0_reachable: "reachable sample_deployment world0"
  using sample_seeded run_nil unfolding reachable_def by blast

lemma world3_reachable: "reachable sample_deployment world3"
  by (rule reachable_run [OF world0_reachable world3_run])

lemma world4_run:
  "run sample_deployment world3 [Request (sample_su [''p1''] ''c-1'') (Initialize ''k2'' ''bob'')] world4"
  by (rule run_one [OF fair_world3 world4_step run_nil]) simp

lemma world4_reachable: "reachable sample_deployment world4"
  by (rule reachable_run [OF world3_reachable world4_run])

definition ask_hop :: "string \<Rightarrow> event" where
  "ask_hop n = Request (sample_su [''p1''] n) (Next_Route ''k2'' ''c1'')"

lemma run_ask_p1:
  assumes "R n = None" and "length rs \<noteq> 3" and "create_conversation_id n \<noteq> ''c1''"
    and "n \<notin> {''k1'', ''k2'', ''k3''}"
    and "run sample_deployment (with_routes (R(n \<mapsto> hop_to_p1 n)) (rs @ [hop_to_p1 n])) es w"
  shows "run sample_deployment (with_routes R rs) (ask_hop n # es) w"
  unfolding ask_hop_def
proof (rule run_one)
  show "fair (sample_su [''p1''] n) (with_routes R rs)" by (rule fair_with_routes) fact+
qed (rule next_route_to_p1, fact+)

lemma run_ask_bob:
  assumes "R n = None" and "length rs = 3" and "create_conversation_id n \<noteq> ''c1''"
    and "n \<notin> {''k1'', ''k2'', ''k3''}"
    and "run sample_deployment (with_routes (R(n \<mapsto> hop_to_bob n)) (rs @ [hop_to_bob n])) es w"
  shows "run sample_deployment (with_routes R rs) (ask_hop n # es) w"
  unfolding ask_hop_def
proof (rule run_one)
  show "fair (sample_su [''p1''] n) (with_routes R rs)" by (rule fair_with_routes) fact+
qed (rule next_route_to_bob, fact+)

lemma world8_run: "run sample_deployment world4 (map ask_hop [''n0'', ''n1'', ''n2'', ''n3'']) world8"
  unfolding world4_def world8_def list.map
  by (rule run_ask_p1, simp, simp, simp add: create_conversation_id_def, simp,
      rule run_ask_p1, simp, simp, simp add: create_conversation_id_def, simp,
      rule run_ask_p1, simp, simp, simp add: create_conversation_id_def, simp,
      rule run_ask_bob, simp, simp, simp add: create_conversation_id_def, simp,
      simp add: run_nil)

lemma world8_reachable: "reachable sample_deployment world8"
  by (rule reachable_run [OF world4_reachable world8_run])

subsection \<open>The theorems at work\<close>

theorem unknown_key_rejected_witness:
  "answer sample_deployment (sample_su [] ''u'') (Status ''zz'') world3 =
     (Err (mk_status Unauthenticated ''Invalid access key''), world3)"
  using unknown_key_rejected [of world3 "''zz''" "Status ''zz''"] by simp

theorem member_file_decides_login_witness:
  "(\<exists>x. fst (answer sample_deployment (sample_su [] ''k1'') (Login (sample_login Client ''bob'' ''b2''))
           world0) = Ok x)"
proof -
  let ?ms = "[new_member ''alice'' ''pa'', new_member ''p1'' ''pp'', new_member ''bob'' ''b1'',
    new_member ''bob'' ''b2'']"
  have ms: "members_of_records (sample_csv [1]) = Some ?ms" by (simp add: sample_csv_def)
  have split: "?ms = [new_member ''alice'' ''pa'', new_member ''p1'' ''pp'', new_member ''bob'' ''b1''] @
      new_member ''bob'' ''b2'' # []" by simp
  have env: "env_var sample_env ''MEMBERS_CSV_FILE'' = Some ''m.csv''"
    "read_file sample_env ''m.csv'' = Some [1]"
    by (simp_all add: sample_env_def)
  show ?thesis
  proof (rule member_file_decides_login [OF sample_seeded env ms run_nil, THEN iffD2])
    show "\<exists>as m bs. ?ms = as @ m # bs \<and> mb_uid m = lr_uid (sample_login Client ''bob'' ''b2'') \<and>
        mb_pwd m = lr_pwd (sample_login Client ''bob'' ''b2'') \<and>
        lr_uid (sample_login Client ''bob'' ''b2'') \<notin> mb_uid ` set bs"
      by (intro exI conjI, rule split) (simp_all add: new_member_def)
  qed simp_all
qed

theorem session_lifecycle_witness:
  "fst (answer sample_deployment (sample_su [] ''u'') (Ping ''k1'') (log_in ''k1'' Proxy ''p1'' ''pp'' world0))
     = Ok (Pong \<lparr>presp_status = ''PONG'', presp_timestamp = 7\<rparr>)
   \<and> fst (answer sample_deployment ((sample_su [] ''u'')\<lparr>su_remote_addr := Some away\<rparr>) (Ping ''k1'')
         (log_in ''k1'' Proxy ''p1'' ''pp'' world0))
     = Err (mk_status Unauthenticated ''Invalid connection'')"
proof -
  have login: "answer sample_deployment (sample_su [] ''k1'') (Login (sample_login Proxy ''p1'' ''pp''))
      world0 = (Ok (Logged_In \<lparr>lresp_access_key = ''k1'', lresp_message = ''Login successful''\<rparr>),
        log_in ''k1'' Proxy ''p1'' ''pp'' world0)"
    by (rule sample_log_in) (simp_all add: sample_credentials)
  show ?thesis
    using session_lifecycle [OF login, of "sample_su [] ''u''" home]
      session_lifecycle [OF login, of "(sample_su [] ''u'')\<lparr>su_remote_addr := Some away\<rparr>" away]
    by (simp add: home_def away_def)
qed

lemma world8_ok: "world_ok world8"
  using reachable_inv [OF world8_reachable]
  by (simp add: world_ok_def controller_inv_def session_wf_def)

lemma world8_stored [simp]:
  "stored_conversation world8 = [''c1'' \<mapsto> sample_conversation ''c1''
     [hop_to_p1 ''n0'', hop_to_p1 ''n1'', hop_to_p1 ''n2'', hop_to_bob ''n3'']]"
  "stored_route world8 c ''n3'' = Some (hop_to_bob ''n3'')"
  "live_session world8 = live_session world3"
  by (simp_all add: world8_def)

theorem redeem_exact_witness:
  "fst (answer sample_deployment (sample_su [] ''u'') (Redeem ''k3'' ''c1'' ''n3'') world8) =
     Ok (Redeemed (Some ''alice''))"
  using redeem_exact [OF world8_ok, of "''k3''" "sample_session_of ''k3'' Client ''bob'' ''b2''" "''c1''"
      _ "''n3''" sample_deployment "sample_su [] ''u''"]
  by (simp split: prod.splits)

theorem nonce_single_use_witness:
  "fst (answer sample_deployment (sample_su [] ''u2'') (Redeem ''k2'' ''c1'' ''n0'')
      (snd (answer sample_deployment (sample_su [''p1''] ''u'') (Redeem ''k1'' ''c1'' ''n0'') world8)
         \<lparr>clock := 5\<rparr>)) \<noteq> Ok (Redeemed None)"
proof -
  let ?su = "sample_su [''p1''] ''u''"
  have "stored_route world8 ''c1'' ''n0'' = Some (hop_to_p1 ''n0'')" by (simp add: world8_def)
  then obtain w1 where w1: "answer sample_deployment ?su (Redeem ''k1'' ''c1'' ''n0'') world8 = (Ok (Redeemed None), w1)"
    by (simp add: answer_def map_ok_run redeem_closed)
  then have "clock w1 = 0"
    using w1 \<open>stored_route world8 ''c1'' ''n0'' = _\<close>
    by (auto simp: answer_def map_ok_run redeem_closed world8_def)
  then have "run sample_deployment w1 [Tick 5] (w1\<lparr>clock := 5\<rparr>)"
    using step.tick [of sample_deployment w1 5] by (auto intro: run_cons run_nil)
  moreover have "fair ?su world8"
    unfolding world8_def by (rule fair_with_routes) (simp_all add: create_conversation_id_def)
  ultimately show ?thesis
    using nonce_single_use [OF world8_reachable w1] by (simp add: w1)
qed

definition two_conversations :: world where
  "two_conversations = world8\<lparr>route_repo := (route_repo world8)
     \<lparr>rt_conversations := (rt_conversations (route_repo world8))(''c2'' \<mapsto>
        wrapper_new 0 (new_conversation ''c2'' ''p1'' ''alice'' 1) CONVERSATIONS_EXPIRATION_TIME)\<rparr>\<rparr>"

lemma two_conversations_stored:
  "live_session two_conversations ''k2'' = Some (sample_session_of ''k2'' Client ''alice'' ''pa'')"
  "stored_conversation two_conversations ''c1'' = Some (sample_conversation ''c1''
     [hop_to_p1 ''n0'', hop_to_p1 ''n1'', hop_to_p1 ''n2'', hop_to_bob ''n3''])"
  "stored_conversation two_conversations ''c2'' = Some (new_conversation ''c2'' ''p1'' ''alice'' 1)"
  "stored_route two_conversations ''c1'' (rt_nonce (hop_to_bob ''n3'')) = Some (hop_to_bob ''n3'')"
  by (simp_all add: two_conversations_def world8_def stored_conversation_def stored_route_def)

theorem nonce_redeemable_elsewhere_witness:
  "\<exists>w'. answer sample_deployment (sample_su [] ''u'') (Redeem ''k2'' ''c2'' ''n3'') two_conversations =
      (Ok (Redeemed (Some ''p1'')), w') \<and> stored_conversation w' ''c2'' = None"
proof -
  note stored = two_conversations_stored
  have "\<exists>w'. answer sample_deployment (sample_su [] ''u'')
        (Redeem ''k2'' ''c2'' (rt_nonce (hop_to_bob ''n3''))) two_conversations =
      (Ok (Redeemed (Some (conv_from (new_conversation ''c2'' ''p1'' ''alice'' 1)))), w')
      \<and> stored_conversation w' ''c2'' = None"
    using nonce_redeemable_elsewhere [OF stored(1) _ stored(2,3) _ _ stored(4),
        of sample_deployment "sample_su [] ''u''"]
    by (elim meta_impE) (simp, simp, simp, blast)
  then show ?thesis by (simp add: new_conversation_def)
qed

lemma world8_conversation:
  "stored_conversation world8 ''c1'' = Some (sample_conversation ''c1''
     [hop_to_p1 ''n0'', hop_to_p1 ''n1'', hop_to_p1 ''n2'', hop_to_bob ''n3''])"
  by simp

theorem fourth_hop_is_the_end_witness:
  "rt_end_route (conv_routes (sample_conversation ''c1''
     [hop_to_p1 ''n0'', hop_to_p1 ''n1'', hop_to_p1 ''n2'', hop_to_bob ''n3'']) ! 3)"
  by (rule fourth_hop_is_the_end [OF world8_reachable world8_conversation, THEN conjunct1, THEN iffD2])
     simp_all

theorem senders_are_members_witness: "known_uid sample_deployment world8 ''alice''"
proof -
  from senders_are_members [OF world8_reachable, THEN conjunct2] world8_conversation
  have "known_uid sample_deployment world8 (conv_from (sample_conversation ''c1''
     [hop_to_p1 ''n0'', hop_to_p1 ''n1'', hop_to_p1 ''n2'', hop_to_bob ''n3'']))"
    by blast
  then show ?thesis by (simp only: sample_conversation_sel)
qed

theorem next_route_exact_witness:
  "\<exists>h w'. answer sample_deployment (sample_su [''p1''] ''n0'') (Next_Route ''k2'' ''c1'') world4 =
      (Ok (Hop h), w') \<and> \<not> rr_end_route h
      \<and> stored_route w' ''c1'' ''n0'' = Some (hop_to_p1 ''n0'')"
proof -
  have f: "fair (sample_su [''p1''] ''n0'') world4"
    unfolding world4_def by (rule fair_with_routes) (simp_all add: create_conversation_id_def)
  have l: "live_session world4 ''k2'' = Some (sample_session_of ''k2'' Client ''alice'' ''pa'')"
    and c: "stored_conversation world4 ''c1'' = Some (sample_conversation ''c1'' [])"
    by (simp_all add: world4_def)
  have run: "answer sample_deployment (sample_su [''p1''] ''n0'') (Next_Route ''k2'' ''c1'') world4 =
      (Ok (Hop (hop_response ''n0'' False (sample_session_of ''k1'' Proxy ''p1'' ''pp''))),
       with_routes [''n0'' \<mapsto> hop_to_p1 ''n0''] ([] @ [hop_to_p1 ''n0'']))"
    unfolding world4_def by (rule next_route_to_p1) simp_all
  with next_route_exact [OF world4_reachable f l c] show ?thesis by (simp add: run)
qed

theorem hops_are_typed_witness:
  "\<exists>x t. stored_conversation world4 ''c1'' = Some x \<and> live_session world4 (ss_access_key t) = Some t
    \<and> ss_on_ip_address t = ''10.0.0.9'' \<and> ss_component_type t = u8_from_component Proxy
    \<and> ss_access_key t \<noteq> ''k2''"
proof -
  have f: "fair (sample_su [''p1''] ''n0'') world4"
    unfolding world4_def by (rule fair_with_routes) (simp_all add: create_conversation_id_def)
  have run: "answer sample_deployment (sample_su [''p1''] ''n0'') (Next_Route ''k2'' ''c1'') world4 =
      (Ok (Hop (hop_response ''n0'' False (sample_session_of ''k1'' Proxy ''p1'' ''pp''))),
       with_routes [''n0'' \<mapsto> hop_to_p1 ''n0''] ([] @ [hop_to_p1 ''n0'']))"
    unfolding world4_def by (rule next_route_to_p1) simp_all
  have hop: "rr_ip_address (hop_response ''n0'' False (sample_session_of ''k1'' Proxy ''p1'' ''pp'')) = ''10.0.0.9''"
    "\<not> rr_end_route (hop_response ''n0'' False (sample_session_of ''k1'' Proxy ''p1'' ''pp''))"
    by (simp_all add: hop_response_def sample_session_of_def login_session_def sample_login_def)
  from hops_are_typed [OF world4_reachable f run] hop show ?thesis by auto
qed

theorem only_bad_component_panics_witness:
  "fst (answer sample_deployment (sample_su [''p1''] ''u'')
      (Login ((sample_login Client ''bob'' [])\<lparr>lr_component_type := 7\<rparr>)) world3) = Panic"
proof -
  have f: "fair (sample_su [''p1''] ''u'') world3" by (rule fair_world3) simp
  have "component_from_i32 7 = None" by (simp add: component_from_i32_def)
  then show ?thesis
    by (intro only_bad_component_panics [OF world3_reachable f, THEN iffD2] exI conjI) (rule refl, simp_all)
qed

theorem routing_data_expires_witness:
  "stored_route (world8\<lparr>clock := 60001, route_repo := kill_expired_routes 60001 (route_repo world8)\<rparr>)
     ''c1'' ''n3'' = None
   \<and> stored_conversation (world8\<lparr>clock := 60001, route_repo := kill_expired_routes 60001 (route_repo world8)\<rparr>)
     ''c1'' = None"
proof -
  let ?v = "world8\<lparr>clock := 60001\<rparr>"
  have clock: "clock world8 = 0" by (simp add: world8_def)
  have r: "run sample_deployment world8 [Tick 60001] ?v"
    using step.tick [of sample_deployment world8 60001] by (auto simp: clock intro: run_cons run_nil)
  have "step sample_deployment ?v Sweep_Routes
      (world8\<lparr>clock := 60001, route_repo := kill_expired_routes 60001 (route_repo world8)\<rparr>)"
    using step.sweep_routes [of sample_deployment ?v] by simp
  from routing_data_expires [OF world8_reachable r _ this, of "''n3''" "''c1''" "''c1''"]
  show ?thesis by (simp add: clock)
qed

theorem random_route_never_last_witness:
  "(random_next_route pick_first [sample_session_of ''k1'' Proxy ''p1'' ''pp'',
      sample_session_of ''k4'' Proxy ''p2'' ''pp''] world0 :: (session_info option, status) outcome \<times> world) =
   (Ok (Some (sample_session_of ''k1'' Proxy ''p1'' ''pp'')), world0)
   \<and> sample_session_of ''k1'' Proxy ''p1'' ''pp'' \<in>
       set (butlast [sample_session_of ''k1'' Proxy ''p1'' ''pp'', sample_session_of ''k4'' Proxy ''p2'' ''pp''])"
proof -
  let ?ps = "[sample_session_of ''k1'' Proxy ''p1'' ''pp'', sample_session_of ''k4'' Proxy ''p2'' ''pp'']"
  have "(random_next_route pick_first ?ps world0 :: (session_info option, status) outcome \<times> world) =
      (Ok (Some (sample_session_of ''k1'' Proxy ''p1'' ''pp'')), world0)"
    by (simp add: random_next_route_def pick_first_def ret_def)
  with random_route_never_last [OF picks_pick_first, where w = world0 and ps = ?ps and ?'e = status]
  show ?thesis by simp
qed

text \<open>Alice and the proxy have logged in just now; either of them may have opened the conversation.\<close>

theorem sender_stays_private_witness:
  "fst (perform sample_deployment (Request (sample_su [] ''u'') (Initialize ''k2'' ''bob'')) world3) =
     fst (perform sample_deployment (Request (sample_su [] ''u'') (Initialize ''k1'' ''bob'')) world3)
   \<and> indistinguishable sample_deployment
       [Request (sample_su [''p1''] ''v'') (Next_Route ''k3'' (create_conversation_id ''u'')),
        Request (sample_su [] ''x'') (Redeem ''k1'' (create_conversation_id ''u'') ''v'')]
       (snd (perform sample_deployment (Request (sample_su [] ''u'') (Initialize ''k2'' ''bob'')) world3))
       (snd (perform sample_deployment (Request (sample_su [] ''u'') (Initialize ''k1'' ''bob'')) world3))"
proof (rule sender_stays_private)
  show "touch ''k2'' world3 = world3" "touch ''k1'' world3 = world3"
    by (simp_all add: touch_def inmem_get_session_def world3_def log_in_def put_session_def renew_def
        wrapper_new_def Let_def fun_upd_twist)
qed simp_all

end
