(* ===== verification/Node_Samples.thy ===== *)
theory Node_Samples
  imports Proxy_Node Client_Node
begin

section \<open>Concrete proxies and clients\<close>

text \<open>
  A transport whose remote calls all succeed, a small runtime with a clock, and the theorems on
  the gateway, the proxy and the client applied to them.
\<close>

definition sample_transport :: "(string, unit, nat) transport" where
  "sample_transport =
     \<lparr>tp_uri_try_from = Some, tp_tls_error = (\<lambda>_ _. None), tp_connect = (\<lambda>_ _ _. ret ()),
      tp_login = (\<lambda>_ _. ret \<lparr>lresp_access_key = ''k1'', lresp_message = []\<rparr>),
      tp_logout = (\<lambda>_ _. ret ()),
      tp_ping = (\<lambda>_ _. ret \<lparr>presp_status = ''PONG'', presp_timestamp = 0\<rparr>),
      tp_initialize = (\<lambda>_ _ _. ret ''c1''), tp_route = (\<lambda>_ _ _. throw (mk_status NotFound [])),
      tp_redeem = (\<lambda>_ _ _ n. if n = ''n1'' then ret (Some ''alice'') else throw (mk_status Internal [])),
      tp_status = (\<lambda>_ _. throw (mk_status NotFound [])), tp_execute_command = (\<lambda>_ _. ret None),
      tp_receive = (\<lambda>_ _. ret ()), tp_show_status = st_message\<rparr>"

lemma sample_transport_sel [simp]:
  "tp_login sample_transport c r = ret \<lparr>lresp_access_key = ''k1'', lresp_message = []\<rparr>"
  "tp_logout sample_transport c k = ret ()"
  "tp_redeem sample_transport c k v n =
     (if n = ''n1'' then ret (Some ''alice'') else throw (mk_status Internal []))"
  by (simp_all add: sample_transport_def)

definition sample_node :: "client_session \<Rightarrow> (unit, nat) node" where
  "sample_node session =
     \<lparr>nd_auth = \<lparr>ac_session = 0, ac_client = Some (),
        ac_credentials = \<lparr>cred_uid = ''p1'', cred_pwd = ''pp''\<rparr>,
        ac_connection_settings = \<lparr>cs_ip = ''10.0.0.9'', cs_port = 4000, cs_domain_name = ''p1'',
          cs_certificate = []\<rparr>, ac_component_type = Proxy\<rparr>,
      nd_cells = [session], nd_net = 0\<rparr>"

theorem logout_leaves_shared_session_witness:
  "\<exists>w1 w2. client_login sample_transport (sample_node default_client_session) = (Ok (), w1)
     \<and> client_logout sample_transport w1 = (Ok (), w2)
     \<and> nd_cells w2 ! 0 = \<lparr>cl_access_key = Some ''k1'', cl_uid = Some ''p1''\<rparr>
     \<and> client_is_authenticated (node_session w1) \<and> \<not> client_is_authenticated (node_session w2)"
proof -
  let ?w = "sample_node default_client_session"
  define w1 where "w1 = snd (client_login sample_transport ?w)"
  define w2 where "w2 = snd (client_logout sample_transport w1)"
  have login: "client_login sample_transport ?w = (Ok (), w1)"
    and cells: "nd_cells w1 = [\<lparr>cl_access_key = Some ''k1'', cl_uid = Some ''p1''\<rparr>]"
    by (simp_all add: w1_def client_login_def sample_node_def on_net_def prog_simps
        write_session_def client_set_session_def default_client_session_def node_session_def)
  then have logout: "client_logout sample_transport w1 = (Ok (), w2)"
    by (simp_all add: w2_def w1_def client_login_def client_logout_def sample_node_def on_net_def
        prog_simps write_session_def)
  have "ac_session (nd_auth ?w) = 0" "0 < length (nd_cells ?w)" by (simp_all add: sample_node_def)
  with logout_leaves_shared_session [OF login _ logout] login logout cells show ?thesis by auto
qed

subsection \<open>A clock\<close>

record beat =
  bt_now :: instant
  bt_pings :: "instant list"
  bt_until :: instant

definition beat_runtime :: "beat runtime" where
  "beat_runtime =
     \<lparr>rn_cancelled = (\<lambda>w. bt_until w \<le> bt_now w), rn_now = bt_now,
      rn_sleep = (\<lambda>d w. w\<lparr>bt_now := bt_now w + d + 2\<rparr>)\<rparr>"

definition beat_authenticator :: "beat authenticator" where
  "beat_authenticator =
     \<lparr>au_initialize = ret (), au_login = ret (), au_logout = ret (),
      au_ping = (\<lambda>w. (Ok (''PONG'', 0), w\<lparr>bt_now := bt_now w + 3, bt_pings := bt_pings w @ [bt_now w]\<rparr>)),
      au_get_session = (\<lambda>_. \<lparr>cl_access_key = Some ''k1'', cl_uid = Some ''p1''\<rparr>),
      au_is_authenticated = (\<lambda>_. True)\<rparr>"

lemma beat_sel [simp]:
  "rn_cancelled beat_runtime w = (bt_until w \<le> bt_now w)" "rn_now beat_runtime w = bt_now w"
  "rn_sleep beat_runtime d w = w\<lparr>bt_now := bt_now w + d + 2\<rparr>"
  "au_ping beat_authenticator w =
     (Ok (''PONG'', 0), w\<lparr>bt_now := bt_now w + 3, bt_pings := bt_pings w @ [bt_now w]\<rparr>)"
  "au_login beat_authenticator = ret ()" "au_logout beat_authenticator = ret ()"
  "au_is_authenticated beat_authenticator w"
  "au_get_session beat_authenticator w = \<lparr>cl_access_key = Some ''k1'', cl_uid = Some ''p1''\<rparr>"
  by (simp_all add: beat_runtime_def beat_authenticator_def)

definition beat_start :: beat where
  "beat_start = \<lparr>bt_now = 0, bt_pings = [], bt_until = 12000\<rparr>"

lemma beat_keep_alive:
  "keep_alive beat_runtime beat_authenticator (Suc (Suc (Suc (Suc n)))) beat_start =
     Some (Ok (), \<lparr>bt_now = 15015, bt_pings = [5002, 10007, 15012], bt_until = 12000\<rparr>)"
  by (simp add: keep_alive_def beat_start_def get_next_ping_duration_def PING_INTERVAL_def Let_def)

theorem auth_handler_logs_out_witness:
  "\<exists>v. rn_cancelled beat_runtime v \<and>
     \<lparr>bt_now = 15015, bt_pings = [5002, 10007, 15012], bt_until = 12000\<rparr> =
       snd (au_logout beat_authenticator v)"
proof -
  have "authenticate beat_authenticator beat_start = (Ok ''k1'', beat_start)"
    by (simp add: authenticate_def prog_simps)
  then have "auth_handler beat_runtime beat_authenticator (Suc (Suc (Suc (Suc (Suc 0))))) beat_start =
      Some (Ok (), \<lparr>bt_now = 15015, bt_pings = [5002, 10007, 15012], bt_until = 12000\<rparr>)"
    using beat_keep_alive [of 0]
    by (simp add: auth_finish_def ret_def) (simp add: beat_start_def)
  from auth_handler_logs_out [OF this] show ?thesis by blast
qed

text \<open>The same clock with a deadline of its own, which no step of the task can move.\<close>

definition deadline_runtime :: "beat runtime" where
  "deadline_runtime = beat_runtime\<lparr>rn_cancelled := (\<lambda>w. 12000 \<le> bt_now w)\<rparr>"

lemma deadline_runtime_sel [simp]:
  "rn_cancelled deadline_runtime w = (12000 \<le> bt_now w)" "rn_now deadline_runtime w = bt_now w"
  "rn_sleep deadline_runtime d w = w\<lparr>bt_now := bt_now w + d + 2\<rparr>"
  by (simp_all add: deadline_runtime_def)

lemma deadline_cancelled: "cancelled_from deadline_runtime beat_authenticator 12000"
  by (simp add: cancelled_from_def ret_def)

lemma deadline_keep_alive:
  "keep_alive deadline_runtime beat_authenticator (Suc (Suc (Suc (Suc n)))) beat_start =
     Some (Ok (), \<lparr>bt_now = 15015, bt_pings = [5002, 10007, 15012], bt_until = 12000\<rparr>)"
  by (simp add: keep_alive_def beat_start_def get_next_ping_duration_def PING_INTERVAL_def Let_def)

text \<open>Three pings go out before the deadline is seen: the third is under way when it passes.\<close>

theorem pings_are_timely_witness:
  "keep_alive deadline_runtime beat_authenticator 13 beat_start =
     Some (Ok (), \<lparr>bt_now = 15015, bt_pings = [5002, 10007, 15012], bt_until = 12000\<rparr>)
   \<and> (\<exists>p \<in> set [5002, 10007, 15012]. (10010 :: nat) \<le> p \<and> p \<le> 10010 + (5000 + 2 + 3))"
proof -
  have timely: "timely deadline_runtime beat_authenticator bt_pings 2 3"
    by (simp add: timely_def)
  have "Suc (Suc (Suc (Suc 9))) = 13" by simp
  with deadline_keep_alive [of 9]
  have run: "keep_alive deadline_runtime beat_authenticator 13 beat_start =
     Some (Ok (), \<lparr>bt_now = 15015, bt_pings = [5002, 10007, 15012], bt_until = 12000\<rparr>)"
    by (simp only:)
  from pings_are_timely [OF timely deadline_cancelled, of beat_start 12] obtain r w'
    where same: "keep_alive deadline_runtime beat_authenticator (12 + 1) beat_start = Some (r, w')"
      and windows: "\<forall>t. bt_now beat_start \<le> t \<longrightarrow> t + (5000 + 2 + 3) \<le> bt_now w' \<longrightarrow>
        (\<exists>p \<in> set (bt_pings w'). t \<le> p \<and> p \<le> t + (5000 + 2 + 3) \<and> p \<le> t + 10000)"
    by (auto simp: beat_start_def)
  have "w' = \<lparr>bt_now = 15015, bt_pings = [5002, 10007, 15012], bt_until = 12000\<rparr>"
    using same run by simp
  then have "\<exists>p \<in> set [5002, 10007, 15012]. (10010 :: nat) \<le> p \<and> p \<le> 10010 + (5000 + 2 + 3)"
    using windows [rule_format, of 10010] by (auto simp: beat_start_def)
  with run show ?thesis by blast
qed

theorem auth_handler_ends_witness:
  "\<exists>r w'. auth_handler deadline_runtime beat_authenticator (12 + 2) beat_start = Some (r, w')
     \<and> (r = Ok () \<or> r = Panic)"
proof (rule auth_handler_ends)
  show "cancelled_from deadline_runtime beat_authenticator 12000" by (rule deadline_cancelled)
  show "12000 \<le> rn_now deadline_runtime beat_start + 1000 * 12"
    by (simp add: beat_start_def)
qed

subsection \<open>The proxy service\<close>

definition node_env :: environment where
  "node_env =
     \<lparr>env_var = [''CONTROLLER_IP'' \<mapsto> ''10.0.0.1'', ''CONTROLLER_PORT'' \<mapsto> ''50050'',
                 ''CONTROLLER_DOMAIN_NAME'' \<mapsto> ''controller'', ''CONTROLLER_CERT_FILE'' \<mapsto> ''ca.crt''],
      current_dir = Some ''/'', read_file = Map.empty\<rparr>"

lemma node_env_controller:
  "component_connection_settings node_env Controller =
     Ok \<lparr>cs_ip = ''10.0.0.1'', cs_port = 50050, cs_domain_name = ''controller'', cs_certificate = []\<rparr>"
proof -
  have "parse_u16 ''50050'' = Some 50050"
    by (simp add: parse_u16_def parse_unsigned_def digit_value_def byte_def)
  then show ?thesis
    by (simp add: result_or_def get_controller_connection_settings_def load_connection_settings_def
        get_service_endpoint_def get_env_variable_def node_env_def get_domain_name_def
        get_controller_cert_file_def get_connection_settings_def)
qed

lemma sample_controller_channel:
  "open_controller_channel sample_transport node_env f n = (Ok (), n)"
  unfolding open_controller_channel_def lift_outcome_def node_env_controller
  by (simp add: get_public_endpoint_def to_https_endpoint_def to_endpoint_def open_channel_def
      sample_transport_def prog_simps)

definition sample_service ::
  "(string, unit route_client, unit info_client, (string, unit) landing_client,
    (string, unit) proxy_client, (unit, nat) node) proxy_service" where
  "sample_service = new_proxy_service sample_transport node_env (\<lambda>_. [])"

definition logged_in_node :: "(unit, nat) node" where
  "logged_in_node = sample_node \<lparr>cl_access_key = Some ''k1'', cl_uid = Some ''p1''\<rparr>"

lemma sample_service_sel [simp]:
  "ps_router_factory sample_service = route_client_factory sample_transport node_env"
  "ps_authenticator sample_service = auth_client_authenticator sample_transport node_env"
  by (simp_all add: sample_service_def new_proxy_service_def)

lemma sample_router:
  "rf_initialize (route_client_factory sample_transport node_env)
     (rf_get_router (route_client_factory sample_transport node_env)) w = (Ok \<lparr>rc_client = Some ()\<rparr>, w)"
  "rf_redeem (route_client_factory sample_transport node_env) \<lparr>rc_client = Some ()\<rparr> c k n w =
     (if n = ''n1'' then Ok (Some ''alice'') else Err ''Impossible to redeem a route'', w)"
  by (simp_all add: route_client_factory_def route_client_initialize_def new_route_client_def
      on_net_def prog_simps sample_controller_channel route_client_redeem_def)

lemma logged_in [simp]:
  "au_is_authenticated (auth_client_authenticator sample_transport node_env) logged_in_node"
  "au_get_session (auth_client_authenticator sample_transport node_env) logged_in_node =
     \<lparr>cl_access_key = Some ''k1'', cl_uid = Some ''p1''\<rparr>"
  by (simp_all add: auth_client_authenticator_def logged_in_node_def sample_node_def
      node_session_def client_is_authenticated_def)

definition sample_command :: "string \<Rightarrow> command_request" where
  "sample_command n =
     \<lparr>cr_conversation_id = ''c1'', cr_nonce = n, cr_command = 0, cr_content = None\<rparr>"

theorem command_needs_redeemed_nonce_witness:
  "\<exists>router w1 a w2. rf_redeem (ps_router_factory sample_service) router ''c1'' ''k1'' ''n1'' w1 = (Ok a, w2)"
proof -
  have "fst (execute_command sample_service (sample_command ''n1'') logged_in_node) = Ok None"
    by (simp add: execute_command_def check_authentication_def sample_command_def proxy_redeem_def
        Let_def prog_simps sample_router command_from_i32_def)
  from command_needs_redeemed_nonce [OF this] show ?thesis
    by (auto simp: sample_command_def)
qed

theorem refused_command_does_nothing_witness:
  "execute_command sample_service (sample_command ''n2'') logged_in_node =
     (Err (mk_status Internal ''Failed to redeem route''), logged_in_node)"
  by (rule refused_command_does_nothing [THEN conjunct2, rule_format,
        where access_key = "''k1''" and router = "\<lparr>rc_client = Some ()\<rparr>" and ?w1.0 = logged_in_node
          and e = "''Impossible to redeem a route''"])
     (simp add: sample_router sample_command_def)

subsection \<open>The client\<close>

theorem send_command_parsed_witness:
  "command_from_str ''/SEND bob hi there'' = Ok (Send ''bob'' (as_bytes ''hi there''))"
proof -
  have "trim (CHR ''h'' # ''i ther'' @ [CHR ''e'']) = CHR ''h'' # ''i ther'' @ [CHR ''e'']"
    by (rule trim_plain) (simp_all add: byte_def)
  then have trim: "trim (CHR '' '' # ''hi there'') = ''hi there''"
    by (simp add: trim_def trim_start_space)
  have "command_from_str (''/SEND'' @ '' '' @ ''bob'' @ '' '' @ ''hi there'') =
      (if trim (CHR '' '' # ''hi there'') = [] then Err SEND_USAGE
       else Ok (Send ''bob'' (as_bytes (trim (CHR '' '' # ''hi there'')))))"
  proof (rule send_command_parsed)
    show "to_lowercase ''/SEND'' = ''/send''" by code_simp
  qed (simp_all add: plain_def byte_def starts_with_def)
  then show ?thesis by (simp only: trim) simp
qed

theorem early_command_ends_input_witness:
  "handle_inputs (new_commander sample_transport node_env) node_session
     ([''hello''] @ ''/status'' # [''/status'']) (sample_node default_client_session) =
   (Ok (), sample_node default_client_session)"
proof (rule early_command_ends_input)
  show "cl_access_key (node_session (sample_node default_client_session)) = None"
    by (simp add: node_session_def sample_node_def default_client_session_def)
  have w: "split_whitespace u = [u]" if "plain u" "u \<noteq> []" for u
  proof -
    have "token v = v \<and> after_token v = []" if "plain v" for v
      using that by (induction v) (simp_all add: plain_def ws_len_plain)
    then show ?thesis
      using that trim_start_plain [of u "[]"]
      by (subst split_whitespace.simps) (simp add: split_whitespace.simps trim_start.simps)
  qed
  have "plain ''hello''" "plain ''/status''" by (simp_all add: plain_def byte_def)
  then have s: "split_whitespace ''hello'' = [''hello'']" "split_whitespace ''/status'' = [''/status'']"
    using w by blast+
  show "command_from_str ''/status'' = Ok Show_Status"
    by (simp add: command_from_str_def s to_lowercase_def lower_char_def byte_def)
  show "\<forall>l \<in> set [''hello'']. \<exists>e. command_from_str l = Err e"
    by (simp add: command_from_str_def s to_lowercase_def lower_char_def byte_def)
qed

definition sample_text :: text_request where
  "sample_text =
     \<lparr>tr_conversation_id = ''c1'', tr_access_key = ''k1'', tr_nonce = ''n1'', tr_content = [104, 105]\<rparr>"

theorem landing_receive_exact_witness:
  "landing_receive (route_client_factory sample_transport node_env) (\<lambda>_. 5)
     (\<lambda>m w. w\<lparr>nd_net := Suc (nd_net w)\<rparr>) sample_text logged_in_node =
   (Ok (), logged_in_node\<lparr>nd_net := Suc (nd_net logged_in_node)\<rparr>)"
  using landing_receive_exact [where f = "route_client_factory sample_transport node_env"
      and w = logged_in_node and req = sample_text and now = "\<lambda>_. 5"
      and deliver = "\<lambda>m w. w\<lparr>nd_net := Suc (nd_net w)\<rparr>", OF sample_router(1) sample_router(2)]
  by (simp add: sample_text_def)

end
