(* ===== verification/Network_Samples.thy ===== *)
theory Network_Samples
  imports Network_Reports Controller_Samples Node_Samples
begin

section \<open>A concrete network\<close>

text \<open>
  Two proxies, \<open>p1\<close> and \<open>p2\<close>, and two clients, \<open>alice\<close> and \<open>bob\<close>, logged in at a controller that
  holds nothing else.  A message of \<open>alice\<close> to \<open>bob\<close> is delivered.
\<close>

definition member_session :: "string \<Rightarrow> component \<Rightarrow> string \<Rightarrow> string \<Rightarrow> session_info" where
  "member_session k c uid ip =
     \<lparr>ss_access_key = k, ss_uid = uid, ss_client_ip = home, ss_on_port_number = 4000,
      ss_on_ip_address = ip, ss_component_type = u8_from_component c, ss_public_key = [],
      ss_domain_name = uid\<rparr>"

lemma member_session_sel [simp]:
  "ss_access_key (member_session k c uid ip) = k" "ss_uid (member_session k c uid ip) = uid"
  "ss_component_type (member_session k c uid ip) = u8_from_component c"
  "session_uri (member_session k c uid ip) = uri_of ip 4000"
  by (simp_all add: member_session_def session_uri_def)

definition p1_session :: session_info where "p1_session = member_session ''k1'' Proxy ''p1'' ''10.0.0.11''"
definition p2_session :: session_info where "p2_session = member_session ''k2'' Proxy ''p2'' ''10.0.0.12''"
definition alice_session :: session_info where
  "alice_session = member_session ''k3'' Client ''alice'' ''10.0.0.13''"
definition bob_session :: session_info where
  "bob_session = member_session ''k4'' Client ''bob'' ''10.0.0.14''"

lemmas member_sessions = p1_session_def p2_session_def alice_session_def bob_session_def

definition enter :: "component \<Rightarrow> session_info \<Rightarrow> world \<Rightarrow> world" where
  "enter c s w = w\<lparr>session_repo := put_session (clock w) c s (session_repo w)\<rparr>"

definition net_world :: world where
  "net_world = enter Client bob_session (enter Client alice_session (enter Proxy p2_session
     (enter Proxy p1_session (new_world\<lparr>member_repo :=
       sample_members(''p2'' \<mapsto> new_member ''p2'' ''pq'')\<rparr>))))"

lemma enter_sel [simp]:
  "member_repo (enter c s w) = member_repo w" "route_repo (enter c s w) = route_repo w"
  "clock (enter c s w) = clock w"
  "session_repo (enter c s w) = put_session (clock w) c s (session_repo w)"
  by (simp_all add: enter_def)

lemma enter_inv:
  assumes "controller_inv d w" and "component_from_u8 (ss_component_type s) = Some c"
    and "fresh_session_key (ss_access_key s) (session_repo w)" and "member_repo w (ss_uid s) \<noteq> None"
  shows "controller_inv d (enter c s w)"
  unfolding enter_def
  by (rule effect_inv [OF effect.open_session [of s w "{ss_access_key s}"] assms(1)])
     (use assms in \<open>simp_all add: known_uid_def\<close>)

lemma net_world_inv: "controller_inv sample_deployment net_world"
  unfolding net_world_def
  by (intro enter_inv new_world_inv)
     (simp_all add: member_sessions fresh_session_key_def new_world_def sample_members_def)

lemma net_world_sel [simp]:
  "clock net_world = 0" "route_repo net_world = new_route_tables"
  "st_proxies (session_repo net_world) = [''p1'' \<mapsto> ''k1'', ''p2'' \<mapsto> ''k2'']"
  "st_clients (session_repo net_world) = [''alice'' \<mapsto> ''k3'', ''bob'' \<mapsto> ''k4'']"
  "st_controllers (session_repo net_world) = Map.empty"
  "live_session net_world =
     [''k1'' \<mapsto> p1_session, ''k2'' \<mapsto> p2_session, ''k3'' \<mapsto> alice_session, ''k4'' \<mapsto> bob_session]"
  by (simp_all add: net_world_def new_world_def member_sessions live_session_def fun_eq_iff)

definition net_topology :: topology where
  "net_topology =
     \<lparr>tg_deployment = sample_deployment, tg_env = node_env, tg_controller = uri_of ''10.0.0.1'' 50050,
      tg_uuid = (\<lambda>i. replicate (Suc i) CHR ''u''), tg_order = (\<lambda>_. [''p1'', ''p2'']),
      tg_pick = pick_first, tg_now = 0, tg_addr = Some home,
      tg_auth = (\<lambda>_. new_auth_client 0 (dep_descriptor sample_deployment)),
      tg_cells = (\<lambda>uri. [\<lparr>cl_access_key =
          Some (if uri = session_uri p1_session then ''k1''
                else if uri = session_uri p2_session then ''k2'' else ''k3''), cl_uid = Some ''p''\<rparr>]),
      tg_debug = (\<lambda>_. [])\<rparr>"

definition net_start :: network where
  "net_start = \<lparr>nw_controller = net_world, nw_next = 0, nw_mail = []\<rparr>"

lemma net_configured: "configured net_topology"
  using node_env_controller by (auto simp: configured_def net_topology_def)

lemma net_ids: "distinct_ids net_topology"
proof -
  have "create_conversation_id (replicate n CHR ''u'') = replicate n CHR ''u''" for n
    by (simp add: create_conversation_id_def)
  then show ?thesis by (simp add: distinct_ids_def inj_def net_topology_def replicate_eq_replicate del: replicate_Suc)
qed

lemma net_fresh: "fresh_uuid (replicate (Suc i) CHR ''u'') net_world"
proof -
  have "st_sessions (session_repo net_world) k = None \<longleftrightarrow> live_session net_world k = None" for k
    by (simp add: live_session_def del: net_world_sel)
  then have "replicate (Suc i) CHR ''u'' \<notin> dom (st_sessions (session_repo net_world))"
    by (simp add: domIff)
  then show ?thesis by (simp add: fresh_uuid_def fresh_session_key_def)
qed

lemma net_serving: "serving net_topology net_start"
proof -
  have "session_uri p1_session \<noteq> session_uri p2_session"
    by (simp add: member_sessions uri_of_def)
  then have "placed net_topology net_world"
    by (auto simp: placed_def logged_in_as_def net_topology_def new_auth_client_def split: if_splits)
  then show ?thesis
    using net_world_inv net_fresh
    by (simp add: serving_def net_start_def net_topology_def picks_pick_first enumerates_def Let_def
        insert_commute del: replicate_Suc)
qed

lemma net_two_proxies: "two_proxies (nw_controller net_start)"
proof -
  have "indexed_proxy net_world ''k1'' p1_session"
    unfolding indexed_proxy_def by (intro conjI exI [of _ "''p1''"]) simp_all
  moreover have "indexed_proxy net_world ''k2'' p2_session"
    unfolding indexed_proxy_def by (intro conjI exI [of _ "''p2''"]) simp_all
  ultimately have "two_proxies net_world" by (rule two_proxiesI) simp
  then show ?thesis by (simp add: net_start_def)
qed

lemma net_clients:
  "live_session (nw_controller net_start) ''k3'' = Some alice_session"
  "inmem_get_client (init_target ''bob'') (session_repo (nw_controller net_start)) = Some bob_session"
  by (simp_all add: net_start_def get_client_live init_target_def)

theorem message_delivered_witness:
  "\<exists>net'. commander_send_message (new_commander (network_transport net_topology 3) node_env ''k3'')
       ''bob'' (as_bytes ''hi'') (node_at net_topology ''alice'' net_start) =
      (Ok (Some ''Message sent''), node_at net_topology ''alice'' net')
   \<and> delivered_to net_topology net_start (uri_of ''10.0.0.14'' 4000) ''alice'' (as_bytes ''hi'') 9 net'
   \<and> stored_conversation (nw_controller net') = Map.empty"
proof -
  have none: "stored_conversation (nw_controller net_start) = Map.empty"
    by (simp add: net_start_def stored_conversation_def new_route_tables_def fun_eq_iff)
  have env: "tg_env net_topology = node_env" by (simp add: net_topology_def)
  have "session_uri bob_session = uri_of ''10.0.0.14'' 4000" "ss_uid alice_session = ''alice''"
    by (simp_all add: member_sessions)
  note eqs = this env none
  show ?thesis
    using message_delivered [OF net_configured net_ids net_serving net_two_proxies net_clients, of 0 "as_bytes ''hi''" "''alice''"]
    unfolding add_0_right eqs by (elim exE conjE) (intro exI conjI)
qed

subsection \<open>A reply that is lost\<close>

text \<open>
  The reply of the first proxy does not reach the client: the message is delivered, and the client is
  told that sending it failed.
\<close>

definition reply_lost :: faults where
  "reply_lost = no_faults\<lparr>fl_reply_lost := (\<lambda>depth c _.
     (case c of Command_To _ _ \<Rightarrow> if depth = 3 then Some lost else None | _ \<Rightarrow> None))\<rparr>"

lemma reply_lost_sel:
  "fl_lost reply_lost d c net = None" "fl_meanwhile reply_lost d c net = nw_controller net"
  "fl_reply_lost reply_lost 3 (Command_To uri req) net = Some lost"
  "fl_reply_lost reply_lost d (To_Controller rq) net = None"
  by (simp_all add: reply_lost_def no_faults_def)

lemma reply_lost_inner: "faulty_transport reply_lost tg 2 = network_transport tg 2"
  by (rule calm_network) (auto simp: calm_def calm_at_def reply_lost_def no_faults_def split: remote.split)

lemma reply_lost_transport:
  "ideal (faulty_transport reply_lost tg 3)"
  "tp_initialize (faulty_transport reply_lost tg 3) = tp_initialize (network_transport tg 3)"
  "tp_route (faulty_transport reply_lost tg 3) = tp_route (network_transport tg 3)"
  "tp_execute_command (network_transport tg 3) uri req net = (r, net') \<Longrightarrow>
     tp_execute_command (faulty_transport reply_lost tg 3) uri req net = (Err lost, net')"
proof -
  have top: "faulty_transport reply_lost tg 3 = (faulty_client_calls reply_lost tg 3)
     \<lparr>tp_execute_command := (\<lambda>uri req. disturbed reply_lost 3 (Command_To uri req)
        (tp_execute_command (network_transport tg 3) uri req))\<rparr>"
    using reply_lost_inner [of tg] by (simp add: numeral_3_eq_3 numeral_2_eq_2)
  have calm: "disturbed reply_lost 3 (To_Controller rq) p = p" for rq and p :: "(network, 'b, status) prog"
    by (simp add: fun_eq_iff disturbed_def reply_lost_sel split: prod.split)
  show "tp_initialize (faulty_transport reply_lost tg 3) = tp_initialize (network_transport tg 3)"
    "tp_route (faulty_transport reply_lost tg 3) = tp_route (network_transport tg 3)"
    by (simp_all add: faulty_ask_def calm)
  show "ideal (faulty_transport reply_lost tg 3)"
    by (simp add: ideal_def faulty_controller_calls_def fun_eq_iff ret_def)
       (simp add: reply_lost_def no_faults_def)
  show "tp_execute_command (faulty_transport reply_lost tg 3) uri req net = (Err lost, net')"
    if "tp_execute_command (network_transport tg 3) uri req net = (r, net')"
    using that by (simp add: top disturbed_def reply_lost_sel)
qed

theorem delivered_at_most_once_witness:
  "\<exists>e nd u from. commander_send_message (new_commander (faulty_transport reply_lost net_topology 3) (tg_env net_topology) ''k3'')
       ''bob'' (as_bytes ''hi'') (node_at net_topology ''alice'' net_start) = (Err e, nd)
   \<and> nw_mail (nd_net nd) = [(u, new_text_message 0 from ''myself'' (as_bytes ''hi''))]"
proof -
  let ?p = "commander_send_message (new_commander (faulty_transport reply_lost net_topology 3) (tg_env net_topology) ''k3'')
       ''bob'' (as_bytes ''hi'') (node_at net_topology ''alice'' net_start)"
  obtain c n t net1 net2 net'
    where calls: "ask net_topology sel_initialized (Initialize ''k3'' ''bob'') (tg_controller net_topology) net_start = (Ok c, net1)"
        "ask net_topology sel_hop (Next_Route ''k3'' c) (tg_controller net_topology) net1 = (Ok (hop_response n False t), net2)"
      and sent: "tp_execute_command (network_transport net_topology (3 + 0)) (session_uri t)
          (send_request c n (as_bytes ''hi'')) net2 = (Ok (Some ''Message sent''), net')"
      and mail: "delivered_to net_topology net_start (session_uri bob_session) (ss_uid alice_session)
          (as_bytes ''hi'') 9 net'"
    by (rule delivery_run [OF net_configured net_ids net_serving net_two_proxies net_clients, of 0 "as_bytes ''hi''"])
  let ?tp = "faulty_transport reply_lost net_topology 3"
  have opened: "tp_initialize ?tp (tg_controller net_topology) ''k3'' ''bob'' net_start = (Ok c, net1)"
    and hop: "tp_route ?tp (tg_controller net_topology) ''k3'' c net1 = (Ok (hop_response n False t), net2)"
    by (simp_all add: reply_lost_transport(2,3) calls del: faulty_transport_sel)
  have failed: "tp_execute_command ?tp (session_uri t) (send_request c n (as_bytes ''hi'')) net2 = (Err lost, net')"
    by (rule reply_lost_transport(4)) (use sent in simp)
  have run: "?p = (Err (tp_show_status ?tp lost), node_at net_topology ''alice'' net')"
    by (rule commander_fails [OF reply_lost_transport(1) net_configured opened hop failed])
  have mail_new: "nw_mail net' \<noteq> []" using mail by (simp add: delivered_to_def)
  have "tg_now net_topology = 0" "nw_mail net_start = []" by (simp_all add: net_topology_def net_start_def)
  with delivered_at_most_once [where fl = reply_lost and depth = 3 and tg = net_topology and k = "''k3''"
      and to = "''bob''" and content = "as_bytes ''hi''" and uri = "''alice''" and net = net_start]
  show ?thesis using run mail_new by auto
qed

end
