(* ===== verification/Redis_Repositories.thy ===== *)
theory Redis_Repositories
  imports Services
begin

section \<open>The Redis repositories\<close>

text \<open>
  \<^verbatim>\<open>controller/src/storage/redis\<close>: the three repository traits over a connection to a Redis server.
  The connection and the JSON codec belong to the crates \<^verbatim>\<open>redis\<close> and \<^verbatim>\<open>serde_json\<close> and are
  arguments: \<open>redis\<close> has a field for each command the code sends, with the conversion to \<^verbatim>\<open>String\<close> the
  code asks for, and \<open>codec\<close> the two directions of each data type.  What the code relies on is
  stated in \<open>Redis_Contracts\<close>.
\<close>

subsection \<open>The connection and the codec\<close>

datatype redis_command =
    Set_Ex string string nat
  | H_Set string string string
  | Expire string nat

record ('w, 'r) redis =
  rd_set_ex :: "string \<Rightarrow> string \<Rightarrow> nat \<Rightarrow> ('w, unit, 'r) prog"
  rd_get :: "string \<Rightarrow> ('w, string, 'r) prog"
  rd_get_ex :: "string \<Rightarrow> nat \<Rightarrow> ('w, string, 'r) prog"
  rd_del :: "string \<Rightarrow> ('w, unit, 'r) prog"
  rd_expire :: "string \<Rightarrow> nat \<Rightarrow> ('w, unit, 'r) prog"
  rd_hset :: "string \<Rightarrow> string \<Rightarrow> string \<Rightarrow> ('w, unit, 'r) prog"
  rd_hget :: "string \<Rightarrow> string \<Rightarrow> ('w, string, 'r) prog"
  rd_hdel :: "string \<Rightarrow> string \<Rightarrow> ('w, unit, 'r) prog"
  rd_scan_match :: "string \<Rightarrow> ('w, string list, 'r) prog"
  rd_exec_atomic :: "redis_command list \<Rightarrow> ('w, unit, 'r) prog"

record codec =
  session_to_json :: "session_info \<Rightarrow> string"
  session_of_json :: "string \<rightharpoonup> session_info"
  conversation_to_json :: "conversation \<Rightarrow> string"
  conversation_of_json :: "string \<rightharpoonup> conversation"
  route_to_json :: "route \<Rightarrow> string"
  route_of_json :: "string \<rightharpoonup> route"
  member_to_json :: "member \<Rightarrow> string"
  member_of_json :: "string \<rightharpoonup> member"

text \<open>\<^verbatim>\<open>from_redis_value\<close> of each type: the text is parsed, and text that does not parse panics.\<close>

definition session_from_redis :: "codec \<Rightarrow> string \<Rightarrow> ('w, session_info, 'r) prog" where
  "session_from_redis js v = unwrap_or_panic (session_of_json js v)"

definition conversation_from_redis :: "codec \<Rightarrow> string \<Rightarrow> ('w, conversation, 'r) prog" where
  "conversation_from_redis js v = unwrap_or_panic (conversation_of_json js v)"

definition route_from_redis :: "codec \<Rightarrow> string \<Rightarrow> ('w, route, 'r) prog" where
  "route_from_redis js v = unwrap_or_panic (route_of_json js v)"

definition member_from_redis :: "codec \<Rightarrow> string \<Rightarrow> ('w, member, 'r) prog" where
  "member_from_redis js v = unwrap_or_panic (member_of_json js v)"

definition as_secs :: "duration \<Rightarrow> nat" where
  "as_secs d = d div 1000"

subsection \<open>Members\<close>

definition MEMBER_KEY :: string where "MEMBER_KEY = ''mb''"

definition redis_set_member :: "('w, 'r) redis \<Rightarrow> codec \<Rightarrow> member \<Rightarrow> ('w, unit, 'e) prog" where
  "redis_set_member R js m = unwrap_result (rd_hset R MEMBER_KEY (mb_uid m) (member_to_json js m))"

definition redis_get_member :: "('w, 'r) redis \<Rightarrow> codec \<Rightarrow> string \<Rightarrow> ('w, member option, 'e) prog" where
  "redis_get_member R js uid =
     result_ok (and_then (rd_hget R MEMBER_KEY uid) (member_from_redis js))"

definition redis_member_repository :: "('w, 'r) redis \<Rightarrow> codec \<Rightarrow> ('w, 'e) member_repository" where
  "redis_member_repository R js =
     \<lparr>repo_set_member = redis_set_member R js, repo_get_member = redis_get_member R js\<rparr>"

subsection \<open>Conversations and routes\<close>

definition CONVERSATIONS_KEY :: string where "CONVERSATIONS_KEY = ''cs''"
definition ROUTES_KEY :: string where "ROUTES_KEY = ''rs''"

definition get_conversation_key :: "string \<Rightarrow> string" where
  "get_conversation_key conversation_id = CONVERSATIONS_KEY @ '':'' @ conversation_id"

definition get_routes_key :: "string \<Rightarrow> string" where
  "get_routes_key conversation_id = ROUTES_KEY @ '':'' @ conversation_id"

definition redis_set_conversation ::
  "('w, 'r) redis \<Rightarrow> codec \<Rightarrow> conversation \<Rightarrow> ('w, string option, 'e) prog" where
  "redis_set_conversation R js x =
     and_then (unwrap_result (rd_set_ex R (get_conversation_key (conv_id x))
       (conversation_to_json js x) (as_secs CONVERSATIONS_EXPIRATION_TIME))) (\<lambda>_.
     ret (Some (conv_id x)))"

definition redis_remove_conversation :: "('w, 'r) redis \<Rightarrow> string \<Rightarrow> ('w, unit, 'e) prog" where
  "redis_remove_conversation R c = unwrap_result (rd_del R (get_conversation_key c))"

definition redis_get_conversation ::
  "('w, 'r) redis \<Rightarrow> codec \<Rightarrow> string \<Rightarrow> ('w, conversation option, 'e) prog" where
  "redis_get_conversation R js c =
     result_ok (and_then (rd_get R (get_conversation_key c)) (conversation_from_redis js))"

text \<open>The three commands of the pipeline run as one transaction.\<close>

definition redis_set_route ::
  "('w, 'r) redis \<Rightarrow> codec \<Rightarrow> string \<Rightarrow> route \<Rightarrow> ('w, string option, 'e) prog" where
  "redis_set_route R js c r =
     and_then (redis_get_conversation R js c) (\<lambda>found.
     and_then (unwrap_or_panic found) (\<lambda>conversation.
     let conversation = conversation\<lparr>conv_routes := conv_routes conversation @ [r]\<rparr>;
         key = get_routes_key c
     in and_then (unwrap_result (rd_exec_atomic R
          [H_Set key (rt_nonce r) (route_to_json js r),
           Expire key (as_secs ROUTES_EXPIRATION_TIME),
           Set_Ex (get_conversation_key c) (conversation_to_json js conversation)
             (as_secs CONVERSATIONS_EXPIRATION_TIME)])) (\<lambda>_.
        ret (Some (rt_nonce r)))))"

definition redis_get_route ::
  "('w, 'r) redis \<Rightarrow> codec \<Rightarrow> string \<Rightarrow> string \<Rightarrow> ('w, route option, 'e) prog" where
  "redis_get_route R js c nonce =
     result_ok (and_then (rd_hget R (get_routes_key c) nonce) (route_from_redis js))"

text \<open>The key is built from the nonce, where \<open>redis_set_route\<close> builds it from the conversation.\<close>

definition redis_remove_route :: "('w, 'r) redis \<Rightarrow> string \<Rightarrow> ('w, unit, 'e) prog" where
  "redis_remove_route R nonce = unwrap_result (rd_hdel R (get_routes_key nonce) nonce)"

definition redis_route_repository :: "('w, 'r) redis \<Rightarrow> codec \<Rightarrow> ('w, 'e) route_repository" where
  "redis_route_repository R js =
     \<lparr>repo_set_conversation = redis_set_conversation R js,
      repo_remove_conversation = redis_remove_conversation R,
      repo_get_conversation = redis_get_conversation R js,
      repo_set_route = redis_set_route R js,
      repo_get_route = redis_get_route R js,
      repo_remove_route = redis_remove_route R\<rparr>"

subsection \<open>Sessions\<close>

definition SESSIONS_KEY :: string where "SESSIONS_KEY = ''ss''"

fun component_session_key :: "component \<Rightarrow> string" where
  "component_session_key Controller = ''ctrl_ss''"
| "component_session_key Client = ''c_ss''"
| "component_session_key Proxy = ''p_ss''"

definition get_session_key :: "string \<Rightarrow> string" where
  "get_session_key key = SESSIONS_KEY @ '':'' @ key"

definition get_member_session_key :: "component \<Rightarrow> string \<Rightarrow> string" where
  "get_member_session_key component_type uid = component_session_key component_type @ '':'' @ uid"

definition redis_set_session :: "('w, 'r) redis \<Rightarrow> codec \<Rightarrow> session_info \<Rightarrow> ('w, unit, 'e) prog" where
  "redis_set_session R js s =
     and_then (unwrap_or_panic (component_from_u8 (ss_component_type s))) (\<lambda>component_type.
     unwrap_result (rd_exec_atomic R
       [Set_Ex (get_member_session_key component_type (ss_uid s)) (ss_access_key s)
          (as_secs SESSIONS_EXPIRATION_TIME),
        Set_Ex (get_session_key (ss_access_key s)) (session_to_json js s)
          (as_secs SESSIONS_EXPIRATION_TIME)]))"

definition redis_get_session ::
  "('w, 'r) redis \<Rightarrow> codec \<Rightarrow> string \<Rightarrow> ('w, session_info option, 'e) prog" where
  "redis_get_session R js access_key =
     and_then (result_ok (and_then (rd_get_ex R (get_session_key access_key)
         (as_secs SESSIONS_EXPIRATION_TIME)) (session_from_redis js))) (\<lambda>found.
     case found of
       None \<Rightarrow> ret None
     | Some s \<Rightarrow>
         and_then (unwrap_or_panic (component_from_u8 (ss_component_type s))) (\<lambda>component_type.
         and_then (unwrap_result (rd_expire R (get_member_session_key component_type (ss_uid s))
           (as_secs SESSIONS_EXPIRATION_TIME))) (\<lambda>_.
         ret (Some s))))"

definition redis_remove_session :: "('w, 'r) redis \<Rightarrow> string \<Rightarrow> ('w, unit, 'e) prog" where
  "redis_remove_session R access_key = unwrap_result (rd_del R (get_session_key access_key))"

text \<open>The loop of \<^verbatim>\<open>get_proxies\<close> over the index keys the scan found.\<close>

fun redis_collect_proxies ::
  "('w, 'r) redis \<Rightarrow> codec \<Rightarrow> string \<Rightarrow> string list \<Rightarrow> session_info list \<Rightarrow>
     ('w, session_info list, 'e) prog" where
  "redis_collect_proxies R js access_key [] proxies = ret proxies"
| "redis_collect_proxies R js access_key (index # rest) proxies =
     and_then (unwrap_result (rd_get R index)) (\<lambda>key.
     and_then (unwrap_result (and_then (rd_get R (get_session_key key)) (session_from_redis js)))
       (\<lambda>session.
     redis_collect_proxies R js access_key rest
       (if ss_access_key session \<noteq> access_key then proxies @ [session] else proxies)))"

definition redis_get_proxies ::
  "('w, 'r) redis \<Rightarrow> codec \<Rightarrow> string \<Rightarrow> ('w, session_info list option, 'e) prog" where
  "redis_get_proxies R js access_key =
     and_then (unwrap_result (rd_scan_match R (get_member_session_key Proxy ''*''))) (\<lambda>indexes.
     if indexes = [] then ret None
     else
       and_then (redis_collect_proxies R js access_key indexes []) (\<lambda>proxies.
       ret (if proxies = [] then None else Some proxies)))"

definition redis_get_client ::
  "('w, 'r) redis \<Rightarrow> codec \<Rightarrow> string \<Rightarrow> ('w, session_info option, 'e) prog" where
  "redis_get_client R js uid =
     and_then (unwrap_result (rd_get R (get_member_session_key Client uid))) (\<lambda>access_key.
     result_ok (and_then (rd_get R (get_session_key access_key)) (session_from_redis js)))"

definition redis_count :: "('w, 'r) redis \<Rightarrow> component \<Rightarrow> ('w, nat, 'e) prog" where
  "redis_count R c =
     and_then (unwrap_result (rd_scan_match R (get_member_session_key c ''*''))) (\<lambda>keys.
     ret (length keys))"

definition redis_session_repository :: "('w, 'r) redis \<Rightarrow> codec \<Rightarrow> ('w, 'e) session_repository" where
  "redis_session_repository R js =
     \<lparr>repo_set_session = redis_set_session R js,
      repo_get_session = redis_get_session R js,
      repo_remove_session = redis_remove_session R,
      repo_get_proxies = redis_get_proxies R js,
      repo_get_client = redis_get_client R js,
      repo_count_proxies = redis_count R Proxy,
      repo_count_clients = redis_count R Client,
      repo_count_controllers = redis_count R Controller\<rparr>"

lemmas redis_session_defs =
  redis_set_session_def redis_get_session_def redis_remove_session_def redis_get_proxies_def
  redis_get_client_def redis_count_def

lemmas redis_route_defs =
  redis_set_conversation_def redis_remove_conversation_def redis_get_conversation_def
  redis_set_route_def redis_get_route_def redis_remove_route_def

lemma redis_repository_sel [simp]:
  "repo_set_session (redis_session_repository R js) = redis_set_session R js"
  "repo_get_session (redis_session_repository R js) = redis_get_session R js"
  "repo_remove_session (redis_session_repository R js) = redis_remove_session R"
  "repo_get_proxies (redis_session_repository R js) = redis_get_proxies R js"
  "repo_get_client (redis_session_repository R js) = redis_get_client R js"
  "repo_set_member (redis_member_repository R js) = redis_set_member R js"
  "repo_get_member (redis_member_repository R js) = redis_get_member R js"
  "repo_set_conversation (redis_route_repository R js) = redis_set_conversation R js"
  "repo_remove_conversation (redis_route_repository R js) = redis_remove_conversation R"
  "repo_get_conversation (redis_route_repository R js) = redis_get_conversation R js"
  "repo_set_route (redis_route_repository R js) = redis_set_route R js"
  "repo_get_route (redis_route_repository R js) = redis_get_route R js"
  "repo_remove_route (redis_route_repository R js) = redis_remove_route R"
  by (simp_all add: redis_session_repository_def redis_member_repository_def redis_route_repository_def)

end
