(* ===== verification/Redis_Contracts.thy ===== *)
theory Redis_Contracts
  imports Redis_Repositories
begin

section \<open>The Redis repositories and the storage contracts\<close>

text \<open>
  What the code relies on of the \<^verbatim>\<open>redis\<close> and \<^verbatim>\<open>serde_json\<close> crates, stated over the keyspace a world
  holds: the entries stored and not expired.  No entry expires in the middle of an operation; what
  expiry does is to shrink the keyspace between operations.  Under these hypotheses the repositories
  keep the contracts of \<open>Storage\<close>, all but one: a removed route is not gone.
\<close>

subsection \<open>The documented behaviour of the server\<close>

datatype redis_entry = Str string | Hash "string \<rightharpoonup> string"

type_synonym keyspace = "string \<rightharpoonup> redis_entry"

definition hash_field :: "keyspace \<Rightarrow> string \<Rightarrow> string \<rightharpoonup> string" where
  "hash_field ks k f = (case ks k of Some (Hash h) \<Rightarrow> h f | _ \<Rightarrow> None)"

definition not_string :: "keyspace \<Rightarrow> string \<Rightarrow> bool" where
  "not_string ks k \<longleftrightarrow> (\<forall>v. ks k \<noteq> Some (Str v))"

fun command_ok :: "redis_command \<Rightarrow> keyspace \<Rightarrow> bool" where
  "command_ok (Set_Ex k v t) ks \<longleftrightarrow> 0 < t"
| "command_ok (H_Set k f v) ks \<longleftrightarrow> not_string ks k"
| "command_ok (Expire k t) ks \<longleftrightarrow> 0 < t"

fun apply_command :: "redis_command \<Rightarrow> keyspace \<Rightarrow> keyspace" where
  "apply_command (Set_Ex k v t) ks = ks(k \<mapsto> Str v)"
| "apply_command (H_Set k f v) ks = ks(k \<mapsto> Hash ((hash_field ks k)(f \<mapsto> v)))"
| "apply_command (Expire k t) ks = ks"

fun commands_ok :: "redis_command list \<Rightarrow> keyspace \<Rightarrow> bool" where
  "commands_ok [] ks \<longleftrightarrow> True"
| "commands_ok (c # cs) ks \<longleftrightarrow> command_ok c ks \<and> commands_ok cs (apply_command c ks)"

fun apply_commands :: "redis_command list \<Rightarrow> keyspace \<Rightarrow> keyspace" where
  "apply_commands [] ks = ks"
| "apply_commands (c # cs) ks = apply_commands cs (apply_command c ks)"

text \<open>
  Strings: a missing key and a hash are errors for \<^verbatim>\<open>GET\<close> and \<^verbatim>\<open>GETEX\<close> read as \<^verbatim>\<open>String\<close>.
\<close>

definition string_commands :: "('w, 'r) redis \<Rightarrow> ('w \<Rightarrow> keyspace) \<Rightarrow> bool" where
  "string_commands R ks \<longleftrightarrow>
     (\<forall>w k v t. 0 < t \<longrightarrow> (\<exists>w'. rd_set_ex R k v t w = (Ok (), w') \<and> ks w' = (ks w)(k \<mapsto> Str v))) \<and>
     (\<forall>w k v. ks w k = Some (Str v) \<longrightarrow> rd_get R k w = (Ok v, w)) \<and>
     (\<forall>w k. not_string (ks w) k \<longrightarrow> (\<exists>e. rd_get R k w = (Err e, w))) \<and>
     (\<forall>w k v t. 0 < t \<longrightarrow> ks w k = Some (Str v) \<longrightarrow>
        (\<exists>w'. rd_get_ex R k t w = (Ok v, w') \<and> ks w' = ks w)) \<and>
     (\<forall>w k t. 0 < t \<longrightarrow> not_string (ks w) k \<longrightarrow>
        (\<exists>e w'. rd_get_ex R k t w = (Err e, w') \<and> ks w' = ks w)) \<and>
     (\<forall>w k. \<exists>w'. rd_del R k w = (Ok (), w') \<and> ks w' = (ks w)(k := None)) \<and>
     (\<forall>w k t. 0 < t \<longrightarrow> (\<exists>w'. rd_expire R k t w = (Ok (), w') \<and> ks w' = ks w))"

text \<open>Hashes: \<^verbatim>\<open>HDEL\<close> of the last field removes the key, which the fields do not show.\<close>

definition hash_commands :: "('w, 'r) redis \<Rightarrow> ('w \<Rightarrow> keyspace) \<Rightarrow> bool" where
  "hash_commands R ks \<longleftrightarrow>
     (\<forall>w k f v. not_string (ks w) k \<longrightarrow>
        (\<exists>w'. rd_hset R k f v w = (Ok (), w') \<and>
           ks w' = (ks w)(k \<mapsto> Hash ((hash_field (ks w) k)(f \<mapsto> v))))) \<and>
     (\<forall>w k f v. hash_field (ks w) k f = Some v \<longrightarrow> rd_hget R k f w = (Ok v, w)) \<and>
     (\<forall>w k f. hash_field (ks w) k f = None \<longrightarrow> (\<exists>e. rd_hget R k f w = (Err e, w))) \<and>
     (\<forall>w k f. not_string (ks w) k \<longrightarrow>
        (\<exists>w'. rd_hdel R k f w = (Ok (), w') \<and> not_string (ks w') k \<and>
           hash_field (ks w') k = (hash_field (ks w) k)(f := None) \<and>
           (\<forall>j. j \<noteq> k \<longrightarrow> ks w' j = ks w j)))"

text \<open>
  Transactions run their commands in order.  A scan for a prefix finds the keys that have it; the
  server may report a key more than once.
\<close>

definition other_commands :: "('w, 'r) redis \<Rightarrow> ('w \<Rightarrow> keyspace) \<Rightarrow> bool" where
  "other_commands R ks \<longleftrightarrow>
     (\<forall>w cs. commands_ok cs (ks w) \<longrightarrow>
        (\<exists>w'. rd_exec_atomic R cs w = (Ok (), w') \<and> ks w' = apply_commands cs (ks w))) \<and>
     (\<forall>w p. set p \<inter> insert (CHR 0x5C) (set ''*?[]^'') = {} \<longrightarrow>
        (\<exists>found. rd_scan_match R (p @ ''*'') w = (Ok found, w) \<and>
           set found = {k \<in> dom (ks w). starts_with p k}))"

definition redis_works :: "('w, 'r) redis \<Rightarrow> ('w \<Rightarrow> keyspace) \<Rightarrow> bool" where
  "redis_works R ks \<longleftrightarrow> string_commands R ks \<and> hash_commands R ks \<and> other_commands R ks"

definition codec_ok :: "codec \<Rightarrow> bool" where
  "codec_ok js \<longleftrightarrow>
     (\<forall>s. session_of_json js (session_to_json js s) = Some s) \<and>
     (\<forall>x. conversation_of_json js (conversation_to_json js x) = Some x) \<and>
     (\<forall>r. route_of_json js (route_to_json js r) = Some r) \<and>
     (\<forall>m. member_of_json js (member_to_json js m) = Some m)"

subsection \<open>Keys\<close>

lemmas redis_keys =
  get_session_key_def get_conversation_key_def get_routes_key_def get_member_session_key_def
  SESSIONS_KEY_def CONVERSATIONS_KEY_def ROUTES_KEY_def MEMBER_KEY_def

lemma key_inject [simp]:
  "get_session_key k = get_session_key k' \<longleftrightarrow> k = k'"
  "get_conversation_key c = get_conversation_key c' \<longleftrightarrow> c = c'"
  "get_routes_key c = get_routes_key c' \<longleftrightarrow> c = c'"
  by (simp_all add: redis_keys)

lemma member_session_key_inject [simp]:
  "get_member_session_key p u = get_member_session_key q v \<longleftrightarrow> p = q \<and> u = v"
  by (cases p; cases q) (auto simp: redis_keys)

lemma key_distinct [simp]:
  "get_session_key k \<noteq> get_conversation_key c" "get_conversation_key c \<noteq> get_session_key k"
  "get_session_key k \<noteq> get_routes_key c" "get_routes_key c \<noteq> get_session_key k"
  "get_session_key k \<noteq> MEMBER_KEY" "MEMBER_KEY \<noteq> get_session_key k"
  "get_conversation_key c \<noteq> get_routes_key d" "get_routes_key d \<noteq> get_conversation_key c"
  "get_conversation_key c \<noteq> MEMBER_KEY" "MEMBER_KEY \<noteq> get_conversation_key c"
  "get_routes_key c \<noteq> MEMBER_KEY" "MEMBER_KEY \<noteq> get_routes_key c"
  by (simp_all add: redis_keys)

lemma member_session_key_distinct [simp]:
  "get_member_session_key p u \<noteq> get_session_key k" "get_session_key k \<noteq> get_member_session_key p u"
  "get_member_session_key p u \<noteq> get_conversation_key c" "get_conversation_key c \<noteq> get_member_session_key p u"
  "get_member_session_key p u \<noteq> get_routes_key c" "get_routes_key c \<noteq> get_member_session_key p u"
  "get_member_session_key p u \<noteq> MEMBER_KEY" "MEMBER_KEY \<noteq> get_member_session_key p u"
  by (cases p; simp add: redis_keys)+

lemma lifetime_secs [simp]:
  "as_secs SESSIONS_EXPIRATION_TIME = 10" "as_secs ROUTES_EXPIRATION_TIME = 60"
  "as_secs CONVERSATIONS_EXPIRATION_TIME = 60"
  by (simp_all add: as_secs_def SESSIONS_EXPIRATION_TIME_def ROUTES_EXPIRATION_TIME_def
      CONVERSATIONS_EXPIRATION_TIME_def)

subsection \<open>The abstract view and the invariant\<close>

definition redis_live :: "codec \<Rightarrow> keyspace \<Rightarrow> string \<Rightarrow> session_info option" where
  "redis_live js ks k =
     (case ks (get_session_key k) of Some (Str v) \<Rightarrow> session_of_json js v | _ \<Rightarrow> None)"

definition redis_member :: "codec \<Rightarrow> keyspace \<Rightarrow> string \<Rightarrow> member option" where
  "redis_member js ks u = Option.bind (hash_field ks MEMBER_KEY u) (member_of_json js)"

definition redis_conversation :: "codec \<Rightarrow> keyspace \<Rightarrow> string \<Rightarrow> conversation option" where
  "redis_conversation js ks c =
     (case ks (get_conversation_key c) of Some (Str v) \<Rightarrow> conversation_of_json js v | _ \<Rightarrow> None)"

definition redis_route :: "codec \<Rightarrow> keyspace \<Rightarrow> string \<Rightarrow> string \<Rightarrow> route option" where
  "redis_route js ks c n = Option.bind (hash_field ks (get_routes_key c) n) (route_of_json js)"

lemmas redis_views = redis_live_def redis_member_def redis_conversation_def redis_route_def

text \<open>Every key of the program holds what the program stores there.\<close>

definition redis_inv :: "codec \<Rightarrow> keyspace \<Rightarrow> bool" where
  "redis_inv js ks \<longleftrightarrow>
     (\<forall>k e. ks (get_session_key k) = Some e \<longrightarrow>
        (\<exists>s. e = Str (session_to_json js s) \<and> ss_access_key s = k \<and>
             (\<exists>t. component_from_u8 (ss_component_type s) = Some t))) \<and>
     (\<forall>p u e. ks (get_member_session_key p u) = Some e \<longrightarrow> (\<exists>k. e = Str k)) \<and>
     (\<forall>c e. ks (get_conversation_key c) = Some e \<longrightarrow> (\<exists>x. e = Str (conversation_to_json js x))) \<and>
     (\<forall>c. not_string ks (get_routes_key c) \<and>
        (\<forall>n v. hash_field ks (get_routes_key c) n = Some v \<longrightarrow> (\<exists>r. v = route_to_json js r))) \<and>
     not_string ks MEMBER_KEY \<and>
     (\<forall>u v. hash_field ks MEMBER_KEY u = Some v \<longrightarrow> (\<exists>m. v = member_to_json js m))"

lemma hash_field_upd [simp]:
  "hash_field (ks(k \<mapsto> Hash h)) k = h" "hash_field (ks(k \<mapsto> Str v)) k = Map.empty"
  "j \<noteq> k \<Longrightarrow> hash_field (ks(k := e)) j = hash_field ks j"
  by (simp_all add: hash_field_def fun_eq_iff)

lemma not_string_upd [simp]:
  "not_string (ks(k \<mapsto> Hash h)) k" "j \<noteq> k \<Longrightarrow> not_string (ks(k := e)) j = not_string ks j"
  by (simp_all add: not_string_def)

lemma not_string_None: "ks k = None \<Longrightarrow> not_string ks k"
  by (simp add: not_string_def)

lemma redis_invD:
  assumes "redis_inv js ks"
  shows "ks (get_session_key k) = Some e \<Longrightarrow> \<exists>s. e = Str (session_to_json js s) \<and>
      ss_access_key s = k \<and> (\<exists>t. component_from_u8 (ss_component_type s) = Some t)"
    and "ks (get_member_session_key p u) = Some e \<Longrightarrow> \<exists>k. e = Str k"
    and "ks (get_conversation_key c) = Some e \<Longrightarrow> \<exists>x. e = Str (conversation_to_json js x)"
    and "not_string ks (get_routes_key c)"
    and "hash_field ks (get_routes_key c) n = Some v \<Longrightarrow> \<exists>r. v = route_to_json js r"
    and "not_string ks MEMBER_KEY"
    and "hash_field ks MEMBER_KEY u = Some v \<Longrightarrow> \<exists>m. v = member_to_json js m"
  using assms unfolding redis_inv_def by simp_all

subsection \<open>What each operation does to the keyspace\<close>

lemma redis_stringsD:
  assumes "redis_works R ks"
  shows "0 < t \<Longrightarrow> \<exists>w'. rd_set_ex R k v t w = (Ok (), w') \<and> ks w' = (ks w)(k \<mapsto> Str v)"
    and "ks w k = Some (Str v) \<Longrightarrow> rd_get R k w = (Ok v, w)"
    and "not_string (ks w) k \<Longrightarrow> \<exists>e. rd_get R k w = (Err e, w)"
    and "0 < t \<Longrightarrow> ks w k = Some (Str v) \<Longrightarrow> \<exists>w'. rd_get_ex R k t w = (Ok v, w') \<and> ks w' = ks w"
    and "0 < t \<Longrightarrow> not_string (ks w) k \<Longrightarrow> \<exists>e w'. rd_get_ex R k t w = (Err e, w') \<and> ks w' = ks w"
    and "\<exists>w'. rd_del R k w = (Ok (), w') \<and> ks w' = (ks w)(k := None)"
    and "0 < t \<Longrightarrow> \<exists>w'. rd_expire R k t w = (Ok (), w') \<and> ks w' = ks w"
proof -
  note c = conjunct1 [OF assms [unfolded redis_works_def string_commands_def]]
  note c2 = conjunct2 [OF c] note c3 = conjunct2 [OF c2] note c4 = conjunct2 [OF c3]
  note c5 = conjunct2 [OF c4] note c6 = conjunct2 [OF c5]
  show "0 < t \<Longrightarrow> \<exists>w'. rd_set_ex R k v t w = (Ok (), w') \<and> ks w' = (ks w)(k \<mapsto> Str v)"
    by (rule conjunct1 [OF c, rule_format])
  show "ks w k = Some (Str v) \<Longrightarrow> rd_get R k w = (Ok v, w)"
    by (rule conjunct1 [OF c2, rule_format])
  show "not_string (ks w) k \<Longrightarrow> \<exists>e. rd_get R k w = (Err e, w)"
    by (rule conjunct1 [OF c3, rule_format])
  show "0 < t \<Longrightarrow> ks w k = Some (Str v) \<Longrightarrow> \<exists>w'. rd_get_ex R k t w = (Ok v, w') \<and> ks w' = ks w"
    by (rule conjunct1 [OF c4, rule_format])
  show "0 < t \<Longrightarrow> not_string (ks w) k \<Longrightarrow> \<exists>e w'. rd_get_ex R k t w = (Err e, w') \<and> ks w' = ks w"
    by (rule conjunct1 [OF c5, rule_format])
  show "\<exists>w'. rd_del R k w = (Ok (), w') \<and> ks w' = (ks w)(k := None)"
    by (rule conjunct1 [OF c6, rule_format])
  show "0 < t \<Longrightarrow> \<exists>w'. rd_expire R k t w = (Ok (), w') \<and> ks w' = ks w"
    by (rule conjunct2 [OF c6, rule_format])
qed

lemma redis_hashesD:
  assumes "redis_works R ks"
  shows "not_string (ks w) k \<Longrightarrow> \<exists>w'. rd_hset R k f v w = (Ok (), w') \<and>
      ks w' = (ks w)(k \<mapsto> Hash ((hash_field (ks w) k)(f \<mapsto> v)))"
    and "hash_field (ks w) k f = Some v \<Longrightarrow> rd_hget R k f w = (Ok v, w)"
    and "hash_field (ks w) k f = None \<Longrightarrow> \<exists>e. rd_hget R k f w = (Err e, w)"
    and "not_string (ks w) k \<Longrightarrow> \<exists>w'. rd_hdel R k f w = (Ok (), w') \<and> not_string (ks w') k \<and>
      hash_field (ks w') k = (hash_field (ks w) k)(f := None) \<and> (\<forall>j. j \<noteq> k \<longrightarrow> ks w' j = ks w j)"
proof -
  note c = conjunct1 [OF conjunct2 [OF assms [unfolded redis_works_def hash_commands_def]]]
  note c2 = conjunct2 [OF c] note c3 = conjunct2 [OF c2]
  show "not_string (ks w) k \<Longrightarrow> \<exists>w'. rd_hset R k f v w = (Ok (), w') \<and>
      ks w' = (ks w)(k \<mapsto> Hash ((hash_field (ks w) k)(f \<mapsto> v)))"
    by (rule conjunct1 [OF c, rule_format])
  show "hash_field (ks w) k f = Some v \<Longrightarrow> rd_hget R k f w = (Ok v, w)"
    by (rule conjunct1 [OF c2, rule_format])
  show "hash_field (ks w) k f = None \<Longrightarrow> \<exists>e. rd_hget R k f w = (Err e, w)"
    by (rule conjunct1 [OF c3, rule_format])
  show "not_string (ks w) k \<Longrightarrow> \<exists>w'. rd_hdel R k f w = (Ok (), w') \<and> not_string (ks w') k \<and>
      hash_field (ks w') k = (hash_field (ks w) k)(f := None) \<and> (\<forall>j. j \<noteq> k \<longrightarrow> ks w' j = ks w j)"
    by (rule conjunct2 [OF c3, rule_format])
qed

lemma redis_atomicD:
  "redis_works R ks \<Longrightarrow> commands_ok cs (ks w) \<Longrightarrow>
   \<exists>w'. rd_exec_atomic R cs w = (Ok (), w') \<and> ks w' = apply_commands cs (ks w)"
  unfolding redis_works_def other_commands_def by blast

lemma redis_scanD:
  assumes "redis_works R ks"
  obtains found where "rd_scan_match R (get_member_session_key c ''*'') w = (Ok found, w)"
    and "\<And>k. k \<in> set found \<longleftrightarrow> (\<exists>u e. k = get_member_session_key c u \<and> ks w k = Some e)"
proof -
  let ?p = "component_session_key c @ '':''"
  have plain: "set ?p \<inter> insert (CHR 0x5C) (set ''*?[]^'') = {}" by (cases c) simp_all
  obtain found where f: "rd_scan_match R (?p @ ''*'') w = (Ok found, w)"
    "set found = {k \<in> dom (ks w). starts_with ?p k}"
    using assms plain unfolding redis_works_def other_commands_def by blast
  have starts: "starts_with ?p k \<longleftrightarrow> (\<exists>u. k = get_member_session_key c u)" for k
  proof
    assume "starts_with ?p k"
    then have "k = ?p @ drop (length ?p) k"
      unfolding starts_with_def by (metis append_take_drop_id)
    then show "\<exists>u. k = get_member_session_key c u" by (auto simp: get_member_session_key_def)
  qed (auto simp: starts_with_def get_member_session_key_def)
  show thesis
    by (rule that [of found]) (use f starts in \<open>auto simp: get_member_session_key_def\<close>)
qed

lemmas result_defs = unwrap_result_def result_ok_def

lemma redis_set_session_run:
  assumes "redis_works R ks" and "component_from_u8 (ss_component_type s) = Some c"
  obtains w' where "redis_set_session R js s w = (Ok (), w')"
    and "ks w' = (ks w)(get_member_session_key c (ss_uid s) \<mapsto> Str (ss_access_key s),
      get_session_key (ss_access_key s) \<mapsto> Str (session_to_json js s))"
proof -
  let ?cs = "[Set_Ex (get_member_session_key c (ss_uid s)) (ss_access_key s) 10,
        Set_Ex (get_session_key (ss_access_key s)) (session_to_json js s) 10]"
  have "commands_ok ?cs (ks w)" by simp
  then obtain w' where "rd_exec_atomic R ?cs w = (Ok (), w')" "ks w' = apply_commands ?cs (ks w)"
    using redis_atomicD [OF assms(1)] by blast
  then show thesis
    by (intro that [of w']) (simp_all add: redis_set_session_def assms(2) result_defs)
qed

lemma redis_live_key:
  assumes "redis_inv js ks" and "codec_ok js"
  shows "(case redis_live js ks k of
      None \<Rightarrow> ks (get_session_key k) = None
    | Some s \<Rightarrow> ks (get_session_key k) = Some (Str (session_to_json js s)) \<and> ss_access_key s = k \<and>
        (\<exists>t. component_from_u8 (ss_component_type s) = Some t))"
proof (cases "ks (get_session_key k)")
  case None
  then show ?thesis by (simp add: redis_live_def)
next
  case (Some e)
  with redis_invD(1) [OF assms(1)] obtain s where s: "e = Str (session_to_json js s)"
    "ss_access_key s = k" "(\<exists>t. component_from_u8 (ss_component_type s) = Some t)"
    by blast
  then have "redis_live js ks k = Some s"
    using assms(2) Some by (simp add: redis_live_def codec_ok_def)
  with s Some show ?thesis by simp
qed

lemma redis_get_session_run:
  assumes "redis_works R ks" and "codec_ok js" and "redis_inv js (ks w)"
  obtains w' where "redis_get_session R js k w = (Ok (redis_live js (ks w) k), w')" and "ks w' = ks w"
proof (cases "redis_live js (ks w) k")
  case None
  then have "not_string (ks w) (get_session_key k)"
    using redis_live_key [OF assms(3,2), of k] by (simp add: not_string_None)
  then obtain e w' where w': "rd_get_ex R (get_session_key k) 10 w = (Err e, w')" "ks w' = ks w"
    using redis_stringsD(5) [OF assms(1), of 10 w] by fastforce
  with None show thesis
    by (intro that [of w']) (simp_all add: redis_get_session_def prog_simps result_defs)
next
  case (Some s)
  then have s: "ks w (get_session_key k) = Some (Str (session_to_json js s))"
    "(\<exists>t. component_from_u8 (ss_component_type s) = Some t)"
    using redis_live_key [OF assms(3,2), of k] by simp_all
  then obtain c where c: "component_from_u8 (ss_component_type s) = Some c" by blast
  obtain v where v: "rd_get_ex R (get_session_key k) 10 w = (Ok (session_to_json js s), v)" "ks v = ks w"
    using redis_stringsD(4) [OF assms(1) _ s(1), of 10] by auto
  obtain w' where w': "rd_expire R (get_member_session_key c (ss_uid s)) 10 v = (Ok (), w')" "ks w' = ks v"
    using redis_stringsD(7) [OF assms(1), of 10] by fastforce
  have js: "session_of_json js (session_to_json js s) = Some s"
    using assms(2) by (simp add: codec_ok_def)
  show thesis
    using v w' c Some js
    by (intro that [of w'])
       (simp_all add: redis_get_session_def prog_simps result_defs session_from_redis_def)
qed

lemma redis_remove_session_run:
  assumes "redis_works R ks"
  obtains w' where "redis_remove_session R k w = (Ok (), w')" and "ks w' = (ks w)(get_session_key k := None)"
proof -
  obtain w' where "rd_del R (get_session_key k) w = (Ok (), w')" "ks w' = (ks w)(get_session_key k := None)"
    using redis_stringsD(6) [OF assms] by blast
  then show thesis by (intro that [of w']) (simp_all add: redis_remove_session_def result_defs)
qed

lemma redis_set_member_run:
  assumes "redis_works R ks" and "redis_inv js (ks w)"
  obtains w' where "redis_set_member R js m w = (Ok (), w')"
    and "ks w' = (ks w)(MEMBER_KEY \<mapsto> Hash ((hash_field (ks w) MEMBER_KEY)(mb_uid m \<mapsto> member_to_json js m)))"
proof -
  have "not_string (ks w) MEMBER_KEY" using assms(2) by (simp add: redis_inv_def)
  then obtain w' where "rd_hset R MEMBER_KEY (mb_uid m) (member_to_json js m) w = (Ok (), w')"
    "ks w' = (ks w)(MEMBER_KEY \<mapsto> Hash ((hash_field (ks w) MEMBER_KEY)(mb_uid m \<mapsto> member_to_json js m)))"
    using redis_hashesD(1) [OF assms(1)] by blast
  then show thesis by (intro that [of w']) (simp_all add: redis_set_member_def result_defs)
qed

lemma redis_get_member_run:
  assumes "redis_works R ks" and "codec_ok js" and "redis_inv js (ks w)"
  shows "redis_get_member R js u w = (Ok (redis_member js (ks w) u), w)"
proof (cases "hash_field (ks w) MEMBER_KEY u")
  case None
  then obtain e where "rd_hget R MEMBER_KEY u w = (Err e, w)"
    using redis_hashesD(3) [OF assms(1)] by blast
  with None show ?thesis by (simp add: redis_get_member_def redis_member_def prog_simps result_defs)
next
  case (Some v)
  then obtain m where "v = member_to_json js m" using redis_invD(7) [OF assms(3)] by blast
  with redis_hashesD(2) [OF assms(1) Some] assms(2) Some show ?thesis
    by (simp add: redis_get_member_def redis_member_def prog_simps result_defs member_from_redis_def
        codec_ok_def)
qed

lemma redis_get_conversation_run:
  assumes "redis_works R ks" and "codec_ok js" and "redis_inv js (ks w)"
  shows "redis_get_conversation R js c w = (Ok (redis_conversation js (ks w) c), w)"
proof (cases "ks w (get_conversation_key c)")
  case None
  then obtain e where "rd_get R (get_conversation_key c) w = (Err e, w)"
    using redis_stringsD(3) [OF assms(1) not_string_None] by blast
  with None show ?thesis
    by (simp add: redis_get_conversation_def redis_conversation_def prog_simps result_defs)
next
  case (Some e)
  then obtain x where x: "e = Str (conversation_to_json js x)"
    using redis_invD(3) [OF assms(3)] by blast
  with Some redis_stringsD(2) [OF assms(1)] have
    "rd_get R (get_conversation_key c) w = (Ok (conversation_to_json js x), w)" by blast
  with x Some assms(2) show ?thesis
    by (simp add: redis_get_conversation_def redis_conversation_def prog_simps result_defs
        conversation_from_redis_def codec_ok_def)
qed

lemma redis_set_conversation_run:
  assumes "redis_works R ks"
  obtains w' where "redis_set_conversation R js x w = (Ok (Some (conv_id x)), w')"
    and "ks w' = (ks w)(get_conversation_key (conv_id x) \<mapsto> Str (conversation_to_json js x))"
proof -
  obtain w' where "rd_set_ex R (get_conversation_key (conv_id x)) (conversation_to_json js x) 60 w = (Ok (), w')"
    "ks w' = (ks w)(get_conversation_key (conv_id x) \<mapsto> Str (conversation_to_json js x))"
    using redis_stringsD(1) [OF assms, of 60] by fastforce
  then show thesis
    by (intro that [of w']) (simp_all add: redis_set_conversation_def result_defs prog_simps)
qed

lemma redis_remove_conversation_run:
  assumes "redis_works R ks"
  obtains w' where "redis_remove_conversation R c w = (Ok (), w')"
    and "ks w' = (ks w)(get_conversation_key c := None)"
proof -
  obtain w' where "rd_del R (get_conversation_key c) w = (Ok (), w')"
    "ks w' = (ks w)(get_conversation_key c := None)"
    using redis_stringsD(6) [OF assms] by blast
  then show thesis by (intro that [of w']) (simp_all add: redis_remove_conversation_def result_defs)
qed

lemma redis_get_route_run:
  assumes "redis_works R ks" and "codec_ok js" and "redis_inv js (ks w)"
  shows "redis_get_route R js c n w = (Ok (redis_route js (ks w) c n), w)"
proof (cases "hash_field (ks w) (get_routes_key c) n")
  case None
  then obtain e where "rd_hget R (get_routes_key c) n w = (Err e, w)"
    using redis_hashesD(3) [OF assms(1)] by blast
  with None show ?thesis by (simp add: redis_get_route_def redis_route_def prog_simps result_defs)
next
  case (Some v)
  then obtain r where "v = route_to_json js r" using redis_invD(5) [OF assms(3)] by blast
  with redis_hashesD(2) [OF assms(1) Some] assms(2) Some show ?thesis
    by (simp add: redis_get_route_def redis_route_def prog_simps result_defs route_from_redis_def
        codec_ok_def)
qed

lemma redis_set_route_run:
  assumes "redis_works R ks" and "codec_ok js" and "redis_inv js (ks w)"
    and "redis_conversation js (ks w) c = Some x"
  obtains w' where "redis_set_route R js c r w = (Ok (Some (rt_nonce r)), w')"
    and "ks w' = (ks w)(get_routes_key c \<mapsto>
        Hash ((hash_field (ks w) (get_routes_key c))(rt_nonce r \<mapsto> route_to_json js r)),
      get_conversation_key c \<mapsto> Str (conversation_to_json js (x\<lparr>conv_routes := conv_routes x @ [r]\<rparr>)))"
proof -
  let ?cs = "[H_Set (get_routes_key c) (rt_nonce r) (route_to_json js r), Expire (get_routes_key c) 60,
    Set_Ex (get_conversation_key c) (conversation_to_json js (x\<lparr>conv_routes := conv_routes x @ [r]\<rparr>)) 60]"
  have "commands_ok ?cs (ks w)" using redis_invD(4) [OF assms(3)] by simp
  then obtain w' where "rd_exec_atomic R ?cs w = (Ok (), w')" "ks w' = apply_commands ?cs (ks w)"
    using redis_atomicD [OF assms(1)] by blast
  then show thesis
    by (intro that [of w'])
       (simp_all add: redis_set_route_def redis_get_conversation_run [OF assms(1-3)] assms(4) Let_def
         prog_simps result_defs)
qed

lemma redis_remove_route_run:
  assumes "redis_works R ks" and "redis_inv js (ks w)"
  obtains w' where "redis_remove_route R n w = (Ok (), w')"
    and "not_string (ks w') (get_routes_key n)"
    and "hash_field (ks w') (get_routes_key n) = (hash_field (ks w) (get_routes_key n))(n := None)"
    and "\<And>j. j \<noteq> get_routes_key n \<Longrightarrow> ks w' j = ks w j"
proof -
  obtain w' where "rd_hdel R (get_routes_key n) n w = (Ok (), w')"
    "not_string (ks w') (get_routes_key n)"
    "hash_field (ks w') (get_routes_key n) = (hash_field (ks w) (get_routes_key n))(n := None)"
    "\<forall>j. j \<noteq> get_routes_key n \<longrightarrow> ks w' j = ks w j"
    using redis_hashesD(4) [OF assms(1) redis_invD(4) [OF assms(2)]] by blast
  then show thesis by (intro that [of w']) (simp_all add: redis_remove_route_def result_defs)
qed

subsection \<open>The invariant is kept\<close>

lemma redis_invI:
  assumes "\<And>k e. ks (get_session_key k) = Some e \<Longrightarrow> \<exists>s. e = Str (session_to_json js s) \<and>
      ss_access_key s = k \<and> (\<exists>t. component_from_u8 (ss_component_type s) = Some t)"
    and "\<And>p u e. ks (get_member_session_key p u) = Some e \<Longrightarrow> \<exists>k. e = Str k"
    and "\<And>c e. ks (get_conversation_key c) = Some e \<Longrightarrow> \<exists>x. e = Str (conversation_to_json js x)"
    and "\<And>c. not_string ks (get_routes_key c)"
    and "\<And>c n v. hash_field ks (get_routes_key c) n = Some v \<Longrightarrow> \<exists>r. v = route_to_json js r"
    and "not_string ks MEMBER_KEY"
    and "\<And>u v. hash_field ks MEMBER_KEY u = Some v \<Longrightarrow> \<exists>m. v = member_to_json js m"
  shows "redis_inv js ks"
  using assms unfolding redis_inv_def by blast

lemma redis_inv_session:
  assumes "redis_inv js ks" and "component_from_u8 (ss_component_type s) = Some c"
  shows "redis_inv js (ks(get_member_session_key c u \<mapsto> Str k,
    get_session_key (ss_access_key s) \<mapsto> Str (session_to_json js s)))"
  by (rule redis_invI)
     (use assms(2) in \<open>auto simp: redis_invD(4,6) [OF assms(1)] dest: redis_invD(1,2,3,5,7) [OF assms(1)] split: if_splits\<close>)

lemma redis_inv_delete: "redis_inv js ks \<Longrightarrow> redis_inv js (ks(j := None))"
proof -
  assume inv: "redis_inv js ks"
  have h: "hash_field (ks(j := None)) k f = Some v \<Longrightarrow> hash_field ks k f = Some v" for k f v
    by (auto simp: hash_field_def split: if_splits)
  have n: "not_string ks k \<Longrightarrow> not_string (ks(j := None)) k" for k by (simp add: not_string_def)
  show ?thesis
    by (rule redis_invI) (auto simp: n redis_invD(4,6) [OF inv] dest!: h redis_invD(1,2,3,5,7) [OF inv] split: if_splits)
qed

lemma redis_inv_conversation:
  "redis_inv js ks \<Longrightarrow> redis_inv js (ks(get_conversation_key c \<mapsto> Str (conversation_to_json js x)))"
proof -
  assume inv: "redis_inv js ks"
  show ?thesis
    by (rule redis_invI) (auto simp: redis_invD(4,6) [OF inv] dest: redis_invD(1,2,3,5,7) [OF inv] split: if_splits)
qed

lemma redis_inv_member:
  "redis_inv js ks \<Longrightarrow>
   redis_inv js (ks(MEMBER_KEY \<mapsto> Hash ((hash_field ks MEMBER_KEY)(u \<mapsto> member_to_json js m))))"
proof -
  assume inv: "redis_inv js ks"
  show ?thesis
    by (rule redis_invI) (auto simp: redis_invD(4,6) [OF inv] dest: redis_invD(1,2,3,5,7) [OF inv] split: if_splits)
qed

lemma redis_inv_routes:
  assumes inv: "redis_inv js ks" and same: "\<And>j. j \<noteq> get_routes_key c \<Longrightarrow> ks' j = ks j"
    and hash: "not_string ks' (get_routes_key c)"
    and fields: "\<And>n v. hash_field ks' (get_routes_key c) n = Some v \<Longrightarrow>
      v = route_to_json js r \<or> hash_field ks (get_routes_key c) n = Some v"
  shows "redis_inv js ks'"
proof (rule redis_invI)
  have other: "not_string ks' k = not_string ks k" "hash_field ks' k = hash_field ks k"
    if "k \<noteq> get_routes_key c" for k
    using same [OF that] by (simp_all add: not_string_def hash_field_def fun_eq_iff)
  show "not_string ks' (get_routes_key d)" for d
    using hash other [of "get_routes_key d"] redis_invD(4) [OF inv] by (cases "d = c") simp_all
  show "\<exists>r. v = route_to_json js r" if "hash_field ks' (get_routes_key d) n = Some v" for d n v
    using that fields [of n v] other [of "get_routes_key d"] redis_invD(5) [OF inv]
    by (cases "d = c") auto
  show "not_string ks' MEMBER_KEY" using other redis_invD(6) [OF inv] by simp
  show "\<exists>m. v = member_to_json js m" if "hash_field ks' MEMBER_KEY u = Some v" for u v
    using that other redis_invD(7) [OF inv] by simp
qed (use redis_invD(1,2,3) [OF inv] same in auto)

end
