(* ===== verification/Redis_Properties.thy ===== *)
theory Redis_Properties
  imports Redis_Contracts
begin

section \<open>What the Redis repositories guarantee, and what they do not\<close>

text \<open>
  The contracts of \<open>Storage\<close> hold, so the lemmas of the locale \<open>services\<close> do: the same handlers run
  over either kind of storage.  What differs is that a redeemed route stays, that a nonce is bound
  to its conversation, and that a missing index entry or session panics.
\<close>

subsection \<open>The contracts\<close>

lemma redis_views_upd [simp]:
  "redis_live js (ks(get_member_session_key c u \<mapsto> e)) = redis_live js ks"
  "redis_live js (ks(get_conversation_key d := z)) = redis_live js ks"
  "redis_live js (ks(get_routes_key d := z)) = redis_live js ks"
  "redis_live js (ks(MEMBER_KEY := z)) = redis_live js ks"
  "redis_member js (ks(get_member_session_key c u \<mapsto> e)) = redis_member js ks"
  "redis_member js (ks(get_session_key k := z)) = redis_member js ks"
  "redis_member js (ks(get_conversation_key d := z)) = redis_member js ks"
  "redis_member js (ks(get_routes_key d := z)) = redis_member js ks"
  "redis_conversation js (ks(get_member_session_key c u \<mapsto> e)) = redis_conversation js ks"
  "redis_conversation js (ks(get_session_key k := z)) = redis_conversation js ks"
  "redis_conversation js (ks(get_routes_key d := z)) = redis_conversation js ks"
  "redis_conversation js (ks(MEMBER_KEY := z)) = redis_conversation js ks"
  "redis_route js (ks(get_member_session_key c u \<mapsto> e)) = redis_route js ks"
  "redis_route js (ks(get_session_key k := z)) = redis_route js ks"
  "redis_route js (ks(get_conversation_key d := z)) = redis_route js ks"
  "redis_route js (ks(MEMBER_KEY := z)) = redis_route js ks"
  by (simp_all add: redis_views hash_field_def fun_eq_iff)

lemma redis_live_upd [simp]:
  "codec_ok js \<Longrightarrow> redis_live js (ks(get_session_key k \<mapsto> Str (session_to_json js s))) =
     (redis_live js ks)(k \<mapsto> s)"
  "redis_live js (ks(get_session_key k := None)) = (redis_live js ks)(k := None)"
  by (auto simp: redis_live_def codec_ok_def fun_eq_iff)

lemma redis_conversation_upd [simp]:
  "codec_ok js \<Longrightarrow> redis_conversation js (ks(get_conversation_key c \<mapsto> Str (conversation_to_json js x))) =
     (redis_conversation js ks)(c \<mapsto> x)"
  "redis_conversation js (ks(get_conversation_key c := None)) = (redis_conversation js ks)(c := None)"
  by (auto simp: redis_conversation_def codec_ok_def fun_eq_iff)

lemma redis_member_upd [simp]:
  "codec_ok js \<Longrightarrow>
   redis_member js (ks(MEMBER_KEY \<mapsto> Hash ((hash_field ks MEMBER_KEY)(u \<mapsto> member_to_json js m)))) =
     (redis_member js ks)(u \<mapsto> m)"
  by (auto simp: redis_member_def codec_ok_def fun_eq_iff)

lemma redis_route_upd [simp]:
  "codec_ok js \<Longrightarrow>
   redis_route js (ks(get_routes_key c \<mapsto> Hash ((hash_field ks (get_routes_key c))(n \<mapsto> route_to_json js r)))) d m =
     (if d = c \<and> m = n then Some r else redis_route js ks d m)"
  by (cases "d = c") (auto simp: redis_route_def codec_ok_def)

lemma redis_session_store:
  assumes "redis_works R ks" and "codec_ok js"
  shows "session_store (redis_session_repository R js :: ('w, 'e) session_repository)
    (\<lambda>w. redis_inv js (ks w)) (\<lambda>w. redis_live js (ks w))"
proof unfold_locales
  fix w :: 'w and s :: session_info
  assume inv: "redis_inv js (ks w)" and "component_from_u8 (ss_component_type s) \<noteq> None"
  then obtain c where c: "component_from_u8 (ss_component_type s) = Some c" by blast
  obtain w' where w': "redis_set_session R js s w = ((Ok (), w') :: (unit, 'e) outcome \<times> 'w)"
    "ks w' = (ks w)(get_member_session_key c (ss_uid s) \<mapsto> Str (ss_access_key s),
      get_session_key (ss_access_key s) \<mapsto> Str (session_to_json js s))"
    by (rule redis_set_session_run [OF assms(1) c])
  show "\<exists>w'. repo_set_session (redis_session_repository R js :: ('w, 'e) session_repository) s w =
      (Ok (), w') \<and> redis_inv js (ks w') \<and>
      redis_live js (ks w') = (redis_live js (ks w))(ss_access_key s \<mapsto> s)"
    using w' redis_inv_session [OF inv c] assms(2) by simp
next
  fix w :: 'w and k
  assume inv: "redis_inv js (ks w)"
  show "\<exists>w'. repo_get_session (redis_session_repository R js :: ('w, 'e) session_repository) k w =
      (Ok (redis_live js (ks w) k), w') \<and> redis_inv js (ks w') \<and> redis_live js (ks w') = redis_live js (ks w)"
  proof -
    obtain w' where "redis_get_session R js k w =
        ((Ok (redis_live js (ks w) k), w') :: (session_info option, 'e) outcome \<times> 'w)" "ks w' = ks w"
      by (rule redis_get_session_run [OF assms inv])
    with inv show ?thesis by simp
  qed
next
  fix w :: 'w and k
  assume inv: "redis_inv js (ks w)"
  show "\<exists>w'. repo_remove_session (redis_session_repository R js :: ('w, 'e) session_repository) k w =
      (Ok (), w') \<and> redis_inv js (ks w') \<and> redis_live js (ks w') = (redis_live js (ks w))(k := None)"
  proof -
    obtain w' where "redis_remove_session R k w = ((Ok (), w') :: (unit, 'e) outcome \<times> 'w)"
      "ks w' = (ks w)(get_session_key k := None)"
      by (rule redis_remove_session_run [OF assms(1)])
    then show ?thesis by (simp add: redis_inv_delete [OF inv])
  qed
next
  fix w :: 'w and k s
  assume "redis_inv js (ks w)" and "redis_live js (ks w) k = Some s"
  then show "ss_access_key s = k" using redis_live_key [OF _ assms(2), of "ks w" k] by simp
qed

lemma redis_member_store:
  assumes "redis_works R ks" and "codec_ok js"
  shows "member_store (redis_member_repository R js :: ('w, 'e) member_repository)
    (\<lambda>w. redis_inv js (ks w)) (\<lambda>w. redis_member js (ks w))"
proof unfold_locales
  fix w :: 'w and m
  assume inv: "redis_inv js (ks w)"
  show "\<exists>w'. repo_set_member (redis_member_repository R js :: ('w, 'e) member_repository) m w =
      (Ok (), w') \<and> redis_inv js (ks w') \<and> redis_member js (ks w') = (redis_member js (ks w))(mb_uid m \<mapsto> m)"
  proof -
    obtain w' where "redis_set_member R js m w = ((Ok (), w') :: (unit, 'e) outcome \<times> 'w)"
      "ks w' = (ks w)(MEMBER_KEY \<mapsto>
        Hash ((hash_field (ks w) MEMBER_KEY)(mb_uid m \<mapsto> member_to_json js m)))"
      by (rule redis_set_member_run [OF assms(1) inv])
    then show ?thesis by (simp add: redis_inv_member [OF inv] assms(2))
  qed
qed (simp add: redis_get_member_run [OF assms])

lemma redis_route_store:
  assumes "redis_works R ks" and "codec_ok js"
  shows "route_store (redis_route_repository R js :: ('w, 'e) route_repository)
    (\<lambda>w. redis_inv js (ks w)) (\<lambda>w. redis_conversation js (ks w)) (\<lambda>w. redis_route js (ks w))"
proof unfold_locales
  fix w :: 'w and x
  assume inv: "redis_inv js (ks w)"
  show "\<exists>w'. repo_set_conversation (redis_route_repository R js :: ('w, 'e) route_repository) x w =
      (Ok (Some (conv_id x)), w') \<and> redis_inv js (ks w') \<and>
      redis_conversation js (ks w') = (redis_conversation js (ks w))(conv_id x \<mapsto> x) \<and>
      redis_route js (ks w') = redis_route js (ks w)"
  proof -
    obtain w' where "redis_set_conversation R js x w =
        ((Ok (Some (conv_id x)), w') :: (string option, 'e) outcome \<times> 'w)"
      "ks w' = (ks w)(get_conversation_key (conv_id x) \<mapsto> Str (conversation_to_json js x))"
      by (rule redis_set_conversation_run [OF assms(1)])
    then show ?thesis by (simp add: redis_inv_conversation [OF inv] assms(2))
  qed
next
  fix w :: 'w and c
  assume inv: "redis_inv js (ks w)"
  show "\<exists>w'. repo_remove_conversation (redis_route_repository R js :: ('w, 'e) route_repository) c w =
      (Ok (), w') \<and> redis_inv js (ks w') \<and>
      redis_conversation js (ks w') = (redis_conversation js (ks w))(c := None) \<and>
      redis_route js (ks w') = redis_route js (ks w)"
  proof -
    obtain w' where "redis_remove_conversation R c w = ((Ok (), w') :: (unit, 'e) outcome \<times> 'w)"
      "ks w' = (ks w)(get_conversation_key c := None)"
      by (rule redis_remove_conversation_run [OF assms(1)])
    then show ?thesis by (simp add: redis_inv_delete [OF inv])
  qed
next
  fix w :: 'w and c r x
  assume inv: "redis_inv js (ks w)" and x: "redis_conversation js (ks w) c = Some x"
  let ?ks = "(ks w)(get_routes_key c \<mapsto>
      Hash ((hash_field (ks w) (get_routes_key c))(rt_nonce r \<mapsto> route_to_json js r)))"
  have "redis_inv js ?ks"
    by (rule redis_inv_routes [OF inv, where c = c and r = r]) (auto split: if_splits)
  note inv' = redis_inv_conversation [OF this, of c "x\<lparr>conv_routes := conv_routes x @ [r]\<rparr>"]
  show "\<exists>w'. repo_set_route (redis_route_repository R js :: ('w, 'e) route_repository) c r w =
      (Ok (Some (rt_nonce r)), w') \<and> redis_inv js (ks w') \<and>
      redis_conversation js (ks w') =
        (redis_conversation js (ks w))(c \<mapsto> x\<lparr>conv_routes := conv_routes x @ [r]\<rparr>) \<and>
      redis_route js (ks w') c (rt_nonce r) = Some r \<and>
      (\<forall>d n. n \<noteq> rt_nonce r \<longrightarrow> redis_route js (ks w') d n = redis_route js (ks w) d n)"
  proof -
    obtain w' where "redis_set_route R js c r w =
        ((Ok (Some (rt_nonce r)), w') :: (string option, 'e) outcome \<times> 'w)"
      "ks w' = ?ks(get_conversation_key c \<mapsto>
        Str (conversation_to_json js (x\<lparr>conv_routes := conv_routes x @ [r]\<rparr>)))"
      by (rule redis_set_route_run [OF assms inv x])
    then show ?thesis using inv' assms(2) by simp
  qed
qed (simp_all add: redis_get_conversation_run [OF assms] redis_get_route_run [OF assms])

lemma redis_stores_axioms:
  assumes "redis_works R ks" and "redis_works R' ks" and "codec_ok js"
  shows "controller_stores_axioms (redis_session_repository R js :: ('w, 'e) session_repository)
    (redis_route_repository R' js :: ('w, 'e) route_repository)
    (\<lambda>w. redis_inv js (ks w)) (\<lambda>w. redis_live js (ks w)) (\<lambda>w. redis_member js (ks w))
    (\<lambda>w. redis_conversation js (ks w)) (\<lambda>w. redis_route js (ks w))"
proof unfold_locales
  fix w w' :: 'w and s and r :: "(unit, 'e) outcome"
  assume run: "repo_set_session (redis_session_repository R js) s w = (r, w')"
  show "redis_member js (ks w') = redis_member js (ks w) \<and>
      redis_conversation js (ks w') = redis_conversation js (ks w) \<and>
      redis_route js (ks w') = redis_route js (ks w)"
  proof (cases "component_from_u8 (ss_component_type s)")
    case None
    with run show ?thesis by (simp add: redis_set_session_def prog_simps)
  next
    case (Some c)
    obtain v where "redis_set_session R js s w = ((Ok (), v) :: (unit, 'e) outcome \<times> 'w)"
      "ks v = (ks w)(get_member_session_key c (ss_uid s) \<mapsto> Str (ss_access_key s),
        get_session_key (ss_access_key s) \<mapsto> Str (session_to_json js s))"
      by (rule redis_set_session_run [OF assms(1) Some])
    with run show ?thesis by simp
  qed
next
  fix w w' :: 'w and k and r :: "(session_info option, 'e) outcome"
  assume inv: "redis_inv js (ks w)"
    and run: "repo_get_session (redis_session_repository R js) k w = (r, w')"
  obtain v where "redis_get_session R js k w =
      ((Ok (redis_live js (ks w) k), v) :: (session_info option, 'e) outcome \<times> 'w)" "ks v = ks w"
    by (rule redis_get_session_run [OF assms(1,3) inv])
  with run show "redis_member js (ks w') = redis_member js (ks w) \<and>
      redis_conversation js (ks w') = redis_conversation js (ks w) \<and>
      redis_route js (ks w') = redis_route js (ks w)" by simp
next
  fix w w' :: 'w and k and r :: "(unit, 'e) outcome"
  assume run: "repo_remove_session (redis_session_repository R js) k w = (r, w')"
  obtain v where "redis_remove_session R k w = ((Ok (), v) :: (unit, 'e) outcome \<times> 'w)"
    "ks v = (ks w)(get_session_key k := None)"
    by (rule redis_remove_session_run [OF assms(1)])
  with run show "redis_member js (ks w') = redis_member js (ks w) \<and>
      redis_conversation js (ks w') = redis_conversation js (ks w) \<and>
      redis_route js (ks w') = redis_route js (ks w)" by simp
next
  fix w w' :: 'w and x and r :: "(string option, 'e) outcome"
  assume run: "repo_set_conversation (redis_route_repository R' js) x w = (r, w')"
  obtain v where "redis_set_conversation R' js x w =
      ((Ok (Some (conv_id x)), v) :: (string option, 'e) outcome \<times> 'w)"
    "ks v = (ks w)(get_conversation_key (conv_id x) \<mapsto> Str (conversation_to_json js x))"
    by (rule redis_set_conversation_run [OF assms(2)])
  with run show "redis_live js (ks w') = redis_live js (ks w) \<and>
      redis_member js (ks w') = redis_member js (ks w)" by simp
next
  fix w w' :: 'w and c and r :: "(unit, 'e) outcome"
  assume run: "repo_remove_conversation (redis_route_repository R' js) c w = (r, w')"
  obtain v where "redis_remove_conversation R' c w = ((Ok (), v) :: (unit, 'e) outcome \<times> 'w)"
    "ks v = (ks w)(get_conversation_key c := None)"
    by (rule redis_remove_conversation_run [OF assms(2)])
  with run show "redis_live js (ks w') = redis_live js (ks w) \<and>
      redis_member js (ks w') = redis_member js (ks w)" by simp
next
  fix w w' :: 'w and c rt and r :: "(string option, 'e) outcome"
  assume inv: "redis_inv js (ks w)"
    and run: "repo_set_route (redis_route_repository R' js) c rt w = (r, w')"
  show "redis_live js (ks w') = redis_live js (ks w) \<and> redis_member js (ks w') = redis_member js (ks w)"
  proof (cases "redis_conversation js (ks w) c")
    case None
    with run show ?thesis
      by (simp add: redis_set_route_def redis_get_conversation_run [OF assms(2,3) inv] prog_simps)
  next
    case (Some x)
    obtain v where "redis_set_route R' js c rt w =
        ((Ok (Some (rt_nonce rt)), v) :: (string option, 'e) outcome \<times> 'w)"
      "ks v = (ks w)(get_routes_key c \<mapsto>
          Hash ((hash_field (ks w) (get_routes_key c))(rt_nonce rt \<mapsto> route_to_json js rt)),
        get_conversation_key c \<mapsto> Str (conversation_to_json js (x\<lparr>conv_routes := conv_routes x @ [rt]\<rparr>)))"
      by (rule redis_set_route_run [OF assms(2,3) inv Some])
    with run show ?thesis by simp
  qed
next
  fix w w' :: 'w and n and r :: "(unit, 'e) outcome"
  assume inv: "redis_inv js (ks w)"
    and run: "repo_remove_route (redis_route_repository R' js) n w = (r, w')"
  obtain v where "redis_remove_route R' n w = ((Ok (), v) :: (unit, 'e) outcome \<times> 'w)"
    and same: "\<And>j. j \<noteq> get_routes_key n \<Longrightarrow> ks v j = ks w j"
    by (rule redis_remove_route_run [OF assms(2) inv, of n]) blast
  with run show "redis_live js (ks w') = redis_live js (ks w) \<and>
      redis_member js (ks w') = redis_member js (ks w)"
    by (simp add: redis_live_def redis_member_def hash_field_def fun_eq_iff same)
qed

text \<open>Each repository opens a connection of its own, to the same server.\<close>

lemma redis_stores:
  assumes "redis_works R ks" and "redis_works R' ks" and "redis_works R'' ks" and "codec_ok js"
  shows "controller_stores (redis_session_repository R js :: ('w, 'e) session_repository)
    (redis_member_repository R'' js) (redis_route_repository R' js)
    (\<lambda>w. redis_inv js (ks w)) (\<lambda>w. redis_live js (ks w)) (\<lambda>w. redis_member js (ks w))
    (\<lambda>w. redis_conversation js (ks w)) (\<lambda>w. redis_route js (ks w))"
  by (intro controller_stores.intro redis_session_store redis_member_store redis_route_store
      redis_stores_axioms assms)

lemma redis_services:
  assumes "redis_works R ks" and "redis_works R' ks" and "redis_works R'' ks" and "codec_ok js"
  shows "services (redis_session_repository R js) (redis_member_repository R'' js)
    (redis_route_repository R' js)
    (\<lambda>w. redis_inv js (ks w)) (\<lambda>w. redis_live js (ks w)) (\<lambda>w. redis_member js (ks w))
    (\<lambda>w. redis_conversation js (ks w)) (\<lambda>w. redis_route js (ks w))"
  by (intro services.intro redis_stores assms)

text \<open>
  C13. The Redis repositories keep the storage contracts the controller is written against: over the
  entries a server holds, what the session, member and route repositories store, look up and remove
  is what the abstract maps say, on any keyspace only the program wrote to; no operation of one
  touches the data of another.
\<close>

theorem redis_keeps_contracts:
  assumes "redis_works R ks" and "redis_works R' ks" and "redis_works R'' ks" and "codec_ok js"
  shows "controller_stores (redis_session_repository R js :: ('w, status) session_repository)
    (redis_member_repository R'' js) (redis_route_repository R' js)
    (\<lambda>w. redis_inv js (ks w)) (\<lambda>w. redis_live js (ks w)) (\<lambda>w. redis_member js (ks w))
    (\<lambda>w. redis_conversation js (ks w)) (\<lambda>w. redis_route js (ks w))"
  by (rule redis_stores [OF assms])

subsection \<open>A redeemed nonce\<close>

abbreviation redis_router :: "('w, 'r) redis \<Rightarrow> codec \<Rightarrow> (nat list \<Rightarrow> nat option) \<Rightarrow> ('w, status) route_manager" where
  "redis_router R js pick \<equiv> new_route_manager (redis_route_repository R js) pick"

lemma redis_check_session_run:
  assumes "redis_works R ks" and "codec_ok js" and "redis_inv js (ks w)"
    and "redis_live js (ks w) k = Some s"
  obtains w' where "check_session (redis_session_repository R js) k w = (Ok (), w')" and "ks w' = ks w"
proof -
  obtain w' where "redis_get_session R js k w =
      ((Ok (redis_live js (ks w) k), w') :: (session_info option, status) outcome \<times> 'a)" "ks w' = ks w"
    by (rule redis_get_session_run [OF assms(1-3)])
  then show thesis
    by (intro that [of w']) (simp_all add: check_session_def sm_get_session_def assms(4) prog_simps)
qed

lemma redis_check_conversation_run:
  assumes "redis_works R ks" and "codec_ok js" and "redis_inv js (ks w)"
    and "redis_conversation js (ks w) c = Some x"
  shows "check_conversation (redis_router R js pick) c w = (Ok (), w)"
    and "rm_get_conversation (redis_router R js pick) c w = (Ok (Some x), w)"
  by (simp_all add: check_conversation_def rm_get_conversation_def prog_simps assms(4)
      redis_get_conversation_run [OF assms(1-3)])

lemma redis_route_kept:
  assumes "redis_works R ks" and "redis_inv js (ks w)" and "n \<noteq> c"
  obtains w' where "redis_remove_route R n w = ((Ok (), w') :: (unit, 'e) outcome \<times> 'w)"
    and "redis_inv js (ks w')" and "redis_live js (ks w') = redis_live js (ks w)"
    and "redis_conversation js (ks w') = redis_conversation js (ks w)"
    and "redis_route js (ks w') c = redis_route js (ks w) c"
proof -
  obtain w' where w': "redis_remove_route R n w = ((Ok (), w') :: (unit, 'e) outcome \<times> 'w)"
    "not_string (ks w') (get_routes_key n)"
    "hash_field (ks w') (get_routes_key n) = (hash_field (ks w) (get_routes_key n))(n := None)"
    and same: "\<And>j. j \<noteq> get_routes_key n \<Longrightarrow> ks w' j = ks w j"
    by (rule redis_remove_route_run [OF assms(1,2), of n]) blast
  have "redis_inv js (ks w')"
    by (rule redis_inv_routes [OF assms(2) same w'(2)]) (auto simp: w'(3) split: if_splits)
  then show thesis
    by (rule that [OF w'(1)])
       (use assms(3) in \<open>simp_all add: redis_views hash_field_def fun_eq_iff same\<close>)
qed

lemma redis_redeem_run:
  assumes "redis_works R ks" and "codec_ok js" and "redis_inv js (ks w)"
    and "redis_live js (ks w) k = Some s" and "redis_conversation js (ks w) c = Some x"
    and "redis_route js (ks w) c n = Some r" and "\<not> rt_end_route r" and "n \<noteq> c"
  obtains w' where "route_redeem (redis_session_repository R js) (redis_router R js pick) k c n w = (Ok None, w')"
    and "redis_inv js (ks w')" and "redis_live js (ks w') = redis_live js (ks w)"
    and "redis_conversation js (ks w') = redis_conversation js (ks w)"
    and "redis_route js (ks w') c = redis_route js (ks w) c"
proof -
  obtain v where v: "check_session (redis_session_repository R js) k w = (Ok (), v)" "ks v = ks w"
    by (rule redis_check_session_run [OF assms(1-4)])
  then have inv: "redis_inv js (ks v)" and x: "redis_conversation js (ks v) c = Some x"
    and r: "redis_route js (ks v) c n = Some r"
    using assms(3,5,6) by simp_all
  obtain w' where w': "redis_remove_route R n v = ((Ok (), w') :: (unit, status) outcome \<times> 'a)"
    "redis_inv js (ks w')" "redis_live js (ks w') = redis_live js (ks v)"
    "redis_conversation js (ks w') = redis_conversation js (ks v)"
    "redis_route js (ks w') c = redis_route js (ks v) c"
    by (rule redis_route_kept [OF assms(1) inv assms(8)])
  have "rm_redeem_route (redis_router R js pick) c n v = ((Ok (Some r), w') :: (route option, status) outcome \<times> 'a)"
    using w'(1) by (simp add: rm_redeem_route_def redis_get_route_run [OF assms(1,2) inv] r prog_simps)
  then have "route_redeem (redis_session_repository R js) (redis_router R js pick) k c n w = (Ok None, w')"
    using v(1) redis_check_conversation_run(1) [OF assms(1,2) inv x, of pick] assms(7)
    by (simp add: route_redeem_def) (simp add: prog_simps)
  then show thesis using that w' v(2) by simp
qed

text \<open>
  C38. With Redis a nonce is not worth one redemption but as many as come: the nonce of an inner hop is
  accepted, and accepted again by whoever asks next, since its removal looks under the wrong key.
  It is, on the other hand, bound to its conversation: where it was not issued it is refused.
\<close>

theorem redis_nonce_reusable:
  assumes "redis_works R ks" and "codec_ok js" and "redis_inv js (ks w)"
    and "redis_live js (ks w) k = Some s" and "redis_live js (ks w) k' = Some s'"
    and "redis_conversation js (ks w) c = Some x" and "redis_route js (ks w) c n = Some r"
    and "\<not> rt_end_route r" and "n \<noteq> c"
    and "redis_conversation js (ks w) d = Some y" and "redis_route js (ks w) d n = None"
  shows "\<exists>w1 w2 w3. route_redeem (redis_session_repository R js) (redis_router R js pick) k c n w = (Ok None, w1)
    \<and> route_redeem (redis_session_repository R js) (redis_router R js pick) k' c n w1 = (Ok None, w2)
    \<and> redis_route js (ks w2) c n = Some r
    \<and> route_redeem (redis_session_repository R js) (redis_router R js pick) k d n w =
        (Err (mk_status Internal ''Failed to redeem route''), w3)"
proof -
  obtain w1 where w1: "route_redeem (redis_session_repository R js) (redis_router R js pick) k c n w = (Ok None, w1)"
    "redis_inv js (ks w1)" "redis_live js (ks w1) = redis_live js (ks w)"
    "redis_conversation js (ks w1) = redis_conversation js (ks w)"
    "redis_route js (ks w1) c = redis_route js (ks w) c"
    by (rule redis_redeem_run [OF assms(1-4,6-9)])
  have "redis_live js (ks w1) k' = Some s'" "redis_conversation js (ks w1) c = Some x"
    "redis_route js (ks w1) c n = Some r"
    using w1(3-5) assms(5-7) by simp_all
  then obtain w2 where w2: "route_redeem (redis_session_repository R js) (redis_router R js pick) k' c n w1 = (Ok None, w2)"
    "redis_route js (ks w2) c = redis_route js (ks w1) c"
    by (rule redis_redeem_run [OF assms(1,2) w1(2) _ _ _ assms(8,9)])
  obtain w3 where "route_redeem (redis_session_repository R js) (redis_router R js pick) k d n w =
      (Err (mk_status Internal ''Failed to redeem route''), w3)"
    by (rule services.redeem_unknown_run [OF redis_services [OF assms(1,1,1,2)] assms(3,4,10,11)])
  with w1 w2 assms(7) show ?thesis by auto
qed

subsection \<open>Missing entries\<close>

lemma redis_get_missing:
  assumes "redis_works R ks" and "ks w k = None"
  shows "unwrap_result (rd_get R k) w = (Panic, w)"
proof -
  obtain e where "rd_get R k w = (Err e, w)"
    using redis_stringsD(3) [OF assms(1) not_string_None [of "ks w" k, OF assms(2)]] by blast
  then show ?thesis by (simp add: unwrap_result_def)
qed

lemma redis_route_request:
  fixes ks :: "'w \<Rightarrow> keyspace"
  assumes "redis_works R ks" and "codec_ok js" and "redis_inv js (ks w)"
    and "redis_live js (ks w) k = Some s" and "redis_conversation js (ks w) c = Some x"
    and "conv_routing_id x = 1"
  obtains v where "ks v = ks w"
    and "length (conv_routes x) = 3 \<Longrightarrow>
      redis_get_client R js (conv_to x) v = ((Panic, v) :: (session_info option, status) outcome \<times> 'w) \<Longrightarrow>
      fst (route_route (redis_session_repository R js) (redis_router R js pick) uuid k c w) = Panic"
    and "length (conv_routes x) \<noteq> 3 \<Longrightarrow>
      redis_get_proxies R js k v = ((Panic, v) :: (session_info list option, status) outcome \<times> 'w) \<Longrightarrow>
      fst (route_route (redis_session_repository R js) (redis_router R js pick) uuid k c w) = Panic"
proof -
  obtain v where v: "check_session (redis_session_repository R js) k w = (Ok (), v)" "ks v = ks w"
    by (rule redis_check_session_run [OF assms(1-4)])
  then have "redis_inv js (ks v)" "redis_conversation js (ks v) c = Some x"
    using assms(3,5) by simp_all
  note conv = redis_check_conversation_run [OF assms(1,2) this, of pick]
  have final: "rm_check_for_final_route (redis_router R js pick) x v =
      ((Ok (length (conv_routes x) = 3), v) :: (bool, status) outcome \<times> 'w)"
    by (simp add: rm_check_for_final_route_def assms(6) prog_simps)
  show thesis
    by (rule that [OF v(2)])
       (simp_all add: route_route_def v(1) conv final sm_get_client_def sm_get_proxies_def)
qed

text \<open>
  With Redis a recipient who is not connected crashes the handler: at the fourth hop, when the
  index has no entry for the user the conversation is for, the route request panics, where the
  in-memory repository lets it answer NotFound.
\<close>

theorem redis_offline_recipient_panics:
  assumes "redis_works R ks" and "codec_ok js" and "redis_inv js (ks w)"
    and "redis_live js (ks w) k = Some s" and "redis_conversation js (ks w) c = Some x"
    and "conv_routing_id x = 1" and "length (conv_routes x) = 3"
    and "ks w (get_member_session_key Client (conv_to x)) = None"
  shows "fst (route_route (redis_session_repository R js) (redis_router R js pick) uuid k c w) = Panic"
proof -
  obtain v where v: "ks v = ks w"
    and panics: "length (conv_routes x) = 3 \<Longrightarrow>
      redis_get_client R js (conv_to x) v = ((Panic, v) :: (session_info option, status) outcome \<times> 'a) \<Longrightarrow>
      fst (route_route (redis_session_repository R js) (redis_router R js pick) uuid k c w) = Panic"
    by (rule redis_route_request [OF assms(1-6), where pick = pick and uuid = uuid]) blast
  have "ks v (get_member_session_key Client (conv_to x)) = None" using assms(8) v by simp
  note missing = redis_get_missing [OF assms(1) this]
  have "redis_get_client R js (conv_to x) v = ((Panic, v) :: (session_info option, status) outcome \<times> 'a)"
    by (simp add: redis_get_client_def missing)
  then show ?thesis by (rule panics [OF assms(7)])
qed

lemma redis_collect_panics:
  assumes "redis_works R ks" and "codec_ok js" and "redis_inv js (ks w)"
    and "index \<in> set found" and "ks w index = Some (Str j)" and "ks w (get_session_key j) = None"
  shows "redis_collect_proxies R js k found ps w = (Panic, w)"
  using assms(4)
proof (induction found arbitrary: ps)
  case (Cons i rest)
  consider (missing) "not_string (ks w) i" | (dangling) v where "ks w i = Some (Str v)" "ks w (get_session_key v) = None"
    | (live) v s where "ks w i = Some (Str v)" "ks w (get_session_key v) = Some (Str (session_to_json js s))"
    unfolding not_string_def using redis_invD(1) [OF assms(3)] by (metis not_None_eq)
  then show ?case
  proof cases
    case missing
    then obtain e where "rd_get R i w = (Err e, w)" using redis_stringsD(3) [OF assms(1)] by blast
    then show ?thesis by (simp add: prog_simps unwrap_result_def)
  next
    case dangling
    obtain e where "rd_get R (get_session_key v) w = (Err e, w)"
      using redis_stringsD(3) [OF assms(1) not_string_None [of "ks w" "get_session_key v", OF dangling(2)]]
      by blast
    with redis_stringsD(2) [OF assms(1) dangling(1)] show ?thesis by (simp add: prog_simps unwrap_result_def)
  next
    case live
    have "i \<noteq> index"
    proof
      assume "i = index"
      with live(1) assms(5) have "v = j" by simp
      with live(2) assms(6) show False by simp
    qed
    with Cons.prems have "index \<in> set rest" by simp
    note ih = Cons.IH [OF this]
    have "session_of_json js (session_to_json js s) = Some s" using assms(2) by (simp add: codec_ok_def)
    with redis_stringsD(2) [OF assms(1) live(1)] redis_stringsD(2) [OF assms(1) live(2)] ih
    show ?thesis by (simp add: prog_simps unwrap_result_def session_from_redis_def)
  qed
qed simp

text \<open>
  With Redis one proxy that logs out takes routing down: the log-out leaves its index entry, and
  until that expires every request for an inner hop, by any session and in any conversation, panics.
\<close>

theorem redis_logout_breaks_routing:
  assumes "redis_works R ks" and "codec_ok js" and "redis_inv js (ks w)"
    and "redis_live js (ks w) j = Some p" and "ks w (get_member_session_key Proxy u) = Some (Str j)"
    and "redis_live js (ks w) k = Some s" and "k \<noteq> j" and "redis_conversation js (ks w) c = Some x"
    and "conv_routing_id x = 1" and "length (conv_routes x) \<noteq> 3"
  shows "\<exists>w1. auth_logout (redis_session_repository R js) j w = (Ok (), w1)
    \<and> fst (route_route (redis_session_repository R js) (redis_router R js pick) uuid k c w1) = Panic"
proof -
  obtain v where v: "check_session (redis_session_repository R js) j w = (Ok (), v)" "ks v = ks w"
    by (rule redis_check_session_run [OF assms(1-4)])
  obtain w1 where w1: "redis_remove_session R j v = ((Ok (), w1) :: (unit, status) outcome \<times> 'a)"
    "ks w1 = (ks v)(get_session_key j := None)"
    by (rule redis_remove_session_run [OF assms(1)])
  have out: "auth_logout (redis_session_repository R js) j w = (Ok (), w1)"
    by (simp add: auth_logout_def v(1) sm_remove_session_def w1(1) ret_def)
  have inv: "redis_inv js (ks w1)" using assms(3) by (simp add: w1(2) v(2) redis_inv_delete)
  have "redis_live js (ks w1) k = Some s" "redis_conversation js (ks w1) c = Some x"
    using assms(6-8) by (simp_all add: w1(2) v(2))
  then obtain w2 where w2: "ks w2 = ks w1"
    and panics: "length (conv_routes x) \<noteq> 3 \<Longrightarrow>
      redis_get_proxies R js k w2 = ((Panic, w2) :: (session_info list option, status) outcome \<times> 'a) \<Longrightarrow>
      fst (route_route (redis_session_repository R js) (redis_router R js pick) uuid k c w1) = Panic"
    by (rule redis_route_request [OF assms(1,2) inv _ _ assms(9), where pick = pick and uuid = uuid]) blast
  obtain found where found: "rd_scan_match R (get_member_session_key Proxy ''*'') w2 = (Ok found, w2)"
    "\<And>k. k \<in> set found \<longleftrightarrow> (\<exists>u e. k = get_member_session_key Proxy u \<and> ks w2 k = Some e)"
    by (rule redis_scanD [OF assms(1), where c = Proxy and w = w2]) blast
  have index: "ks w2 (get_member_session_key Proxy u) = Some (Str j)" "ks w2 (get_session_key j) = None"
    using assms(5) by (simp_all add: w2 w1(2) v(2))
  then have mem: "get_member_session_key Proxy u \<in> set found" by (auto simp: found(2))
  have "redis_inv js (ks w2)" using inv by (simp add: w2)
  note panic = redis_collect_panics [OF assms(1,2) this mem index]
  have "found \<noteq> []" using mem by auto
  then have "redis_get_proxies R js k w2 = ((Panic, w2) :: (session_info list option, status) outcome \<times> 'a)"
    by (simp add: redis_get_proxies_def prog_simps unwrap_result_def found(1) panic)
  with out panics [OF assms(10)] show ?thesis by blast
qed

end
