(* ===== verification/Domain_Components.thy ===== *)
theory Domain_Components
  imports Controller Redis_Properties
begin

section \<open>The storage the controller starts with\<close>

text \<open>
  The \<^verbatim>\<open>create_...\<close> functions of \<^verbatim>\<open>controller/src/storage/mod.rs\<close>, the constructors of the managers
  and \<^verbatim>\<open>create_domain_components\<close> of \<^verbatim>\<open>main.rs\<close>.  A \<^verbatim>\<open>Box<dyn ...>\<close> that is either of two
  implementations is a sum: on the left a repository over the in-memory tables, on the right one over
  a Redis connection, whose world is the server.  The world \<open>'v\<close> of these programs is what opening a
  connection depends on.
\<close>

subsection \<open>Connections\<close>

text \<open>\<^verbatim>\<open>redis::Client::open\<close> and \<^verbatim>\<open>get_connection\<close>, of the crate \<^verbatim>\<open>redis\<close>.\<close>

record ('v, 'c, 'w, 'r) redis_crate =
  client_open :: "string \<Rightarrow> ('v, 'c, 'r) prog"
  client_get_connection :: "'c \<Rightarrow> ('v, ('w, 'r) redis, 'r) prog"

definition redis_get_connection ::
  "('v, 'c, 'w, 'r) redis_crate \<Rightarrow> string \<Rightarrow> ('v, ('w, 'r) redis, 'e) prog" where
  "redis_get_connection lib uri =
     and_then (unwrap_result (client_open lib uri)) (\<lambda>client.
     unwrap_result (client_get_connection lib client))"

text \<open>A \<^verbatim>\<open>RedisRepository\<close> is its connection.\<close>

definition redis_new ::
  "('v, 'c, 'w, 'r) redis_crate \<Rightarrow> string \<Rightarrow> ('v, ('w, 'r) redis, 'e) prog" where
  "redis_new lib uri = and_then (redis_get_connection lib uri) (\<lambda>connection. ret connection)"

text \<open>\<^verbatim>\<open>std::panic::catch_unwind\<close>: the panic of the inner call becomes an error.\<close>

definition catch_unwind :: "'f \<Rightarrow> ('v, 'a, 'e) prog \<Rightarrow> ('v, 'a, 'f) prog" where
  "catch_unwind message p v =
     (case p v of
        (Ok x, v') \<Rightarrow> (Ok x, v')
      | (_, v') \<Rightarrow> (Err message, v'))"

definition REDIS_URL_KEY :: string where "REDIS_URL_KEY = ''REDIS_URL''"

definition REDIS_SESSION_REPO_ERROR :: string where
  "REDIS_SESSION_REPO_ERROR = ''Failed to create the session's Redis repository''"

definition REDIS_ROUTE_REPO_ERROR :: string where
  "REDIS_ROUTE_REPO_ERROR = ''Failed to create the route's Redis repository''"

definition REDIS_MEMBER_REPO_ERROR :: string where
  "REDIS_MEMBER_REPO_ERROR = ''Failed to create the member's Redis repository''"

definition redis_url :: "environment \<Rightarrow> string" where
  "redis_url env = (case get_env_variable env REDIS_URL_KEY of Ok url \<Rightarrow> url | _ \<Rightarrow> [])"

subsection \<open>Repositories\<close>

type_synonym 'w session_box = "(world, status) session_repository + ('w, status) session_repository"
type_synonym 'w route_box = "(world, status) route_repository + ('w, status) route_repository"
type_synonym 'w member_box = "(world, status) member_repository + ('w, status) member_repository"

definition create_session_repository ::
  "environment \<Rightarrow> ('v, 'c, 'w, 'r) redis_crate \<Rightarrow> codec \<Rightarrow> proxy_order \<Rightarrow> repository_type \<Rightarrow>
     ('v, 'w session_box, string) prog" where
  "create_session_repository env lib js porder repo_type =
     (case repo_type of
        InMemory \<Rightarrow> ret (Inl (inmemory_session_repository porder))
      | Redis \<Rightarrow>
          and_then (catch_unwind REDIS_SESSION_REPO_ERROR
            (redis_new lib (redis_url env) :: ('v, ('w, 'r) redis, string) prog)) (\<lambda>R.
          ret (Inr (redis_session_repository R js))))"

definition create_route_repository ::
  "environment \<Rightarrow> ('v, 'c, 'w, 'r) redis_crate \<Rightarrow> codec \<Rightarrow> repository_type \<Rightarrow>
     ('v, 'w route_box, string) prog" where
  "create_route_repository env lib js repo_type =
     (case repo_type of
        InMemory \<Rightarrow> ret (Inl inmemory_route_repository)
      | Redis \<Rightarrow>
          and_then (catch_unwind REDIS_ROUTE_REPO_ERROR
            (redis_new lib (redis_url env) :: ('v, ('w, 'r) redis, string) prog)) (\<lambda>R.
          ret (Inr (redis_route_repository R js))))"

definition create_member_repository ::
  "environment \<Rightarrow> ('v, 'c, 'w, 'r) redis_crate \<Rightarrow> codec \<Rightarrow> repository_type \<Rightarrow>
     ('v, 'w member_box, string) prog" where
  "create_member_repository env lib js repo_type =
     (case repo_type of
        InMemory \<Rightarrow> ret (Inl inmemory_member_repository)
      | Redis \<Rightarrow>
          and_then (catch_unwind REDIS_MEMBER_REPO_ERROR
            (redis_new lib (redis_url env) :: ('v, ('w, 'r) redis, string) prog)) (\<lambda>R.
          ret (Inr (redis_member_repository R js))))"

subsection \<open>Managers\<close>

text \<open>The session and the member manager are their repositories, the route manager adds the strategies.\<close>

definition new_session_manager ::
  "environment \<Rightarrow> ('v, 'c, 'w, 'r) redis_crate \<Rightarrow> codec \<Rightarrow> proxy_order \<Rightarrow> repository_type \<Rightarrow>
     ('v, 'w session_box, string) prog" where
  "new_session_manager env lib js porder repo_type =
     unwrap_result (create_session_repository env lib js porder repo_type)"

definition new_member_manager ::
  "environment \<Rightarrow> ('v, 'c, 'w, 'r) redis_crate \<Rightarrow> codec \<Rightarrow> repository_type \<Rightarrow>
     ('v, 'w member_box, string) prog" where
  "new_member_manager env lib js repo_type = unwrap_result (create_member_repository env lib js repo_type)"

definition create_route_manager ::
  "environment \<Rightarrow> ('v, 'c, 'w, 'r) redis_crate \<Rightarrow> codec \<Rightarrow> (nat list \<Rightarrow> nat option) \<Rightarrow> repository_type \<Rightarrow>
     ('v, (world, status) route_manager + ('w, status) route_manager, string) prog" where
  "create_route_manager env lib js pick repo_type =
     and_then (unwrap_result (create_route_repository env lib js repo_type)) (\<lambda>repository.
     ret (map_sum (\<lambda>RR. new_route_manager RR pick) (\<lambda>RR. new_route_manager RR pick) repository))"

definition create_domain_components ::
  "environment \<Rightarrow> ('v, 'c, 'w, 'r) redis_crate \<Rightarrow> codec \<Rightarrow> proxy_order \<Rightarrow> (nat list \<Rightarrow> nat option) \<Rightarrow>
     ('v, 'w session_box \<times> ((world, status) route_manager + ('w, status) route_manager) \<times> 'w member_box,
      string) prog" where
  "create_domain_components env lib js porder pick =
     (let repository_type = repository_type_from_env env
      in and_then (new_member_manager env lib js repository_type) (\<lambda>member_manager.
         and_then (create_route_manager env lib js pick repository_type) (\<lambda>route_manager.
         and_then (new_session_manager env lib js porder repository_type) (\<lambda>session_manager.
         ret (session_manager, route_manager, member_manager)))))"

subsection \<open>What start-up ends in\<close>

text \<open>
  Independently of how the constructors go about it: the variable that asks for Redis, the URL it is
  looked for at, and an attempt to connect there, which yields the connection or none.
\<close>

definition redis_asked :: "environment \<Rightarrow> bool" where
  "redis_asked env \<longleftrightarrow> (case env_var env ''REPOSITORY'' of None \<Rightarrow> False | Some v \<Rightarrow> parse_u8 v = Some 1)"

definition server_url :: "environment \<Rightarrow> string" where
  "server_url env = (case env_var env ''REDIS_URL'' of None \<Rightarrow> [] | Some url \<Rightarrow> url)"

definition connects ::
  "('v, 'c, 'w, 'r) redis_crate \<Rightarrow> string \<Rightarrow> 'v \<Rightarrow> ('w, 'r) redis option \<times> 'v" where
  "connects lib url v =
     (case client_open lib url v of
        (Ok c, v1) \<Rightarrow>
          (case client_get_connection lib c v1 of
             (Ok R, v2) \<Rightarrow> (Some R, v2)
           | (_, v2) \<Rightarrow> (None, v2))
      | (_, v1) \<Rightarrow> (None, v1))"

lemma repository_type_asked: "repository_type_from_env env = (if redis_asked env then Redis else InMemory)"
proof -
  have "parse_u8 [] = None" by (simp add: parse_u8_def parse_unsigned_def)
  then show ?thesis
    by (simp add: repository_type_from_env_def redis_asked_def get_env_variable_def
        repository_type_from_u8_def default_repository_type_def split: option.split)
qed

lemma redis_url_server: "redis_url env = server_url env"
  by (simp add: redis_url_def server_url_def REDIS_URL_KEY_def get_env_variable_def split: option.split)

lemma redis_new_connects:
  "redis_new lib url v = (case connects lib url v of (Some R, v') \<Rightarrow> (Ok R, v') | (None, v') \<Rightarrow> (Panic, v'))"
  by (simp add: redis_new_def redis_get_connection_def connects_def unwrap_result_def prog_simps
      split: prod.split outcome.split option.split)

text \<open>The constructor of a manager: over a connection to the server, or a panic.\<close>

lemma managers_connect:
  fixes lib :: "('v, 'c, 'w, 'r) redis_crate"
  shows "new_member_manager env lib js Redis v =
      (case connects lib (server_url env) v of
         (Some R, v') \<Rightarrow> (Ok (Inr (redis_member_repository R js)), v') | (None, v') \<Rightarrow> (Panic, v'))"
    and "create_route_manager env lib js pick Redis v =
      (case connects lib (server_url env) v of
         (Some R, v') \<Rightarrow> (Ok (Inr (new_route_manager (redis_route_repository R js) pick)), v')
       | (None, v') \<Rightarrow> (Panic, v'))"
    and "new_session_manager env lib js porder Redis v =
      (case connects lib (server_url env) v of
         (Some R, v') \<Rightarrow> (Ok (Inr (redis_session_repository R js)), v') | (None, v') \<Rightarrow> (Panic, v'))"
  by (cases "connects lib (server_url env) v" rule: prod.exhaust; cases "fst (connects lib (server_url env) v)";
      simp add: new_member_manager_def create_member_repository_def create_route_manager_def
        create_route_repository_def new_session_manager_def create_session_repository_def
        redis_url_server catch_unwind_def redis_new_connects unwrap_result_def prog_simps)+

lemma domain_components_in_memory:
  assumes "repository_type_from_env env = InMemory"
  shows "create_domain_components env lib js porder pick v =
    (Ok (Inl (inmemory_session_repository porder), Inl (new_route_manager inmemory_route_repository pick),
         Inl inmemory_member_repository), v)"
  by (simp add: create_domain_components_def assms new_member_manager_def create_member_repository_def
      create_route_manager_def create_route_repository_def new_session_manager_def
      create_session_repository_def unwrap_result_def prog_simps)

lemma domain_components_redis:
  fixes lib :: "('v, 'c, 'w, 'r) redis_crate"
  assumes "repository_type_from_env env = Redis"
  shows "create_domain_components env lib js porder pick v =
    (case connects lib (server_url env) v of
       (None, v1) \<Rightarrow> (Panic, v1)
     | (Some Rm, v1) \<Rightarrow>
         (case connects lib (server_url env) v1 of
            (None, v2) \<Rightarrow> (Panic, v2)
          | (Some Rr, v2) \<Rightarrow>
              (case connects lib (server_url env) v2 of
                 (None, v3) \<Rightarrow> (Panic, v3)
               | (Some Rs, v3) \<Rightarrow>
                   (Ok (Inr (redis_session_repository Rs js),
                        Inr (new_route_manager (redis_route_repository Rr js) pick),
                        Inr (redis_member_repository Rm js)), v3))))"
  by (simp add: create_domain_components_def assms managers_connect prog_simps
      split: prod.split option.split)

lemma connects_Some:
  "connects lib url v = (Some R, v') \<Longrightarrow>
   \<exists>c v1. client_open lib url v = (Ok c, v1) \<and> client_get_connection lib c v1 = (Ok R, v')"
  by (auto simp: connects_def split: prod.splits outcome.splits)

text \<open>Every connection to the server at a URL behaves as documented.\<close>

definition server_works :: "('v, 'c, 'w, 'r) redis_crate \<Rightarrow> string \<Rightarrow> ('w \<Rightarrow> keyspace) \<Rightarrow> bool" where
  "server_works lib url ks \<longleftrightarrow>
     (\<forall>u c u' v R v'. client_open lib url u = (Ok c, u') \<longrightarrow>
        client_get_connection lib c v = (Ok R, v') \<longrightarrow> redis_works R ks)"

text \<open>
  C16. The storage start-up ends in, exactly.  Unless \<^verbatim>\<open>REPOSITORY\<close> reads 1 the managers work on the
  in-memory tables, where even a nonce is spent by its redemption, and nothing is contacted.  If it
  does, three connections are made to the server of \<^verbatim>\<open>REDIS_URL\<close> (to the empty URL when it is not
  set), for the members, the routes and the sessions in this order: the first that cannot be made
  is a panic, and when all can, start-up ends well, each manager works over its own connection, and,
  provided connections to that server behave as documented, the contracts of the storage hold.
\<close>

theorem start_up_storage:
  fixes ks :: "'w \<Rightarrow> keyspace" and lib :: "('v, 'c, 'w, 'r) redis_crate"
  assumes "server_works lib (server_url env) ks" and "codec_ok js"
  shows "if \<not> redis_asked env then
      (\<exists>SR RM MR. create_domain_components env lib js porder pick v = (Ok (Inl SR, Inl RM, Inl MR), v) \<and>
        single_use_services SR MR (rm_repository RM) world_ok live_session member_repo
          stored_conversation stored_route)
    else
      (case connects lib (server_url env) v of
         (None, v1) \<Rightarrow> create_domain_components env lib js porder pick v = (Panic, v1)
       | (Some Rm, v1) \<Rightarrow>
           (case connects lib (server_url env) v1 of
              (None, v2) \<Rightarrow> create_domain_components env lib js porder pick v = (Panic, v2)
            | (Some Rr, v2) \<Rightarrow>
                (case connects lib (server_url env) v2 of
                   (None, v3) \<Rightarrow> create_domain_components env lib js porder pick v = (Panic, v3)
                 | (Some Rs, v3) \<Rightarrow>
                     (\<exists>SR RM MR. create_domain_components env lib js porder pick v =
                          (Ok (Inr SR, Inr RM, Inr MR), v3) \<and>
                        SR = redis_session_repository Rs js \<and> MR = redis_member_repository Rm js \<and>
                        rm_repository RM = redis_route_repository Rr js \<and>
                        services SR MR (rm_repository RM) (\<lambda>w. redis_inv js (ks w))
                          (\<lambda>w. redis_live js (ks w)) (\<lambda>w. redis_member js (ks w))
                          (\<lambda>w. redis_conversation js (ks w)) (\<lambda>w. redis_route js (ks w))))))"
proof (cases "redis_asked env")
  case False
  then show ?thesis
    using mem_services.single_use_services_axioms
    by (simp add: repository_type_asked domain_components_in_memory)
next
  case True
  have works: "connects lib (server_url env) u = (Some R, u') \<Longrightarrow> redis_works R ks" for u R u'
    using connects_Some [of lib "server_url env" u R u'] assms(1) unfolding server_works_def by blast
  have "repository_type_from_env env = Redis" using True by (simp add: repository_type_asked)
  note run = domain_components_redis [OF this, of lib js porder pick v]
  show ?thesis
    using True redis_services [OF works works works assms(2)]
    by (simp add: run split: prod.split option.split)
qed

end
