(* ===== verification/Process_Set_Up.thy ===== *)
theory Process_Set_Up
  imports Gateway
begin

section \<open>Process set-up: logging, tracing and the server\<close>

text \<open>
  What the three processes do before and around their own work: \<^verbatim>\<open>settings/logging.rs\<close> and
  \<^verbatim>\<open>tracing.rs\<close> of the crate \<^verbatim>\<open>crosscutting\<close>, and the \<^verbatim>\<open>start_server_handler\<close> functions of the three
  \<^verbatim>\<open>services/mod.rs\<close>.  The crates \<^verbatim>\<open>fern\<close>, \<^verbatim>\<open>log\<close>, \<^verbatim>\<open>humantime\<close> and \<^verbatim>\<open>tonic\<close> are arguments, over a state
  \<open>'v\<close> of the machine the process runs on.
\<close>

subsection \<open>Paths\<close>

text \<open>
  \<^verbatim>\<open>Path::components\<close> on Unix: a root, and the names between the slashes; empty names are dropped, and
  so is a dot that is not the first component of a relative path.
\<close>

fun path_names :: "string \<Rightarrow> string list" where
  "path_names [] = [[]]"
| "path_names (c # p) =
     (if c = CHR ''/'' then [] # path_names p
      else (c # hd (path_names p)) # tl (path_names p))"

definition path_components :: "string \<Rightarrow> string list" where
  "path_components p =
     (if starts_with ''/'' p then [''/''] else if hd (path_names p) = ''.'' then [''.''] else [])
     @ filter (\<lambda>name. name \<noteq> [] \<and> name \<noteq> ''.'') (path_names p)"

definition path_ends_with :: "string \<Rightarrow> string \<Rightarrow> bool" where
  "path_ends_with p child \<longleftrightarrow>
     (let n = length (path_components p); m = length (path_components child)
      in m \<le> n \<and> drop (n - m) (path_components p) = path_components child)"

lemma path_names_nonempty [simp]: "path_names p \<noteq> []"
  by (cases p) auto

lemma path_names_append_slash:
  "path_names (p @ CHR ''/'' # q) = path_names p @ path_names q"
  by (induction p) (simp_all add: hd_append)

lemma path_names_plain: "CHR ''/'' \<notin> set p \<Longrightarrow> path_names p = [p]"
  by (induction p) auto

subsection \<open>Logging\<close>

definition LOG_DIR :: string where "LOG_DIR = ''logs''"
definition LOG_LEVEL_KEY :: string where "LOG_LEVEL_KEY = ''LOG_LEVEL''"
definition DEFAULT_LOG_LEVEL :: string where "DEFAULT_LOG_LEVEL = ''debug''"

definition get_default_log_file_name :: "bytes option \<Rightarrow> string \<Rightarrow> string" where
  "get_default_log_file_name os_name component_type =
     get_hostname os_name @ ''-'' @ component_type @ ''.log''"

text \<open>\<^verbatim>\<open>to_str().unwrap()\<close> panics on a directory that is not UTF-8.\<close>

definition get_logs_path :: "environment \<Rightarrow> (string, string) outcome" where
  "get_logs_path env =
     (case get_logs_dir env of
        Ok base_path \<Rightarrow>
          if \<not> valid_utf8 (as_bytes base_path) then Panic
          else if \<not> path_ends_with base_path LOG_DIR then Ok (path_join base_path LOG_DIR)
          else Ok base_path
      | Err e \<Rightarrow> Err e
      | Panic \<Rightarrow> Panic)"

record ('v, 'l, 'f) logging_crates =
  lo_exists :: "string \<Rightarrow> 'v \<Rightarrow> bool"
  lo_create_dir_all :: "string \<Rightarrow> ('v, unit, string) prog"
  lo_level_from_str :: "string \<Rightarrow> 'l option"
  lo_debug_level :: 'l
  lo_log_file :: "string \<Rightarrow> ('v, 'f, string) prog"
  lo_apply :: "(string \<Rightarrow> string \<Rightarrow> string \<Rightarrow> string \<Rightarrow> string) \<Rightarrow> 'l \<Rightarrow> 'f \<Rightarrow> ('v, unit, string) prog"

text \<open>The format of a record: time, level, target and message.\<close>

definition log_record :: "string \<Rightarrow> string \<Rightarrow> string \<Rightarrow> string \<Rightarrow> string" where
  "log_record time level target message =
     ''['' @ time @ '' '' @ level @ '' '' @ target @ ''] '' @ message"

definition setup_logger ::
  "('v, 'l, 'f) logging_crates \<Rightarrow> environment \<Rightarrow> string \<Rightarrow> ('v, unit, string) prog" where
  "setup_logger lo env file_name =
     and_then (lift_outcome (get_logs_path env)) (\<lambda>log_dir.
     and_then (reads (lo_exists lo log_dir)) (\<lambda>exists.
     and_then (if \<not> exists then lo_create_dir_all lo log_dir else ret ()) (\<lambda>_.
     let file_name = path_join log_dir file_name;
         level_name = (case get_env_variable env LOG_LEVEL_KEY of
           Ok v \<Rightarrow> v | _ \<Rightarrow> DEFAULT_LOG_LEVEL);
         log_level = (case lo_level_from_str lo level_name of
           Some l \<Rightarrow> l | None \<Rightarrow> lo_debug_level lo)
     in and_then (lo_log_file lo file_name) (\<lambda>file.
        lo_apply lo log_record log_level file))))"

text \<open>
  The log directory is called \<^verbatim>\<open>logs\<close>: the configured directory when its last component has that
  name, else a directory of that name inside it.
\<close>

theorem log_directory_is_logs:
  assumes "get_logs_path env = Ok dir"
  shows "path_ends_with dir LOG_DIR"
proof -
  have logs: "path_components LOG_DIR = [''logs'']"
    by (simp add: path_components_def LOG_DIR_def starts_with_def)
  have joined: "path_ends_with (path_join base LOG_DIR) LOG_DIR" for base
  proof -
    obtain p where p: "path_join base LOG_DIR = LOG_DIR \<or> path_join base LOG_DIR = p @ CHR ''/'' # LOG_DIR"
      by (metis append.assoc append_Cons append_Nil append_butlast_last_id path_join_def)
    have "path_names LOG_DIR = [LOG_DIR]" by (rule path_names_plain) (simp add: LOG_DIR_def)
    then have "\<exists>cs. path_components (p @ CHR ''/'' # LOG_DIR) = cs @ [LOG_DIR]"
      by (simp add: path_components_def path_names_append_slash)
         (simp add: LOG_DIR_def)
    then have "path_ends_with (p @ CHR ''/'' # LOG_DIR) LOG_DIR"
      by (auto simp: path_ends_with_def logs [unfolded LOG_DIR_def] LOG_DIR_def)
    moreover have "path_ends_with LOG_DIR LOG_DIR" by (simp add: path_ends_with_def)
    ultimately show ?thesis using p by metis
  qed
  show ?thesis
    using assms joined by (auto simp: get_logs_path_def split: outcome.splits if_splits)
qed

subsection \<open>Tracing\<close>

text \<open>
  A \<^verbatim>\<open>tower::Service\<close>: \<open>None\<close> is \<^verbatim>\<open>Poll::Pending\<close>.  The layer writes the URI of a call to the log and
  passes the call on.
\<close>

record ('w, 'req, 'resp, 'e) tower_service =
  sv_poll_ready :: "'w \<Rightarrow> (unit, 'e) outcome option \<times> 'w"
  sv_call :: "'req \<Rightarrow> ('w, 'resp, 'e) prog"

definition uri_tracing_layer ::
  "('req \<Rightarrow> string) \<Rightarrow> (string \<Rightarrow> 'w \<Rightarrow> 'w) \<Rightarrow> ('w, 'req, 'resp, 'e) tower_service \<Rightarrow>
     ('w, 'req, 'resp, 'e) tower_service" where
  "uri_tracing_layer uri_of debug inner =
     \<lparr>sv_poll_ready = sv_poll_ready inner,
      sv_call = (\<lambda>req w. sv_call inner req (debug (''gRPC call to URI: '' @ uri_of req) w))\<rparr>"

subsection \<open>The server\<close>

datatype grpc_service = Auth_Service | Route_Service | Info_Service | Proxy_Service | Landing_Service

text \<open>
  \<^verbatim>\<open>Server::builder()\<close>: checking a TLS configuration, and serving services, each under the tracing
  layer, on an address until the server fails.
\<close>

record ('v, 'i) server_crate =
  sc_identity_from_pem :: "bytes \<Rightarrow> bytes \<Rightarrow> 'i"
  sc_tls_config :: "'i \<Rightarrow> ('v, unit, string) prog"
  sc_serve :: "grpc_service list \<Rightarrow> socket_addr \<Rightarrow> ('v, unit, string) prog"

text \<open>The common part of the three servers.\<close>

definition serve_with_tls ::
  "('v, 'i) server_crate \<Rightarrow> environment \<Rightarrow> grpc_service list \<Rightarrow> socket_addr \<Rightarrow> ('v, unit, string) prog" where
  "serve_with_tls sc env services socket_address =
     and_then (unwrap_result (lift_outcome
       (load_tls_identity env (sc_identity_from_pem sc) ''server.crt'' ''server.key'')
         :: ('v, 'i, string) prog)) (\<lambda>identity.
     and_then (unwrap_result (sc_tls_config sc identity)) (\<lambda>_.
     sc_serve sc services socket_address))"

text \<open>A task drops the error of its server, which goes to the log at most.\<close>

definition drop_error :: "('v, unit, string) prog \<Rightarrow> ('v, unit, string) prog" where
  "drop_error p = and_then (result_ok p) (\<lambda>_. ret ())"

definition controller_server_task ::
  "('v, 'i) server_crate \<Rightarrow> environment \<Rightarrow> (string \<rightharpoonup> socket_addr) \<Rightarrow> component_descriptor \<Rightarrow>
     ('v, unit, string) prog" where
  "controller_server_task sc env parse_addr descriptor =
     (case descriptor of
        ControllerDescriptor _ cs _ \<Rightarrow>
          and_then (unwrap_or_panic (get_local_socket_address parse_addr cs)) (\<lambda>socket_address.
          drop_error (serve_with_tls sc env [Auth_Service, Route_Service, Info_Service] socket_address))
      | _ \<Rightarrow> ret ())"

definition proxy_server_task ::
  "('v, 'i) server_crate \<Rightarrow> environment \<Rightarrow> socket_addr \<Rightarrow> ('v, unit, string) prog" where
  "proxy_server_task sc env socket_address =
     drop_error (serve_with_tls sc env [Proxy_Service] socket_address)"

definition client_server_task ::
  "('v, 'i) server_crate \<Rightarrow> environment \<Rightarrow> socket_addr \<Rightarrow> ('v, unit, string) prog" where
  "client_server_task sc env socket_address =
     drop_error (serve_with_tls sc env [Landing_Service] socket_address)"

text \<open>Without a readable identity nothing is ever served.\<close>

lemma serve_without_identity:
  assumes "\<And>identity. load_tls_identity env (sc_identity_from_pem sc) ''server.crt'' ''server.key'' \<noteq> Ok identity"
  shows "serve_with_tls sc env services addr v = (Panic, v)"
  using assms [of "case load_tls_identity env (sc_identity_from_pem sc) ''server.crt'' ''server.key'' of Ok i \<Rightarrow> i"]
  by (cases "load_tls_identity env (sc_identity_from_pem sc) ''server.crt'' ''server.key''")
     (simp_all add: serve_with_tls_def unwrap_result_def lift_outcome_def and_then_def)

lemma drop_error_run:
  "drop_error p v = (case p v of (Panic, v') \<Rightarrow> (Panic, v') | (_, v') \<Rightarrow> (Ok (), v'))"
  by (auto simp: drop_error_def result_ok_def and_then_def ret_def split: prod.splits outcome.splits)

end
