(* ===== verification/Processes.thy ===== *)
theory Processes
  imports Domain_Components Process_Set_Up Client_Node
begin

section \<open>The three processes\<close>

text \<open>
  The \<^verbatim>\<open>main\<close> functions of the controller, the proxy and the client, and the command task of the
  client.  A process is a state and the list of its \<open>action\<close>s on tasks: what it spawns, the signal it
  waits for, what it then cancels, aborts and awaits.  What the tasks do is modelled where their code
  is: the sweeps in \<open>InMemory\<close>, the registration in \<open>Controller\<close>, the servers in \<open>Process_Set_Up\<close>, the
  authentication loop in \<open>Gateway\<close>.
\<close>

subsection \<open>Processes and their tasks\<close>

datatype task =
    Route_Sweep | Session_Sweep | Self_Registration | Server | Auth_Handler
  | Listener | Input_Thread | Command_Handler

datatype action = Spawn task | Wait_Ctrl_C | Cancel | Abort task | Await task

record 'v process =
  pr_state :: 'v
  pr_actions :: "action list"

definition act :: "action \<Rightarrow> ('v process, unit, string) prog" where
  "act a p = (Ok (), p\<lparr>pr_actions := pr_actions p @ [a]\<rparr>)"

fun acts :: "action list \<Rightarrow> ('v process, unit, string) prog" where
  "acts [] = ret ()"
| "acts (a # as) = and_then (act a) (\<lambda>_. acts as)"

definition in_state ::
  "('v \<Rightarrow> 's) \<Rightarrow> ('s \<Rightarrow> 'v \<Rightarrow> 'v) \<Rightarrow> ('s, 'a, 'e) prog \<Rightarrow> ('v process, 'a, 'e) prog" where
  "in_state get put = zoom (\<lambda>p. get (pr_state p)) (\<lambda>s p. p\<lparr>pr_state := put s (pr_state p)\<rparr>)"

lemma acts_run [simp]: "acts as p = (Ok (), p\<lparr>pr_actions := pr_actions p @ as\<rparr>)"
  by (induction as arbitrary: p) (simp_all add: act_def prog_simps)

subsection \<open>The controller\<close>

text \<open>The machine, the tables of the in-memory repositories and the Redis server.\<close>

record ('o, 'w) controller_state =
  ct_machine :: 'o
  ct_tables :: world
  ct_server :: 'w

abbreviation on_machine ::
  "('o, 'a, 'e) prog \<Rightarrow> (('o, 'w) controller_state process, 'a, 'e) prog" where
  "on_machine \<equiv> in_state ct_machine (\<lambda>m s. s\<lparr>ct_machine := m\<rparr>)"

abbreviation on_tables ::
  "(world, 'a, 'e) prog \<Rightarrow> (('o, 'w) controller_state process, 'a, 'e) prog" where
  "on_tables \<equiv> in_state ct_tables (\<lambda>t s. s\<lparr>ct_tables := t\<rparr>)"

abbreviation on_server ::
  "('w, 'a, 'e) prog \<Rightarrow> (('o, 'w) controller_state process, 'a, 'e) prog" where
  "on_server \<equiv> in_state ct_server (\<lambda>r s. s\<lparr>ct_server := r\<rparr>)"

text \<open>The constructors of the in-memory repositories spawn their sweeps, the route repository first.\<close>

definition repository_tasks :: "'a + 'b \<Rightarrow> 'c + 'd \<Rightarrow> task list" where
  "repository_tasks route_manager session_manager =
     (case route_manager of Inl _ \<Rightarrow> [Route_Sweep] | Inr _ \<Rightarrow> [])
     @ (case session_manager of Inl _ \<Rightarrow> [Session_Sweep] | Inr _ \<Rightarrow> [])"

definition initialize_process ::
  "environment \<Rightarrow> (bytes \<Rightarrow> string list option list) \<Rightarrow> 'w member_box \<Rightarrow>
     (('o, 'w) controller_state process, unit, string) prog" where
  "initialize_process env csv_records member_manager =
     and_then (map_err (\<lambda>_. ''Initialization failed'')
       (case member_manager of
          Inl MR \<Rightarrow> on_tables (controller_initialize MR env csv_records)
        | Inr MR \<Rightarrow> on_server (controller_initialize MR env csv_records))) (\<lambda>_.
     act (Spawn Self_Registration))"

definition controller_main ::
  "('o, 'l, 'f) logging_crates \<Rightarrow> bytes option \<Rightarrow> environment \<Rightarrow> ('o, 'c, 'w, 'r) redis_crate \<Rightarrow> codec \<Rightarrow>
     proxy_order \<Rightarrow> (nat list \<Rightarrow> nat option) \<Rightarrow> (bytes \<Rightarrow> string list option list) \<Rightarrow>
     (('o, 'w) controller_state process, unit, string) prog" where
  "controller_main lo os_name env lib js porder pick csv_records =
     and_then (on_machine (setup_logger lo env (get_default_log_file_name os_name ''controller''))) (\<lambda>_.
     and_then (lift_outcome (load_descriptor env Controller)) (\<lambda>descriptor.
     and_then (on_machine (create_domain_components env lib js porder pick))
       (\<lambda>(session_manager, route_manager, member_manager).
     and_then (acts (map Spawn (repository_tasks route_manager session_manager))) (\<lambda>_.
     and_then (initialize_process env csv_records member_manager) (\<lambda>_.
     and_then (act (Spawn Server)) (\<lambda>_.
     acts [Wait_Ctrl_C, Cancel, Abort Server, Await Server]))))))"

subsection \<open>The proxy\<close>

text \<open>The machine, and the node with its session cell, authentication client and network.\<close>

record ('o, 'chan, 'net) node_state =
  ns_machine :: 'o
  ns_node :: "('chan, 'net) node"

abbreviation in_machine ::
  "('o, 'a, 'e) prog \<Rightarrow> (('o, 'chan, 'net) node_state process, 'a, 'e) prog" where
  "in_machine \<equiv> in_state ns_machine (\<lambda>m s. s\<lparr>ns_machine := m\<rparr>)"

abbreviation in_node ::
  "(('chan, 'net) node, 'a, 'e) prog \<Rightarrow> (('o, 'chan, 'net) node_state process, 'a, 'e) prog" where
  "in_node \<equiv> in_state ns_node (\<lambda>n s. s\<lparr>ns_node := n\<rparr>)"

definition create_authenticator ::
  "component_descriptor \<Rightarrow> (('chan, 'net) node, unit, string) prog" where
  "create_authenticator descriptor =
     total (\<lambda>w. ((), w\<lparr>nd_cells := [default_client_session],
                      nd_auth := new_auth_client 0 descriptor\<rparr>))"

definition proxy_main ::
  "('o, 'l, 'f) logging_crates \<Rightarrow> bytes option \<Rightarrow> environment \<Rightarrow> (string \<rightharpoonup> socket_addr) \<Rightarrow>
     ('uri, 'chan, 'net) transport \<Rightarrow> (('o, 'chan, 'net) node_state process, unit, string) prog" where
  "proxy_main lo os_name env parse_addr tp =
     and_then (in_machine (setup_logger lo env (get_default_log_file_name os_name ''proxy''))) (\<lambda>_.
     and_then (lift_outcome (load_descriptor env Proxy)) (\<lambda>descriptor.
     and_then (in_node (create_authenticator descriptor)) (\<lambda>_.
     and_then (in_node (auth_initialize tp env)) (\<lambda>_.
     and_then (act (Spawn Auth_Handler)) (\<lambda>_.
     and_then (unwrap_or_panic (get_local_socket_address parse_addr
       (descriptor_connection_settings descriptor))) (\<lambda>socket_address.
     and_then (act (Spawn Server)) (\<lambda>_.
     acts [Wait_Ctrl_C, Cancel, Abort Server, Await Auth_Handler, Await Server])))))))"

subsection \<open>The client\<close>

definition client_main ::
  "('o, 'l, 'f) logging_crates \<Rightarrow> bytes option \<Rightarrow> environment \<Rightarrow> (string \<rightharpoonup> socket_addr) \<Rightarrow>
     ('uri, 'chan, 'net) transport \<Rightarrow> (('o, 'chan, 'net) node_state process, unit, string) prog" where
  "client_main lo os_name env parse_addr tp =
     and_then (in_machine (setup_logger lo env (get_default_log_file_name os_name ''client''))) (\<lambda>_.
     and_then (lift_outcome (load_descriptor env Client)) (\<lambda>descriptor.
     and_then (unwrap_or_panic (get_local_socket_address parse_addr
       (descriptor_connection_settings descriptor))) (\<lambda>socket_address.
     and_then (act (Spawn Listener)) (\<lambda>_.
     and_then (act (Spawn Server)) (\<lambda>_.
     and_then (in_node (create_authenticator descriptor)) (\<lambda>_.
     and_then (in_node (auth_initialize tp env)) (\<lambda>_.
     and_then (act (Spawn Auth_Handler)) (\<lambda>_.
     and_then (act (Spawn Input_Thread)) (\<lambda>_.
     and_then (act (Spawn Command_Handler)) (\<lambda>_.
     acts [Wait_Ctrl_C, Cancel, Abort Server, Await Auth_Handler, Await Server,
           Await Command_Handler]))))))))))"

text \<open>
  The command task: \<open>receive\<close> is \<^verbatim>\<open>recv_timeout\<close>, \<open>None\<close> when half a second went by without a line or
  the input thread is gone.  \<open>None\<close> as the result is a run that is not over after \<open>fuel\<close> rounds.
\<close>

fun command_task ::
  "(string \<Rightarrow> ('uri, 'r, 'p, 'w) commander) \<Rightarrow> ('w \<Rightarrow> client_session) \<Rightarrow> 'w runtime \<Rightarrow>
     ('w \<Rightarrow> string option \<times> 'w) \<Rightarrow> nat \<Rightarrow> 'w \<Rightarrow> ((unit, string) outcome \<times> 'w) option" where
  "command_task mk session rn receive 0 w = None"
| "command_task mk session rn receive (Suc fuel) w =
     (if rn_cancelled rn w then Some (Ok (), w)
      else
        case receive w of
          (None, w1) \<Rightarrow> command_task mk session rn receive fuel w1
        | (Some input, w1) \<Rightarrow>
            (case handle_input mk session input w1 of
               (Ok (Handled _), w2) \<Rightarrow> command_task mk session rn receive fuel w2
             | (Ok Stopped, w2) \<Rightarrow> Some (Ok (), w2)
             | (Err e, w2) \<Rightarrow> Some (Err e, w2)
             | (Panic, w2) \<Rightarrow> Some (Panic, w2)))"

subsection \<open>Start-up and shutdown\<close>

lemmas main_run = act_def in_state_def zoom_def lift_outcome_def and_then_def ret_def
  unwrap_or_panic_def panic_def

text \<open>The sweeps a controller runs.\<close>

definition sweep_tasks :: "environment \<Rightarrow> task list" where
  "sweep_tasks env =
     (if repository_type_from_env env = InMemory then [Route_Sweep, Session_Sweep] else [])"

text \<open>
  An orderly process spawns its tasks in order.  When it ends well it has spawned all of them, waited
  for the signal, cancelled, aborted the server and awaited the tasks it awaits; else it has spawned
  some of them and never got to wait.
\<close>

definition orderly ::
  "task list \<Rightarrow> task list \<Rightarrow> (unit, string) outcome \<times> 'v process \<Rightarrow> 'v process \<Rightarrow> bool" where
  "orderly spawned awaited result p =
     (case result of
        (Ok _, p') \<Rightarrow> pr_actions p' = pr_actions p @ map Spawn spawned
          @ [Wait_Ctrl_C, Cancel, Abort Server] @ map Await awaited
      | (_, p') \<Rightarrow> \<exists>n. pr_actions p' = pr_actions p @ map Spawn (take n spawned))"

text \<open>Steps that spawn nothing, and steps that spawn.\<close>

definition quiet :: "('v process, 'a, 'e) prog \<Rightarrow> bool" where
  "quiet q \<longleftrightarrow> (\<forall>p. pr_actions (snd (q p)) = pr_actions p)"

lemma quiet_steps [simp]:
  "quiet (in_state get put q)" "quiet (lift_outcome r)" "quiet (unwrap_or_panic x)"
  by (simp_all add: quiet_def main_run split: prod.splits option.splits)

lemma orderly_cong:
  "pr_actions p = pr_actions q \<Longrightarrow> orderly ts us x p = orderly ts us x q"
  by (cases x, cases "fst x") (simp_all add: orderly_def)

lemma orderly_failed: "pr_actions p' = pr_actions p \<Longrightarrow> r \<noteq> Ok x \<Longrightarrow> orderly ts us (r, p') p"
  by (cases r) (auto simp: orderly_def intro: exI [of _ 0])

lemma orderly_quiet:
  assumes "quiet q" and "\<And>x p'. q p = (Ok x, p') \<Longrightarrow> orderly ts us (k x p') p'"
  shows "orderly ts us (and_then q k p) p"
proof -
  obtain r p' where q: "q p = (r, p')" by fastforce
  with assms(1) have same: "pr_actions p' = pr_actions p" unfolding quiet_def by (metis snd_conv)
  show ?thesis
  proof (cases r)
    case (Ok x)
    with q assms(2) [of x p'] show ?thesis by (simp add: orderly_cong [OF same])
  qed (use q same in \<open>simp_all add: orderly_failed\<close>)
qed

lemma orderly_spawn:
  assumes "\<And>p. orderly ts us (k () p) p"
  shows "orderly (t # ts) us (and_then (act (Spawn t)) k p) p"
proof -
  let ?p = "p\<lparr>pr_actions := pr_actions p @ [Spawn t]\<rparr>"
  obtain r p' where k: "k () ?p = (r, p')" by fastforce
  have "and_then (act (Spawn t)) k p = (r, p')" by (simp add: and_then_def act_def k)
  moreover have "orderly ts us (r, p') ?p" using assms [of ?p] k by simp
  ultimately show ?thesis
    by (cases r) (auto simp: orderly_def intro: exI [of _ "Suc n" for n])
qed

lemma orderly_end:
  "orderly [] [Server] (acts [Wait_Ctrl_C, Cancel, Abort Server, Await Server] p) p"
  "orderly [] [Auth_Handler, Server]
     (acts [Wait_Ctrl_C, Cancel, Abort Server, Await Auth_Handler, Await Server] p) p"
  "orderly [] [Auth_Handler, Server, Command_Handler]
     (acts [Wait_Ctrl_C, Cancel, Abort Server, Await Auth_Handler, Await Server,
            Await Command_Handler] p) p"
  unfolding acts_run by (simp_all add: orderly_def)

lemma domain_components_tasks:
  assumes run: "on_machine (create_domain_components env lib js porder pick) p = (Ok x, p')"
  shows "case x of (session_manager, route_manager, member_manager) \<Rightarrow>
    repository_tasks route_manager session_manager = sweep_tasks env"
proof -
  obtain y v where y: "create_domain_components env lib js porder pick (ct_machine (pr_state p)) = (Ok y, v)"
    and x: "x = y"
    using run by (cases "create_domain_components env lib js porder pick (ct_machine (pr_state p))")
       (auto simp: main_run)
  show ?thesis
  proof (cases "repository_type_from_env env")
    case InMemory
    then show ?thesis
      using y x by (auto simp: domain_components_in_memory repository_tasks_def sweep_tasks_def)
  next
    case Redis
    with y x show ?thesis
      by (auto simp: domain_components_redis repository_tasks_def sweep_tasks_def
          split: prod.splits option.splits)
  qed
qed

lemma orderly_spawns:
  assumes "\<And>p. orderly ts us (k () p) p"
  shows "orderly (new @ ts) us (and_then (acts (map Spawn new)) k p) p"
proof (induction new arbitrary: p)
  case Nil
  then show ?case using assms by simp
next
  case (Cons t new)
  have "orderly (t # new @ ts) us
      (and_then (act (Spawn t)) (\<lambda>_. and_then (acts (map Spawn new)) k) p) p"
    by (rule orderly_spawn) (rule Cons.IH)
  then show ?case by (simp add: and_then_assoc)
qed

lemma map_err_quiet [simp]: "quiet q \<Longrightarrow> quiet (map_err f q)"
  by (auto simp: quiet_def map_err_def split: prod.splits outcome.splits) (metis snd_conv)+

lemma controller_main_orderly:
  fixes p :: "('o, 'w) controller_state process"
  shows "orderly (sweep_tasks env @ [Self_Registration, Server]) [Server]
     (controller_main lo os_name env lib js porder pick csv_records p) p"
  unfolding controller_main_def
proof (intro orderly_quiet quiet_steps)
  fix d x and p1 p2 p3 :: "('o, 'w) controller_state process"
  assume "on_machine (create_domain_components env lib js porder pick) p2 = (Ok x, p3)"
  note tasks = domain_components_tasks [OF this]
  obtain SR RM and MR :: "'w member_box" where x: "x = (SR, RM, MR)" by (cases x)
  have "quiet (case MR of Inl MR \<Rightarrow> on_tables (controller_initialize MR env csv_records)
      | Inr MR \<Rightarrow> on_server (controller_initialize MR env csv_records))"
    by (cases MR) simp_all
  then have members: "quiet (map_err (\<lambda>_. ''Initialization failed'')
      (case MR of Inl MR \<Rightarrow> on_tables (controller_initialize MR env csv_records)
       | Inr MR \<Rightarrow> on_server (controller_initialize MR env csv_records)))"
    by (rule map_err_quiet)
  have "orderly (repository_tasks RM SR @ [Self_Registration, Server]) [Server]
      (and_then (acts (map Spawn (repository_tasks RM SR))) (\<lambda>_.
       and_then (initialize_process env csv_records MR) (\<lambda>_.
       and_then (act (Spawn Server)) (\<lambda>_.
       acts [Wait_Ctrl_C, Cancel, Abort Server, Await Server]))) p3) p3"
    unfolding initialize_process_def and_then_assoc
    by (rule orderly_spawns, rule orderly_quiet [OF members], intro orderly_spawn orderly_end)
  then show "orderly (sweep_tasks env @ [Self_Registration, Server]) [Server]
      ((case x of (session_manager, route_manager, member_manager) \<Rightarrow>
       and_then (acts (map Spawn (repository_tasks route_manager session_manager))) (\<lambda>_.
       and_then (initialize_process env csv_records member_manager) (\<lambda>_.
       and_then (act (Spawn Server)) (\<lambda>_.
       acts [Wait_Ctrl_C, Cancel, Abort Server, Await Server])))) p3) p3"
    using tasks x by simp
qed

lemma node_main_orderly:
  "orderly [Auth_Handler, Server] [Auth_Handler, Server] (proxy_main lo os_name env parse_addr tp q) q"
  "orderly [Listener, Server, Auth_Handler, Input_Thread, Command_Handler]
     [Auth_Handler, Server, Command_Handler] (client_main lo os_name env parse_addr tp q) q"
  unfolding proxy_main_def client_main_def
  by (intro orderly_quiet orderly_spawn quiet_steps orderly_end)+

end
