(* ===== verification/Process_Properties.thy ===== *)
theory Process_Properties
  imports Processes Controller_Properties
begin

section \<open>What the start-up of the processes establishes\<close>

text \<open>
  A controller whose start-up succeeds holds the tables the runs of \<open>Controller_Runs\<close> begin with; a
  server that cannot start is noticed by nobody; the command task of the client ends.
\<close>

subsection \<open>The controller\<close>

text \<open>The members the start-up seeds, \<open>None\<close> when it panics.\<close>

definition members_to_seed ::
  "environment \<Rightarrow> (bytes \<Rightarrow> string list option list) \<Rightarrow> member list option" where
  "members_to_seed env csv_records =
     (case get_env_variable env ''MEMBERS_CSV_FILE'' of
        Ok path \<Rightarrow> read_members_from_csv env csv_records path
      | _ \<Rightarrow> None)"

lemma controller_initialize_run:
  "controller_initialize inmemory_member_repository env csv w =
     (case members_to_seed env csv of
        None \<Rightarrow> (Panic, w)
      | Some ms \<Rightarrow>
          (Ok (), w\<lparr>member_repo := member_repo w ++ map_of (rev (map (\<lambda>m. (mb_uid m, m)) ms))\<rparr>))"
  by (simp add: controller_initialize_def members_to_seed_def mm_seed_members_from_csv_def
      mm_set_members_run unwrap_or_panic_def prog_simps split: outcome.splits option.splits)

lemma seeded_run:
  "controller_initialize inmemory_member_repository env csv new_world = ((Ok (), w) :: (unit, 'e) outcome \<times> world)
   \<Longrightarrow> seeded env csv w"
  by (auto simp: seeded_def controller_initialize_run split: option.splits)

lemma controller_main_in_memory:
  fixes p :: "('o, 'w) controller_state process" and lib :: "('o, 'c, 'w, 'r) redis_crate"
  assumes "repository_type_from_env env = InMemory"
    and "setup_logger lo env (get_default_log_file_name os_name ''controller'') (ct_machine (pr_state p)) = (Ok (), m)"
    and "load_descriptor env Controller = Ok d"
  shows "controller_main lo os_name env lib js porder pick csv p =
    (let p1 = p\<lparr>pr_state := (pr_state p)\<lparr>ct_machine := m\<rparr>,
                pr_actions := pr_actions p @ [Spawn Route_Sweep, Spawn Session_Sweep]\<rparr>
     in case members_to_seed env csv of
          None \<Rightarrow> (Panic, p1)
        | Some ms \<Rightarrow>
            (Ok (), p1\<lparr>pr_state := (pr_state p1)\<lparr>ct_tables := (ct_tables (pr_state p))
                \<lparr>member_repo := member_repo (ct_tables (pr_state p)) ++ map_of (rev (map (\<lambda>m. (mb_uid m, m)) ms))\<rparr>\<rparr>,
              pr_actions := pr_actions p1 @ [Spawn Self_Registration, Spawn Server, Wait_Ctrl_C, Cancel,
                Abort Server, Await Server]\<rparr>))"
  by (simp add: controller_main_def initialize_process_def repository_tasks_def map_err_def assms
      domain_components_in_memory controller_initialize_run main_run Let_def split: option.splits)

text \<open>
  C17. A controller on in-memory storage starts when the logger can be set up, the descriptor can be
  loaded and the member file holds a user and a password in every record, and only then; the tables it
  then works on are those of a seeded controller, from which all reachable states come.
\<close>

theorem controller_start_up:
  fixes p :: "('o, 'w) controller_state process"
  assumes "repository_type_from_env env = InMemory" and "ct_tables (pr_state p) = new_world"
    and "controller_main lo os_name env lib js porder pick csv p = (r, p')"
  shows "(r = Ok () \<longleftrightarrow>
      (\<exists>m. setup_logger lo env (get_default_log_file_name os_name ''controller'') (ct_machine (pr_state p)) = (Ok (), m))
      \<and> (\<exists>d. load_descriptor env Controller = Ok d) \<and> members_to_seed env csv \<noteq> None)
    \<and> (r = Ok () \<longrightarrow> seeded env csv (ct_tables (pr_state p')))"
proof -
  let ?log = "setup_logger lo env (get_default_log_file_name os_name ''controller'') (ct_machine (pr_state p))"
  obtain l m where log: "?log = (l, m)" by fastforce
  show ?thesis
  proof (cases "l = Ok () \<and> (\<exists>d. load_descriptor env Controller = Ok d)")
    case True
    then obtain d where d: "load_descriptor env Controller = Ok d" by blast
    from True log have "?log = (Ok (), m)" by simp
    note run = controller_main_in_memory [OF assms(1) this d, of lib js porder pick csv]
    show ?thesis
    proof (cases "members_to_seed env csv")
      case None
      with run assms(3) True log show ?thesis by (simp add: Let_def)
    next
      case (Some ms)
      then have "seeded env csv (new_world\<lparr>member_repo := member_repo new_world
          ++ map_of (rev (map (\<lambda>m. (mb_uid m, m)) ms))\<rparr>)"
        by (simp add: seeded_def controller_initialize_run)
      with Some run assms(2,3) True log show ?thesis by (auto simp: Let_def)
    qed
  next
    case False
    then have "r \<noteq> Ok ()"
      using assms(3) log
      by (cases l; cases "load_descriptor env Controller") (auto simp: controller_main_def main_run)
    with False log show ?thesis by auto
  qed
qed

text \<open>
  C35. A server that cannot start is noticed by nobody: without a readable certificate and key the
  server task panics before it serves anything, whatever the server crate, and the controller goes
  on to wait for the signal and ends well.
\<close>

theorem server_failure_unnoticed:
  fixes p :: "('o, 'w) controller_state process" and sc :: "('v, 'i) server_crate"
  assumes "controller_main lo os_name env lib js porder pick csv p = (Ok (), p')"
    and "\<And>identity. load_tls_identity env (sc_identity_from_pem sc) ''server.crt'' ''server.key'' \<noteq> Ok identity"
  shows "{Spawn Server, Wait_Ctrl_C} \<subseteq> set (pr_actions p')
    \<and> (\<exists>d. load_descriptor env Controller = Ok d \<and> controller_server_task sc env parse_addr d v = (Panic, v))"
proof -
  have "orderly (sweep_tasks env @ [Self_Registration, Server]) [Server] (Ok (), p') p"
    using controller_main_orderly [of env lo os_name lib js porder pick csv p] assms(1) by simp
  then have actions: "{Spawn Server, Wait_Ctrl_C} \<subseteq> set (pr_actions p')"
    by (auto simp: orderly_def)
  obtain d where d: "load_descriptor env Controller = Ok d"
    using assms(1)
    by (cases "setup_logger lo env (get_default_log_file_name os_name ''controller'') (ct_machine (pr_state p))";
        cases "fst (setup_logger lo env (get_default_log_file_name os_name ''controller'') (ct_machine (pr_state p)))";
        cases "load_descriptor env Controller")
       (simp_all add: controller_main_def main_run)
  then obtain cred cs version where "d = ControllerDescriptor cred cs version"
    by (auto simp: load_descriptor_def split: outcome.splits)
  then have "controller_server_task sc env parse_addr d v = (Panic, v)"
    using serve_without_identity [OF assms(2)]
    by (cases "get_local_socket_address parse_addr cs")
       (simp_all add: controller_server_task_def drop_error_run panic_def)
  with d actions show ?thesis by blast
qed

subsection \<open>The nodes\<close>

text \<open>A connection to the controller: what the environment, the transport and the network have to grant.\<close>

definition connected ::
  "('uri, 'chan, 'net) transport \<Rightarrow> environment \<Rightarrow> 'net \<Rightarrow> 'chan \<Rightarrow> 'net \<Rightarrow> bool" where
  "connected tp env net channel net' \<longleftrightarrow>
     (\<exists>cs uri. component_connection_settings env Controller = Ok cs \<and>
        get_public_endpoint (tp_uri_try_from tp) cs = Some uri \<and>
        tp_tls_error tp (cs_certificate cs) (cs_domain_name cs) = None \<and>
        tp_connect tp uri (cs_certificate cs) (cs_domain_name cs) net = (Ok channel, net'))"

lemma open_controller_channel_Ok:
  "open_controller_channel tp env f net = (Ok channel, net') \<longleftrightarrow> connected tp env net channel net'"
  by (cases "component_connection_settings env Controller")
     (auto simp: open_controller_channel_def connected_def open_channel_def map_err_def lift_outcome_def
       and_then_def unwrap_or_panic_def panic_def throw_def ret_def
       split: option.splits prod.splits outcome.splits)

text \<open>The authentication client of a new process, once its channel is open.\<close>

definition logged_off_node :: "component_descriptor \<Rightarrow> 'chan \<Rightarrow> 'net \<Rightarrow> ('chan, 'net) node" where
  "logged_off_node d channel net =
     \<lparr>nd_auth = (new_auth_client 0 d)\<lparr>ac_client := Some channel\<rparr>, nd_cells = [default_client_session],
      nd_net = net\<rparr>"

lemma node_rewritten:
  "n\<lparr>nd_cells := c, nd_net := m, nd_auth := a\<rparr> = \<lparr>nd_auth = a, nd_cells = c, nd_net = m\<rparr>"
  by (cases n) simp

lemma start_authenticator:
  fixes q :: "('o, 'chan, 'net) node_state process"
  shows "case and_then (in_node (create_authenticator d)) (\<lambda>_. in_node (auth_initialize tp env)) q of
      (Ok _, q1) \<Rightarrow> \<exists>channel net'. connected tp env (nd_net (ns_node (pr_state q))) channel net' \<and>
        q1 = q\<lparr>pr_state := (pr_state q)\<lparr>ns_node := logged_off_node d channel net'\<rparr>\<rparr>
    | (_, q1) \<Rightarrow> pr_actions q1 = pr_actions q \<and>
        \<not> (\<exists>channel net'. connected tp env (nd_net (ns_node (pr_state q))) channel net')"
proof -
  define f where "f = (\<lambda>e. ''Failed to connect to gRPC server: '' @ e)"
  obtain x net1 where x: "open_controller_channel tp env f (nd_net (ns_node (pr_state q))) = (x, net1)"
    by fastforce
  note run = create_authenticator_def auth_initialize_def [folded f_def] on_net_def prog_simps main_run x
  show ?thesis
  proof (cases x)
    case (Ok channel)
    have "connected tp env (nd_net (ns_node (pr_state q))) channel net1"
      by (rule open_controller_channel_Ok [THEN iffD1]) (fact x [unfolded Ok])
    with Ok show ?thesis by (auto simp: run logged_off_node_def node_rewritten)
  qed (use x open_controller_channel_Ok [of tp env f "nd_net (ns_node (pr_state q))"] in
        \<open>auto simp: run\<close>)
qed

text \<open>
  What a node process comes to: \<open>ready\<close> is all it needs beside the connection, \<open>spawned\<close> and \<open>awaited\<close>
  are its tasks.
\<close>

definition node_start ::
  "('uri, 'chan, 'net) transport \<Rightarrow> environment \<Rightarrow> component \<Rightarrow> bool \<Rightarrow> task list \<Rightarrow> task list \<Rightarrow>
     ('o, 'chan, 'net) node_state process \<Rightarrow>
     (unit, string) outcome \<times> ('o, 'chan, 'net) node_state process \<Rightarrow> bool" where
  "node_start tp env c ready spawned awaited q result \<longleftrightarrow>
     (let net = nd_net (ns_node (pr_state q)); r = fst result; q' = snd result
      in (r = Ok () \<longleftrightarrow> ready \<and> (\<exists>channel net'. connected tp env net channel net')) \<and>
         (r = Ok () \<longrightarrow> pr_actions q' = map Spawn spawned @ [Wait_Ctrl_C, Cancel, Abort Server] @ map Await awaited) \<and>
         (r \<noteq> Ok () \<longrightarrow> (\<exists>n. pr_actions q' = map Spawn (take n spawned))) \<and>
         (Spawn Auth_Handler \<in> set (pr_actions q') \<longrightarrow>
            (\<exists>d channel net'. load_descriptor env c = Ok d \<and> connected tp env net channel net' \<and>
               ns_node (pr_state q') = logged_off_node d channel net')))"

lemma start_authenticator_then:
  fixes q :: "('o, 'chan, 'net) node_state process" and tp :: "('uri, 'chan, 'net) transport" and env d
    and k :: "unit \<Rightarrow> (('o, 'chan, 'net) node_state process, unit, string) prog"
  defines "p \<equiv> and_then (in_node (create_authenticator d)) (\<lambda>_. and_then (in_node (auth_initialize tp env)) k)"
  obtains (open_channel) channel net' where "connected tp env (nd_net (ns_node (pr_state q))) channel net'"
      and "p q = k () (q\<lparr>pr_state := (pr_state q)\<lparr>ns_node := logged_off_node d channel net'\<rparr>\<rparr>)"
  | (no_channel) r q1 where "\<And>channel net'. \<not> connected tp env (nd_net (ns_node (pr_state q))) channel net'"
      and "p q = (r, q1)" and "r \<noteq> Ok ()" and "pr_actions q1 = pr_actions q"
proof -
  obtain r q1 where r: "and_then (in_node (create_authenticator d)) (\<lambda>_. in_node (auth_initialize tp env)) q = (r, q1)"
    by fastforce
  have p: "p q = (case r of Ok x \<Rightarrow> k x q1 | Err e \<Rightarrow> (Err e, q1) | Panic \<Rightarrow> (Panic, q1))"
    unfolding p_def and_then_assoc [symmetric] by (simp add: and_then_def [of "and_then _ _"] r)
  show thesis
    using start_authenticator [where d = d and tp = tp and env = env and q = q] unfolding r
    by (cases r) (auto simp: p intro: open_channel no_channel)
qed

lemma logger_and_descriptor_first:
  "and_then (in_machine log) (\<lambda>_. and_then (lift_outcome d) k) q =
     (case log (ns_machine (pr_state q)) of
        (Ok _, m) \<Rightarrow>
          (let q1 = q\<lparr>pr_state := (pr_state q)\<lparr>ns_machine := m\<rparr>\<rparr>
           in case d of Ok x \<Rightarrow> k x q1 | Err e \<Rightarrow> (Err e, q1) | Panic \<Rightarrow> (Panic, q1))
      | (Err e, m) \<Rightarrow> (Err e, q\<lparr>pr_state := (pr_state q)\<lparr>ns_machine := m\<rparr>\<rparr>)
      | (Panic, m) \<Rightarrow> (Panic, q\<lparr>pr_state := (pr_state q)\<lparr>ns_machine := m\<rparr>\<rparr>))"
  by (simp add: main_run Let_def split: prod.split outcome.split)

abbreviation node_ready where
  "node_ready lo os_name env parse_addr c name q \<equiv>
     (\<exists>m. setup_logger lo env (get_default_log_file_name os_name name) (ns_machine (pr_state q)) = (Ok (), m)) \<and>
     (\<exists>d. load_descriptor env c = Ok d \<and> get_local_socket_address parse_addr (descriptor_connection_settings d) \<noteq> None)"

lemma connection_decides:
  fixes q :: "('o, 'chan, 'net) node_state process" and tp :: "('uri, 'chan, 'net) transport" and env
  defines "reaches \<equiv> connected tp env (nd_net (ns_node (pr_state q)))"
  assumes main: "main = and_then (in_node (create_authenticator d)) (\<lambda>_. and_then (in_node (auth_initialize tp env)) k) q1"
    and q1: "ns_node (pr_state q1) = ns_node (pr_state q)" "Spawn Auth_Handler \<notin> set (pr_actions q1)"
    and k: "\<And>p. fst (k () p) = Ok () \<longleftrightarrow> rest" "\<And>p. ns_node (pr_state (snd (k () p))) = ns_node (pr_state p)"
  shows "(fst main = Ok () \<longleftrightarrow> rest \<and> (\<exists>channel net'. reaches channel net')) \<and>
    (Spawn Auth_Handler \<in> set (pr_actions (snd main)) \<longrightarrow>
       (\<exists>channel net'. reaches channel net' \<and> ns_node (pr_state (snd main)) = logged_off_node d channel net'))"
proof (rule start_authenticator_then [where tp = tp and env = env and q = q1 and d = d and k = k])
  fix channel net'
  let ?q2 = "q1\<lparr>pr_state := (pr_state q1)\<lparr>ns_node := logged_off_node d channel net'\<rparr>\<rparr>"
  assume c: "connected tp env (nd_net (ns_node (pr_state q1))) channel net'"
    and "and_then (in_node (create_authenticator d)) (\<lambda>_. and_then (in_node (auth_initialize tp env)) k) q1 = k () ?q2"
  with c main k [of ?q2] show ?thesis by (auto simp: reaches_def q1)
next
  fix r1 q2
  assume "\<And>channel net'. \<not> connected tp env (nd_net (ns_node (pr_state q1))) channel net'"
    and "and_then (in_node (create_authenticator d)) (\<lambda>_. and_then (in_node (auth_initialize tp env)) k) q1 = (r1, q2)"
    and "r1 \<noteq> Ok ()" and "pr_actions q2 = pr_actions q1"
  with main q1 show ?thesis by (simp add: reaches_def)
qed

text \<open>The two claims a node process has to meet beside orderliness.\<close>

definition start_connected ::
  "('uri, 'chan, 'net) transport \<Rightarrow> environment \<Rightarrow> component \<Rightarrow> bool \<Rightarrow> ('o, 'chan, 'net) node_state process \<Rightarrow>
     (unit, string) outcome \<times> ('o, 'chan, 'net) node_state process \<Rightarrow> bool" where
  "start_connected tp env c ready q main \<longleftrightarrow>
     (let reaches = connected tp env (nd_net (ns_node (pr_state q)))
      in (fst main = Ok () \<longleftrightarrow> ready \<and> (\<exists>channel net'. reaches channel net')) \<and>
         (Spawn Auth_Handler \<in> set (pr_actions (snd main)) \<longrightarrow>
            (\<exists>d channel net'. load_descriptor env c = Ok d \<and> reaches channel net' \<and>
               ns_node (pr_state (snd main)) = logged_off_node d channel net')))"

lemma node_startI:
  assumes "orderly spawned awaited main q" and "pr_actions q = []" and "start_connected tp env c ready q main"
  shows "node_start tp env c ready spawned awaited q main"
  using assms by (cases main; cases "fst main") (simp_all add: node_start_def start_connected_def orderly_def Let_def)

lemma proxy_starts:
  fixes q :: "('o, 'chan, 'net) node_state process"
  assumes "pr_actions q = []"
  shows "start_connected tp env Proxy (node_ready lo os_name env parse_addr Proxy ''proxy'' q) q
      (proxy_main lo os_name env parse_addr tp q)"
proof -
  obtain l m where l: "setup_logger lo env (get_default_log_file_name os_name ''proxy'') (ns_machine (pr_state q)) = (l, m)"
    by fastforce
  note start = proxy_main_def logger_and_descriptor_first l
  show ?thesis
  proof (cases "l = Ok () \<and> (\<exists>d. load_descriptor env Proxy = Ok d)")
    case False
    with assms l show ?thesis
      by (cases l; cases "load_descriptor env Proxy") (auto simp: start start_connected_def Let_def)
  next
    case True
    then obtain d where d: "l = Ok ()" "load_descriptor env Proxy = Ok d" by blast
    let ?q = "q\<lparr>pr_state := (pr_state q)\<lparr>ns_machine := m\<rparr>\<rparr>"
    let ?addr = "get_local_socket_address parse_addr (descriptor_connection_settings d)"
    let ?k = "\<lambda>_ :: unit. and_then (act (Spawn Auth_Handler)) (\<lambda>_. and_then (unwrap_or_panic ?addr) (\<lambda>_.
      and_then (act (Spawn Server)) (\<lambda>_. acts [Wait_Ctrl_C, Cancel, Abort Server, Await Auth_Handler, Await Server])))"
    have main: "proxy_main lo os_name env parse_addr tp q =
        and_then (in_node (create_authenticator d)) (\<lambda>_. and_then (in_node (auth_initialize tp env)) ?k) ?q"
      by (simp add: start d)
    have "fst (?k () p) = Ok () \<longleftrightarrow> ?addr \<noteq> None" "ns_node (pr_state (snd (?k () p))) = ns_node (pr_state p)"
      for p :: "('o, 'chan, 'net) node_state process"
      by (cases ?addr; simp add: main_run)+
    from connection_decides [where q = q, OF main _ _ this] l d assms show ?thesis
      by (simp add: start_connected_def Let_def)
  qed
qed

lemma client_starts:
  fixes q :: "('o, 'chan, 'net) node_state process"
  assumes "pr_actions q = []"
  shows "start_connected tp env Client (node_ready lo os_name env parse_addr Client ''client'' q) q
      (client_main lo os_name env parse_addr tp q)"
proof -
  obtain l m where l: "setup_logger lo env (get_default_log_file_name os_name ''client'') (ns_machine (pr_state q)) = (l, m)"
    by fastforce
  note start = client_main_def logger_and_descriptor_first l
  let ?addr = "\<lambda>d. get_local_socket_address parse_addr (descriptor_connection_settings d)"
  show ?thesis
  proof (cases "l = Ok () \<and> (\<exists>d a. load_descriptor env Client = Ok d \<and> ?addr d = Some a)")
    case False
    with assms l show ?thesis
      by (cases l; cases "load_descriptor env Client")
         (auto simp: start start_connected_def Let_def unwrap_or_panic_def panic_def and_then_def [of "\<lambda>_. (Panic, _)"])
  next
    case True
    then obtain d a where d: "l = Ok ()" "load_descriptor env Client = Ok d" "?addr d = Some a" by blast
    let ?q = "q\<lparr>pr_state := (pr_state q)\<lparr>ns_machine := m\<rparr>, pr_actions := [Spawn Listener, Spawn Server]\<rparr>"
    let ?k = "\<lambda>_ :: unit. and_then (act (Spawn Auth_Handler)) (\<lambda>_. and_then (act (Spawn Input_Thread)) (\<lambda>_.
      and_then (act (Spawn Command_Handler)) (\<lambda>_. acts [Wait_Ctrl_C, Cancel, Abort Server, Await Auth_Handler, Await Server,
           Await Command_Handler])))"
    have main: "client_main lo os_name env parse_addr tp q =
        and_then (in_node (create_authenticator d)) (\<lambda>_. and_then (in_node (auth_initialize tp env)) ?k) ?q"
      using assms by (simp add: start d and_then_def [of "act _"] and_then_def [of "unwrap_or_panic _"] act_def)
    have "fst (?k () p) = Ok () \<longleftrightarrow> True" "ns_node (pr_state (snd (?k () p))) = ns_node (pr_state p)"
      for p :: "('o, 'chan, 'net) node_state process"
      by (simp_all add: main_run)
    from connection_decides [where q = q, OF main _ _ this] l d assms show ?thesis
      by (simp add: start_connected_def Let_def)
  qed
qed

text \<open>
  C18. A proxy and a client start exactly when the logger can be set up, the descriptor can be loaded,
  the address to serve on can be read and a channel to the controller can be opened: nothing else makes
  \<^verbatim>\<open>main\<close> fail and none of these failures is overlooked.  The authentication task is never spawned
  without a channel: when it is, the authentication client holds the one opened to the
  controller of the environment and an empty session of its own.  A process that fails has spawned
  some of its tasks, in their order, and never waits for the signal; one that ends well spawned all
  of them, waited, cancelled before it awaits any task, and awaits the server and the tasks it cancelled.
\<close>

theorem nodes_start_connected:
  fixes q :: "('o, 'chan, 'net) node_state process"
  assumes "pr_actions q = []"
  shows "node_start tp env Proxy
      ((\<exists>m. setup_logger lo env (get_default_log_file_name os_name ''proxy'') (ns_machine (pr_state q)) = (Ok (), m)) \<and>
       (\<exists>d. load_descriptor env Proxy = Ok d \<and>
            get_local_socket_address parse_addr (descriptor_connection_settings d) \<noteq> None))
      [Auth_Handler, Server] [Auth_Handler, Server] q
      (proxy_main lo os_name env parse_addr tp q)
    \<and> node_start tp env Client
      ((\<exists>m. setup_logger lo env (get_default_log_file_name os_name ''client'') (ns_machine (pr_state q)) = (Ok (), m)) \<and>
       (\<exists>d. load_descriptor env Client = Ok d \<and>
            get_local_socket_address parse_addr (descriptor_connection_settings d) \<noteq> None))
      [Listener, Server, Auth_Handler, Input_Thread, Command_Handler] [Auth_Handler, Server, Command_Handler] q
      (client_main lo os_name env parse_addr tp q)"
  by (intro conjI node_startI assms proxy_starts client_starts node_main_orderly)

subsection \<open>The client\<close>

text \<open>
  The command task ends: \<open>left\<close> counts what may still happen before the task is cancelled, lines that
  arrive and half seconds that go by, and every round uses some of it up.
\<close>

lemma command_task_ends:
  assumes "\<And>w. left w = 0 \<Longrightarrow> rn_cancelled rn w"
    and "\<And>w. \<not> rn_cancelled rn w \<Longrightarrow> left (snd (receive w)) < left w"
    and "\<And>input w. left (snd (handle_input mk session input w)) \<le> left w"
    and "left w < fuel"
  shows "\<exists>r w'. command_task mk session rn receive fuel w = Some (r, w')"
  using assms(4)
proof (induction fuel arbitrary: w)
  case 0
  then show ?case by simp
next
  case (Suc fuel)
  show ?case
  proof (cases "rn_cancelled rn w")
    case False
    obtain x w1 where r: "receive w = (x, w1)" by fastforce
    with assms(2) [OF False] Suc.prems have w1: "left w1 < fuel" by simp
    show ?thesis
    proof (cases x)
      case None
      with False r Suc.IH [OF w1] show ?thesis by simp
    next
      case (Some input)
      obtain h w2 where h: "handle_input mk session input w1 = (h, w2)" by fastforce
      with assms(3) [of input w1] w1 have "left w2 < fuel" by simp
      note IH = Suc.IH [OF this]
      show ?thesis
      proof (cases h)
        case (Ok k)
        with False r Some h IH show ?thesis by (cases k) simp_all
      qed (use False r Some h in simp_all)
    qed
  qed simp
qed

end
