(* ===== verification/Session_Directory.thy ===== *)
theory Session_Directory
  imports Domain_Components
begin

section \<open>Authentication as a directory of sessions\<close>

text \<open>
  What the authentication service promises, free of any storage: a directory maps access keys to
  sessions and users to members, and each request has one answer and one effect on it.  The lemmas
  of the locale show that the handlers implement the directory over any stores that keep the
  contracts; so they answer alike over both kinds of storage.
\<close>

subsection \<open>The directory\<close>

record directory =
  dir_sessions :: "string \<Rightarrow> session_info option"
  dir_members :: "string \<Rightarrow> member option"

definition directory_of ::
  "('w \<Rightarrow> string \<Rightarrow> session_info option) \<Rightarrow> ('w \<Rightarrow> string \<Rightarrow> member option) \<Rightarrow> 'w \<Rightarrow> directory" where
  "directory_of live mem w = \<lparr>dir_sessions = live w, dir_members = mem w\<rparr>"

lemma directory_of_sel [simp]:
  "dir_sessions (directory_of live mem w) = live w" "dir_members (directory_of live mem w) = mem w"
  by (simp_all add: directory_of_def)

datatype auth_request = Log_In login_request | Log_Out string | Ping_With string

definition admitted :: "directory \<Rightarrow> login_request \<Rightarrow> bool" where
  "admitted d req \<longleftrightarrow>
     (case dir_members d (lr_uid req) of None \<Rightarrow> False | Some m \<Rightarrow> mb_pwd m = lr_pwd req)"

definition session_of_login :: "string \<Rightarrow> socket_addr \<Rightarrow> component \<Rightarrow> login_request \<Rightarrow> session_info" where
  "session_of_login uuid ip c req =
     \<lparr>ss_access_key = uuid, ss_uid = lr_uid req, ss_client_ip = ip,
      ss_on_port_number = ucast (lr_on_port req), ss_on_ip_address = lr_on_ip req,
      ss_component_type = u8_from_component c, ss_public_key = lr_public_key req,
      ss_domain_name = lr_domain_name req\<rparr>"

fun dir_step :: "surroundings \<Rightarrow> auth_request \<Rightarrow> (directory, reply, status) prog" where
  "dir_step su (Log_In req) d =
     (case su_remote_addr su of
        None \<Rightarrow> (Err (mk_status Internal ''Could not get client IP address''), d)
      | Some ip \<Rightarrow>
          if lr_uid req = [] then (Err (mk_status InvalidArgument ''UID and PWD cannot be empty''), d)
          else (case component_from_i32 (lr_component_type req) of
              None \<Rightarrow> (Panic, d)
            | Some c \<Rightarrow>
                if c = Controller then (Err (mk_status InvalidArgument ''Invalid component type''), d)
                else if admitted d req
                then (Ok (Logged_In \<lparr>lresp_access_key = su_uuid su, lresp_message = ''Login successful''\<rparr>),
                      d\<lparr>dir_sessions := (dir_sessions d)(su_uuid su \<mapsto> session_of_login (su_uuid su) ip c req)\<rparr>)
                else (Err (mk_status Unauthenticated ''Invalid credentials''), d)))"
| "dir_step su (Log_Out k) d =
     (case dir_sessions d k of
        None \<Rightarrow> (Err (mk_status Unauthenticated ''Invalid access key''), d)
      | Some _ \<Rightarrow> (Ok Logged_Out, d\<lparr>dir_sessions := (dir_sessions d)(k := None)\<rparr>))"
| "dir_step su (Ping_With k) d =
     ((case su_remote_addr su of
         None \<Rightarrow> Err (mk_status Internal ''Could not get client IP address'')
       | Some ip \<Rightarrow>
           (case dir_sessions d k of
              None \<Rightarrow> Err (mk_status Unauthenticated ''Invalid access key'')
            | Some s \<Rightarrow>
                if ss_client_ip s = ip
                then Ok (Pong \<lparr>presp_status = ''PONG'', presp_timestamp = su_now_micros su\<rparr>)
                else Err (mk_status Unauthenticated ''Invalid connection''))), d)"

subsection \<open>The handlers\<close>

fun auth_step ::
  "('w, status) session_repository \<Rightarrow> ('w, status) member_repository \<Rightarrow> surroundings \<Rightarrow>
     auth_request \<Rightarrow> ('w, reply, status) prog" where
  "auth_step SR MR su (Log_In req) =
     map_ok Logged_In (auth_login SR MR (su_uuid su) (su_remote_addr su) req)"
| "auth_step SR MR su (Log_Out k) = map_ok (\<lambda>_. Logged_Out) (auth_logout SR k)"
| "auth_step SR MR su (Ping_With k) =
     map_ok Pong (auth_ping SR (su_remote_addr su) (su_now_micros su) k)"

text \<open>A sequence of requests, each with what its handler reads besides.\<close>

fun answers ::
  "(surroundings \<Rightarrow> auth_request \<Rightarrow> ('w, reply, status) prog) \<Rightarrow> (surroundings \<times> auth_request) list \<Rightarrow> 'w \<Rightarrow>
     (reply, status) outcome list \<times> 'w" where
  "answers f [] w = ([], w)"
| "answers f ((su, req) # rest) w =
     (case f su req w of (r, w') \<Rightarrow> (case answers f rest w' of (rs, w'') \<Rightarrow> (r # rs, w'')))"

context services begin

abbreviation dir :: "'w \<Rightarrow> directory" where
  "dir w \<equiv> directory_of live mem w"

lemma login_refines:
  assumes "inv w"
  obtains w' where "inv w'"
    and "dir_step su (Log_In req) (dir w) = (fst (auth_step SR MR su (Log_In req) w), dir w')"
    and "snd (auth_step SR MR su (Log_In req) w) = w'"
proof -
  have valid: "validate_credentials MR (lr_uid req) (lr_pwd req) w = (Ok (admitted (dir w) req), w)"
    using get_member [OF assms, of "lr_uid req"]
    by (simp add: validate_credentials_def mm_get_member_def admitted_def prog_simps split: option.splits)
  show thesis
  proof (cases "\<exists>ip c. su_remote_addr su = Some ip \<and> lr_uid req \<noteq> [] \<and>
      component_from_i32 (lr_component_type req) = Some c \<and> c \<noteq> Controller \<and> admitted (dir w) req")
    case True
    then obtain ip c m where a: "su_remote_addr su = Some ip" "lr_uid req \<noteq> []"
      "component_from_i32 (lr_component_type req) = Some c" "c \<noteq> Controller"
      "mem w (lr_uid req) = Some m" "mb_pwd m = lr_pwd req" "admitted (dir w) req"
      by (auto simp: admitted_def split: option.splits)
    obtain w' where "auth_login SR MR (su_uuid su) (Some ip) req w =
        (Ok \<lparr>lresp_access_key = su_uuid su, lresp_message = ''Login successful''\<rparr>, w')"
      "inv w'" "live w' = (live w)(su_uuid su \<mapsto> session_of_login (su_uuid su) ip c req)" "mem w' = mem w"
      by (rule login_run [OF assms a(2-6) session_of_login_def]) blast
    then show thesis by (intro that [of w']) (simp_all add: a a(7) [unfolded directory_of_def] map_ok_run directory_of_def)
  next
    case False
    then have "dir_step su (Log_In req) (dir w) = (fst (auth_step SR MR su (Log_In req) w), dir w)
        \<and> snd (auth_step SR MR su (Log_In req) w) = w"
      by (cases "su_remote_addr su"; cases "component_from_i32 (lr_component_type req)")
         (auto simp: auth_login_def map_ok_run valid throw_def panic_def)
    with assms show thesis by (intro that [of w]) simp_all
  qed
qed

lemma logout_refines:
  assumes "inv w"
  obtains w' where "inv w'"
    and "dir_step su (Log_Out k) (dir w) = (fst (auth_step SR MR su (Log_Out k) w), dir w')"
    and "snd (auth_step SR MR su (Log_Out k) w) = w'"
proof (cases "live w k")
  case None
  from check_session_Err [OF assms None] obtain w' where
    "check_session SR k w = (Err (mk_status Unauthenticated ''Invalid access key''), w')" "same w w'" .
  with None show thesis
    by (intro that [of w']) (simp_all add: auth_logout_def map_ok_run same_def directory_of_def)
next
  case (Some s)
  obtain w' where "auth_logout SR k w = (Ok (), w')" "inv w'" "live w' = (live w)(k := None)" "mem w' = mem w"
    by (rule logout_run [OF assms Some]) blast
  with Some show thesis by (intro that [of w']) (simp_all add: map_ok_run directory_of_def)
qed

lemma ping_refines:
  assumes "inv w"
  obtains w' where "inv w'"
    and "dir_step su (Ping_With k) (dir w) = (fst (auth_step SR MR su (Ping_With k) w), dir w')"
    and "snd (auth_step SR MR su (Ping_With k) w) = w'"
proof (cases "su_remote_addr su")
  case None
  with assms show thesis by (intro that [of w]) (simp_all add: auth_ping_def map_ok_run prog_simps)
next
  case (Some ip)
  obtain w' where "same w w'" "auth_ping SR (Some ip) (su_now_micros su) k w =
      (case live w k of
         None \<Rightarrow> Err (mk_status Unauthenticated ''Invalid access key'')
       | Some s \<Rightarrow>
           if ss_client_ip s = ip then Ok \<lparr>presp_status = ''PONG'', presp_timestamp = su_now_micros su\<rparr>
           else Err (mk_status Unauthenticated ''Invalid connection''), w')"
    by (rule ping_run [OF assms])
  with Some show thesis
    by (intro that [of w']) (auto simp: map_ok_run same_def directory_of_def split: option.splits)
qed

text \<open>The refinement: a handler's answer is the directory's, and so is its effect.\<close>

lemma auth_refines:
  assumes "inv w"
  shows "dir_step su req (dir w) =
      (fst (auth_step SR MR su req w), dir (snd (auth_step SR MR su req w)))"
    and "inv (snd (auth_step SR MR su req w))"
  by (cases req; metis assms login_refines logout_refines ping_refines)+

lemma answers_refine:
  "inv w \<Longrightarrow> answers dir_step reqs (dir w) =
     (fst (answers (auth_step SR MR) reqs w), dir (snd (answers (auth_step SR MR) reqs w)))"
proof (induction reqs arbitrary: w)
  case (Cons x reqs)
  obtain su req where x: "x = (su, req)" by fastforce
  obtain r w' where run: "auth_step SR MR su req w = (r, w')" by fastforce
  from auth_refines [OF Cons.prems, of su req] run have
    "dir_step su req (dir w) = (r, dir w')" "inv w'" by simp_all
  with Cons.IH [of w'] x run show ?case by (simp split: prod.splits)
qed simp

end


subsection \<open>The two storages\<close>

text \<open>
  C12. Authentication does not depend on the storage chosen: from in-memory tables and a Redis server
  that hold the same sessions and members, any sequence of logins, log-outs and pings (within the
  lifetime of the sessions, and with the same fresh keys) is answered alike over either, failures
  and panics included, and as the directory says.
\<close>

theorem storages_agree:
  fixes ks :: "'w \<Rightarrow> keyspace"
  assumes "redis_works R ks" and "redis_works R' ks" and "codec_ok js"
    and "world_ok v" and "redis_inv js (ks w)"
    and "live_session v = redis_live js (ks w)" and "member_repo v = redis_member js (ks w)"
  shows "fst (answers (auth_step (inmemory_session_repository porder) inmemory_member_repository) reqs v) =
      fst (answers (auth_step (redis_session_repository R js) (redis_member_repository R' js)) reqs w)
    \<and> fst (answers (auth_step (inmemory_session_repository porder) inmemory_member_repository) reqs v) =
      fst (answers dir_step reqs (directory_of live_session member_repo v))"
proof -
  have "directory_of live_session member_repo v =
      directory_of (\<lambda>w. redis_live js (ks w)) (\<lambda>w. redis_member js (ks w)) w"
    using assms(6,7) by (simp add: directory_of_def)
  then show ?thesis
    using mem_services.answers_refine [OF assms(4), of reqs porder]
      services.answers_refine [OF redis_services [OF assms(1,1,2,3)] assms(5), of reqs]
    by simp
qed

end
