(* ===== verification/Redis_Samples.thy ===== *)
theory Redis_Samples
  imports Redis_Properties Controller_Samples
begin

section \<open>A concrete server and codec\<close>

text \<open>
  An association list with the commands of the server, and a codec that writes a value as a list of
  texts.  They satisfy the hypotheses of \<open>Redis_Contracts\<close>; the theorems of \<open>Redis_Properties\<close> are
  applied to a keyspace with two proxies and a client.
\<close>

subsection \<open>The server\<close>

type_synonym redis_store = "(string \<times> redis_entry) list"

fun sample_exec :: "redis_command \<Rightarrow> redis_store \<Rightarrow> redis_store" where
  "sample_exec (Set_Ex k v t) w = (k, Str v) # w"
| "sample_exec (H_Set k f v) w = (k, Hash ((hash_field (map_of w) k)(f \<mapsto> v))) # w"
| "sample_exec (Expire k t) w = w"

definition sample_get :: "string \<Rightarrow> (redis_store, string, unit) prog" where
  "sample_get k w = (case map_of w k of Some (Str v) \<Rightarrow> (Ok v, w) | _ \<Rightarrow> (Err (), w))"

definition sample_redis :: "(redis_store, unit) redis" where
  "sample_redis =
     \<lparr>rd_set_ex = (\<lambda>k v t w. (Ok (), sample_exec (Set_Ex k v t) w)),
      rd_get = sample_get, rd_get_ex = (\<lambda>k _. sample_get k),
      rd_del = (\<lambda>k w. (Ok (), filter (\<lambda>e. fst e \<noteq> k) w)),
      rd_expire = (\<lambda>_ _ w. (Ok (), w)),
      rd_hset = (\<lambda>k f v w. (Ok (), sample_exec (H_Set k f v) w)),
      rd_hget = (\<lambda>k f w. (case hash_field (map_of w) k f of Some v \<Rightarrow> (Ok v, w) | None \<Rightarrow> (Err (), w))),
      rd_hdel = (\<lambda>k f w. (Ok (), (k, Hash ((hash_field (map_of w) k)(f := None))) # w)),
      rd_scan_match = (\<lambda>p w. (Ok (filter (starts_with (butlast p)) (map fst w)), w)),
      rd_exec_atomic = (\<lambda>cs w. (Ok (), fold sample_exec cs w))\<rparr>"

lemma map_of_delete: "map_of (filter (\<lambda>e. fst e \<noteq> k) w) = (map_of w)(k := None)"
  by (induction w) (auto simp: fun_eq_iff)

lemma sample_exec_view: "map_of (sample_exec c w) = apply_command c (map_of w)"
  by (cases c) simp_all

lemma sample_fold_view: "map_of (fold sample_exec cs w) = apply_commands cs (map_of w)"
  by (induction cs arbitrary: w) (simp_all add: sample_exec_view)

lemma sample_get_run:
  "map_of w k = Some (Str v) \<Longrightarrow> sample_get k w = (Ok v, w)"
  "not_string (map_of w) k \<Longrightarrow> sample_get k w = (Err (), w)"
  by (auto simp: sample_get_def not_string_def split: option.splits redis_entry.splits)

lemma sample_redis_works: "redis_works sample_redis map_of"
proof -
  have "string_commands sample_redis map_of"
    by (simp add: string_commands_def sample_redis_def sample_get_run map_of_delete)
  moreover have "hash_commands sample_redis map_of"
    by (simp add: hash_commands_def sample_redis_def)
  moreover have "other_commands sample_redis map_of"
    by (auto simp: other_commands_def sample_redis_def sample_fold_view butlast_append dom_map_of_conv_image_fst)
  ultimately show ?thesis by (simp add: redis_works_def)
qed

subsection \<open>The codec\<close>

text \<open>Each text is written with a mark before every character and a mark at its end.\<close>

definition write_text :: "string \<Rightarrow> string" where
  "write_text s = concat (map (\<lambda>c. [CHR ''x'', c]) s) @ ''.''"

definition write_texts :: "string list \<Rightarrow> string" where
  "write_texts ts = concat (map write_text ts)"

fun read_texts :: "string \<Rightarrow> string \<Rightarrow> string list" where
  "read_texts acc [] = []"
| "read_texts acc [c] = [acc]"
| "read_texts acc (m # c # s) =
     (if m = CHR ''x'' then read_texts (acc @ [c]) s else acc # read_texts [] (c # s))"

lemma read_write_text:
  "read_texts acc (concat (map (\<lambda>c. [CHR ''x'', c]) s) @ CHR ''.'' # rest) =
     (acc @ s) # read_texts [] rest"
proof (induction s arbitrary: acc)
  case Nil
  show ?case by (cases rest) simp_all
qed simp

lemma read_write_texts: "read_texts [] (write_texts ts) = ts"
  by (induction ts) (simp_all add: write_texts_def write_text_def read_write_text)

definition write_word :: "'a::len word \<Rightarrow> string" where
  "write_word v = replicate (unat v) CHR ''1''"

definition read_word :: "string \<Rightarrow> 'a::len word" where
  "read_word s = of_nat (length s)"

lemma read_write_word [simp]: "read_word (write_word v) = v"
  by (simp add: read_word_def write_word_def)

definition write_bytes :: "bytes \<Rightarrow> string" where
  "write_bytes bs = write_texts (map write_word bs)"

definition read_bytes :: "string \<Rightarrow> bytes" where
  "read_bytes s = map read_word (read_texts [] s)"

lemma read_write_bytes [simp]: "read_bytes (write_bytes bs) = bs"
  by (simp add: read_bytes_def write_bytes_def read_write_texts comp_def)

fun write_addr :: "socket_addr \<Rightarrow> string" where
  "write_addr (SocketAddrV4 ip port) = write_texts [write_word ip, write_word port]"
| "write_addr (SocketAddrV6 ip port flow scope) =
     write_texts [write_word ip, write_word port, write_word flow, write_word scope]"

definition read_addr :: "string \<Rightarrow> socket_addr" where
  "read_addr s =
     (case read_texts [] s of
        [ip, port] \<Rightarrow> SocketAddrV4 (read_word ip) (read_word port)
      | ip # port # flow # scope # _ \<Rightarrow>
          SocketAddrV6 (read_word ip) (read_word port) (read_word flow) (read_word scope)
      | _ \<Rightarrow> SocketAddrV4 0 0)"

lemma read_write_addr [simp]: "read_addr (write_addr a) = a"
  by (cases a) (simp_all add: read_addr_def read_write_texts)

definition write_session_json :: "session_info \<Rightarrow> string" where
  "write_session_json s = write_texts
     [ss_access_key s, ss_uid s, write_addr (ss_client_ip s), write_word (ss_on_port_number s),
      ss_on_ip_address s, write_word (ss_component_type s), write_bytes (ss_public_key s), ss_domain_name s]"

definition read_session_json :: "string \<Rightarrow> session_info option" where
  "read_session_json v =
     (case read_texts [] v of
        [k, u, a, p, i, t, b, d] \<Rightarrow> Some
          \<lparr>ss_access_key = k, ss_uid = u, ss_client_ip = read_addr a, ss_on_port_number = read_word p,
           ss_on_ip_address = i, ss_component_type = read_word t, ss_public_key = read_bytes b,
           ss_domain_name = d\<rparr>
      | _ \<Rightarrow> None)"

definition write_route_json :: "route \<Rightarrow> string" where
  "write_route_json r = write_texts
     [rt_on_ip_address r, write_word (rt_on_port_number r), write_bytes (rt_public_key r),
      rt_domain_name r, rt_nonce r, if rt_end_route r then ''t'' else ''f'']"

definition read_route_json :: "string \<Rightarrow> route option" where
  "read_route_json v =
     (case read_texts [] v of
        [i, p, b, d, n, e] \<Rightarrow> Some
          \<lparr>rt_on_ip_address = i, rt_on_port_number = read_word p, rt_public_key = read_bytes b,
           rt_domain_name = d, rt_nonce = n, rt_end_route = (e = ''t'')\<rparr>
      | _ \<Rightarrow> None)"

definition write_conversation_json :: "conversation \<Rightarrow> string" where
  "write_conversation_json x = write_texts
     [conv_id x, conv_from x, conv_to x, write_word (conv_routing_id x),
      write_texts (map write_route_json (conv_routes x))]"

definition read_conversation_json :: "string \<Rightarrow> conversation option" where
  "read_conversation_json v =
     (case read_texts [] v of
        [i, f, t, g, rs] \<Rightarrow> Some
          \<lparr>conv_id = i, conv_from = f, conv_to = t, conv_routing_id = read_word g,
           conv_routes = List.map_filter read_route_json (read_texts [] rs)\<rparr>
      | _ \<Rightarrow> None)"

definition sample_codec :: codec where
  "sample_codec =
     \<lparr>session_to_json = write_session_json, session_of_json = read_session_json,
      conversation_to_json = write_conversation_json, conversation_of_json = read_conversation_json,
      route_to_json = write_route_json, route_of_json = read_route_json,
      member_to_json = (\<lambda>m. write_texts [mb_uid m, mb_pwd m]),
      member_of_json = (\<lambda>v. case read_texts [] v of [u, p] \<Rightarrow> Some (new_member u p) | _ \<Rightarrow> None)\<rparr>"

lemma sample_codec_ok: "codec_ok sample_codec"
proof -
  have session: "read_session_json (write_session_json s) = Some s" for s
    by (simp add: read_session_json_def write_session_json_def read_write_texts)
  have route: "read_route_json (write_route_json r) = Some r" for r
    by (simp add: read_route_json_def write_route_json_def read_write_texts)
  have "List.map_filter read_route_json (map write_route_json rs) = rs" for rs
    by (induction rs) (simp_all add: route List.map_filter_simps)
  then have "read_conversation_json (write_conversation_json x) = Some x" for x
    by (simp add: read_conversation_json_def write_conversation_json_def read_write_texts)
  with session route show ?thesis
    by (simp add: codec_ok_def sample_codec_def read_write_texts new_member_def)
qed

subsection \<open>A keyspace\<close>

definition stored_session :: "component \<Rightarrow> session_info \<Rightarrow> redis_store \<Rightarrow> redis_store" where
  "stored_session c s w =
     (get_session_key (ss_access_key s), Str (session_to_json sample_codec s)) #
     (get_member_session_key c (ss_uid s), Str (ss_access_key s)) # w"

definition redis_p1 :: session_info where "redis_p1 = sample_session_of ''k1'' Proxy ''p1'' ''pp''"
definition redis_p2 :: session_info where "redis_p2 = sample_session_of ''k2'' Proxy ''p2'' ''pq''"
definition redis_alice :: session_info where
  "redis_alice = sample_session_of ''k3'' Client ''alice'' ''pa''"

lemmas redis_sample_sessions = redis_p1_def redis_p2_def redis_alice_def

text \<open>Two proxies, a client, two conversations, and one route of the first.\<close>

definition redis_store :: "route list \<Rightarrow> redis_store" where
  "redis_store rs =
     (get_routes_key ''c1'', Hash [''n0'' \<mapsto> route_to_json sample_codec (hop_to_p1 ''n0'')]) #
     (get_conversation_key ''c2'', Str (conversation_to_json sample_codec (sample_conversation ''c2'' []))) #
     (get_conversation_key ''c1'', Str (conversation_to_json sample_codec (sample_conversation ''c1'' rs))) #
     stored_session Client redis_alice (stored_session Proxy redis_p2 (stored_session Proxy redis_p1 []))"

lemma stored_session_inv:
  "redis_inv sample_codec (map_of w) \<Longrightarrow> component_from_u8 (ss_component_type s) = Some c \<Longrightarrow>
   redis_inv sample_codec (map_of (stored_session c s w))"
  unfolding stored_session_def map_of.simps fst_conv snd_conv by (rule redis_inv_session)

lemma redis_store_inv: "redis_inv sample_codec (map_of (redis_store rs))"
proof -
  have "redis_inv sample_codec (map_of [])"
    by (simp add: redis_inv_def not_string_def hash_field_def)
  then have "redis_inv sample_codec (map_of (stored_session Client redis_alice
      (stored_session Proxy redis_p2 (stored_session Proxy redis_p1 []))))"
    by (intro stored_session_inv) (simp_all add: redis_sample_sessions)
  note inv = redis_inv_conversation [OF redis_inv_conversation [OF this]]
  show ?thesis
    unfolding redis_store_def map_of.simps fst_conv snd_conv
    by (rule redis_inv_routes [OF inv, where c = "''c1''" and r = "hop_to_p1 ''n0''"])
       (auto split: if_splits)
qed

lemma redis_store_views:
  "redis_live sample_codec (map_of (redis_store rs)) ''k1'' = Some redis_p1"
  "redis_live sample_codec (map_of (redis_store rs)) ''k3'' = Some redis_alice"
  "redis_conversation sample_codec (map_of (redis_store rs)) ''c1'' = Some (sample_conversation ''c1'' rs)"
  "redis_conversation sample_codec (map_of (redis_store rs)) ''c2'' = Some (sample_conversation ''c2'' [])"
  "redis_route sample_codec (map_of (redis_store rs)) ''c1'' ''n0'' = Some (hop_to_p1 ''n0'')"
  "redis_route sample_codec (map_of (redis_store rs)) ''c2'' ''n0'' = None"
  "map_of (redis_store rs) (get_member_session_key Proxy ''p1'') = Some (Str ''k1'')"
  "map_of (redis_store rs) (get_member_session_key Client ''bob'') = None"
  using sample_codec_ok
  by (simp_all add: redis_store_def stored_session_def redis_live_def redis_conversation_def
      redis_route_def hash_field_def codec_ok_def redis_sample_sessions)

subsection \<open>The theorems at this keyspace\<close>

theorem redis_keeps_contracts_witness:
  "controller_stores (redis_session_repository sample_redis sample_codec :: (redis_store, status) session_repository)
    (redis_member_repository sample_redis sample_codec) (redis_route_repository sample_redis sample_codec)
    (\<lambda>w. redis_inv sample_codec (map_of w)) (\<lambda>w. redis_live sample_codec (map_of w))
    (\<lambda>w. redis_member sample_codec (map_of w)) (\<lambda>w. redis_conversation sample_codec (map_of w))
    (\<lambda>w. redis_route sample_codec (map_of w))
   \<and> redis_inv sample_codec (map_of (redis_store []))"
  using redis_keeps_contracts [OF sample_redis_works sample_redis_works sample_redis_works sample_codec_ok] redis_store_inv by blast

theorem redis_nonce_reusable_witness:
  "\<exists>w1 w2. route_redeem (redis_session_repository sample_redis sample_codec)
        (redis_router sample_redis sample_codec pick_first) ''k1'' ''c1'' ''n0'' (redis_store []) = (Ok None, w1)
    \<and> route_redeem (redis_session_repository sample_redis sample_codec)
        (redis_router sample_redis sample_codec pick_first) ''k3'' ''c1'' ''n0'' w1 = (Ok None, w2)"
proof -
  have "\<not> rt_end_route (hop_to_p1 ''n0'')" "''n0'' \<noteq> ''c1''" by simp_all
  from redis_nonce_reusable [OF sample_redis_works sample_codec_ok redis_store_inv redis_store_views(1,2,3,5)
      this redis_store_views(4,6), where pick = pick_first] show ?thesis by blast
qed

definition three_hops :: "route list" where
  "three_hops = [hop_to_p1 ''n1'', hop_to_p1 ''n2'', hop_to_p1 ''n3'']"

theorem redis_offline_recipient_panics_witness:
  "fst (route_route (redis_session_repository sample_redis sample_codec)
     (redis_router sample_redis sample_codec pick_first) ''u'' ''k1'' ''c1'' (redis_store three_hops)) = Panic"
  by (rule redis_offline_recipient_panics [OF sample_redis_works sample_codec_ok redis_store_inv
        redis_store_views(1,3)]) (simp_all add: three_hops_def redis_store_views)

theorem redis_logout_breaks_routing_witness:
  "\<exists>w1. auth_logout (redis_session_repository sample_redis sample_codec) ''k1'' (redis_store []) = (Ok (), w1)
    \<and> fst (route_route (redis_session_repository sample_redis sample_codec)
         (redis_router sample_redis sample_codec pick_first) ''u'' ''k3'' ''c1'' w1) = Panic"
  by (rule redis_logout_breaks_routing [OF sample_redis_works sample_codec_ok redis_store_inv
        redis_store_views(1,7,2) _ redis_store_views(3)]) simp_all

end
