(* ===== verification/Storage_Samples.thy ===== *)
theory Storage_Samples
  imports Session_Directory Redis_Samples
begin

section \<open>The choice of storage, and the two storages side by side\<close>

text \<open>
  The theorems of \<open>Domain_Components\<close> and \<open>Session_Directory\<close> at the concrete server and codec of
  \<open>Redis_Samples\<close>.
\<close>

definition sample_crate :: "(unit, string, redis_store, unit) redis_crate" where
  "sample_crate =
     \<lparr>client_open = (\<lambda>uri. if uri = [] then throw () else ret uri),
      client_get_connection = (\<lambda>_. ret sample_redis)\<rparr>"

definition redis_env :: environment where
  "redis_env =
     \<lparr>env_var = [''REPOSITORY'' \<mapsto> ''1'', ''REDIS_URL'' \<mapsto> ''redis://127.0.0.1/''],
      current_dir = None, read_file = Map.empty\<rparr>"

lemma redis_env_type: "repository_type_from_env redis_env = Redis"
  by (simp add: repository_type_from_env_def redis_env_def get_env_variable_def parse_u8_def
      parse_unsigned_def digit_value_def byte_def repository_type_from_u8_def)

lemma redis_env_connects:
  "redis_asked redis_env" "connects sample_crate (server_url redis_env) () = (Some sample_redis, ())"
  using redis_env_type
  by (auto simp: repository_type_asked connects_def server_url_def redis_env_def sample_crate_def ret_def
      split: if_splits)

theorem start_up_storage_witness:
  "\<exists>SR RM MR. create_domain_components redis_env sample_crate sample_codec (\<lambda>_. []) pick_first () =
     (Ok (Inr SR, Inr RM, Inr MR), ())
   \<and> SR = redis_session_repository sample_redis sample_codec
   \<and> services SR MR (rm_repository RM)
       (\<lambda>w. redis_inv sample_codec (map_of w)) (\<lambda>w. redis_live sample_codec (map_of w))
       (\<lambda>w. redis_member sample_codec (map_of w)) (\<lambda>w. redis_conversation sample_codec (map_of w))
       (\<lambda>w. redis_route sample_codec (map_of w))"
proof -
  have "server_works sample_crate (server_url redis_env) map_of"
    using sample_redis_works by (simp add: server_works_def sample_crate_def ret_def)
  from start_up_storage [where porder = "\<lambda>_. []" and pick = pick_first and v = "()", OF this sample_codec_ok]
  show ?thesis by (simp add: redis_env_connects) blast
qed

subsection \<open>One user, a login, two pings and a log-out\<close>

definition alice :: member where "alice = new_member ''alice'' ''pa''"

definition member_world :: world where
  "member_world = new_world\<lparr>member_repo := [''alice'' \<mapsto> alice]\<rparr>"

definition member_server :: redis_store where
  "member_server = [(MEMBER_KEY, Hash [''alice'' \<mapsto> member_to_json sample_codec alice])]"

lemma member_server_inv: "redis_inv sample_codec (map_of member_server)"
proof -
  have inv: "redis_inv sample_codec Map.empty"
    by (simp add: redis_inv_def not_string_def hash_field_def)
  have none: "hash_field Map.empty MEMBER_KEY = Map.empty" by (simp add: hash_field_def fun_eq_iff)
  from redis_inv_member [OF inv, of "''alice''" alice] show ?thesis
    by (simp add: none member_server_def)
qed

lemma member_views:
  "live_session member_world = redis_live sample_codec (map_of member_server)"
  "member_repo member_world = redis_member sample_codec (map_of member_server)"
  using sample_codec_ok
  by (auto simp: member_world_def member_server_def new_world_def new_session_tables_def
      live_session_def redis_live_def redis_member_def hash_field_def codec_ok_def fun_eq_iff)

lemma member_world_ok: "world_ok member_world"
  by (simp add: world_ok_def member_world_def new_world_def sessions_keyed_def route_wf_def
      new_session_tables_def new_route_tables_def)

definition alice_session :: "(surroundings \<times> auth_request) list" where
  "alice_session =
     [(sample_su [] ''k9'', Log_In (sample_login Client ''alice'' ''pa'')),
      (sample_su [] ''k0'', Ping_With ''k9''), (sample_su [] ''k0'', Log_Out ''k9''),
      (sample_su [] ''k0'', Ping_With ''k9'')]"

theorem storages_agree_witness:
  "fst (answers (auth_step (redis_session_repository sample_redis sample_codec)
      (redis_member_repository sample_redis sample_codec)) alice_session member_server) =
   [Ok (Logged_In \<lparr>lresp_access_key = ''k9'', lresp_message = ''Login successful''\<rparr>),
    Ok (Pong \<lparr>presp_status = ''PONG'', presp_timestamp = 7\<rparr>), Ok Logged_Out,
    Err (mk_status Unauthenticated ''Invalid access key'')]"
proof -
  have "member_repo member_world ''alice'' = Some alice" by (simp add: member_world_def)
  then have spec: "fst (answers dir_step alice_session (directory_of live_session member_repo member_world)) =
   [Ok (Logged_In \<lparr>lresp_access_key = ''k9'', lresp_message = ''Login successful''\<rparr>),
    Ok (Pong \<lparr>presp_status = ''PONG'', presp_timestamp = 7\<rparr>), Ok Logged_Out,
    Err (mk_status Unauthenticated ''Invalid access key'')]"
    by (simp add: alice_session_def admitted_def alice_def new_member_def session_of_login_def)
  note agree = storages_agree [OF sample_redis_works sample_redis_works sample_codec_ok member_world_ok
      member_server_inv member_views, of "\<lambda>_. []" alice_session]
  show ?thesis
    by (rule trans [OF agree [THEN conjunct1, symmetric] trans [OF agree [THEN conjunct2] spec]])
qed

end
