(* ===== verification/Process_Samples.thy ===== *)
theory Process_Samples
  imports Process_Properties Storage_Samples Node_Samples
begin

section \<open>A concrete start-up\<close>

text \<open>
  The theorems of \<open>Process_Properties\<close> at an environment in which everything the controller needs is
  set, but the directory of the certificates holds no key, and at one in which a node starts.
\<close>

definition process_env :: environment where
  "process_env =
     \<lparr>env_var = [''MEMBERS_CSV_FILE'' \<mapsto> ''m.csv'', ''CONTROLLER_IP'' \<mapsto> ''10.0.0.1'',
        ''CONTROLLER_PORT'' \<mapsto> ''50'', ''CONTROLLER_DOMAIN_NAME'' \<mapsto> ''ctl'',
        ''CONTROLLER_CERT_FILE'' \<mapsto> ''c.crt'', ''UID'' \<mapsto> ''ctl'', ''PWD'' \<mapsto> ''pw''],
      current_dir = Some ''/a'',
      read_file = [''m.csv'' \<mapsto> [1], ''/a/server.crt'' \<mapsto> [2]]\<rparr>"

definition quiet_log :: "(unit, nat, unit) logging_crates" where
  "quiet_log =
     \<lparr>lo_exists = (\<lambda>_ _. False), lo_create_dir_all = (\<lambda>_. ret ()),
      lo_level_from_str = (\<lambda>l. if l = ''debug'' then Some 4 else None), lo_debug_level = 4,
      lo_log_file = (\<lambda>_. ret ()), lo_apply = (\<lambda>_ _ _. ret ())\<rparr>"

definition new_process :: "(unit, redis_store) controller_state process" where
  "new_process =
     \<lparr>pr_state = \<lparr>ct_machine = (), ct_tables = new_world, ct_server = []\<rparr>, pr_actions = []\<rparr>"

lemma process_env_vars:
  "repository_type_from_env process_env = InMemory"
  "get_certificates_dir process_env = Ok ''/a''" "get_logs_dir process_env = Ok ''/a''"
  "members_to_seed process_env sample_csv =
     Some [new_member ''alice'' ''pa'', new_member ''p1'' ''pp'', new_member ''bob'' ''b1'',
           new_member ''bob'' ''b2'']"
  by (simp_all add: process_env_def repository_type_from_env_def get_env_variable_def parse_u8_def
      parse_unsigned_def default_repository_type_def get_certificates_dir_def get_logs_dir_def
      members_to_seed_def read_members_from_csv_def sample_csv_def)

lemma process_env_descriptor:
  "load_descriptor process_env Controller =
     Ok (ControllerDescriptor \<lparr>cred_uid = ''ctl'', cred_pwd = ''pw''\<rparr>
       \<lparr>cs_ip = ''10.0.0.1'', cs_port = 50, cs_domain_name = ''ctl'', cs_certificate = []\<rparr> ''1.0.0'')"
proof -
  have port: "parse_u16 ''50'' = Some 50"
    by (simp add: parse_u16_def parse_unsigned_def digit_value_def byte_def)
  then show ?thesis
    by (simp add: process_env_def load_descriptor_def result_or_def get_controller_connection_settings_def
        load_connection_settings_def get_service_endpoint_def get_domain_name_def
        get_controller_cert_file_def get_connection_settings_def get_env_variable_def get_credentials_def
        get_cert_file_def get_certificates_dir_def path_join_def)
qed

lemma quiet_logger:
  assumes "get_logs_dir env = Ok ''/a''" and "get_env_variable env ''LOG_LEVEL'' = Err e"
  shows "setup_logger quiet_log env name u = (Ok (), ())"
proof -
  have "valid_utf8 (as_bytes ''/a'')"
    by (simp add: as_bytes_def valid_utf8.simps utf8_step_def Let_def byte_at_def utf8_width_def)
  then have "\<exists>d. get_logs_path env = Ok d"
    by (simp add: get_logs_path_def assms(1))
  then show ?thesis
    using assms(2) by (auto simp: setup_logger_def quiet_log_def lift_outcome_def reads_def and_then_def ret_def Let_def)
qed

lemma process_env_logger: "setup_logger quiet_log process_env name u = (Ok (), ())"
  by (rule quiet_logger [OF process_env_vars(3)]) (simp add: process_env_def get_env_variable_def)

lemma process_env_main:
  "\<exists>p'. controller_main quiet_log None process_env sample_crate sample_codec (\<lambda>_. []) pick_first
     sample_csv new_process = (Ok (), p')"
  by (simp add: controller_main_in_memory [OF process_env_vars(1) process_env_logger process_env_descriptor]
      process_env_vars(4) Let_def)

theorem controller_start_up_witness:
  "\<exists>p'. controller_main quiet_log None process_env sample_crate sample_codec (\<lambda>_. []) pick_first
     sample_csv new_process = (Ok (), p') \<and> seeded process_env sample_csv (ct_tables (pr_state p'))"
proof -
  from process_env_main obtain p' where
    run: "controller_main quiet_log None process_env sample_crate sample_codec (\<lambda>_. []) pick_first
       sample_csv new_process = (Ok (), p')" by blast
  have "ct_tables (pr_state new_process) = new_world" by (simp add: new_process_def)
  from controller_start_up [OF process_env_vars(1) this run] run show ?thesis by simp
qed

definition plain_server :: "(unit, bytes) server_crate" where
  "plain_server =
     \<lparr>sc_identity_from_pem = (\<lambda>cert key. cert @ key), sc_tls_config = (\<lambda>_. ret ()),
      sc_serve = (\<lambda>_ _. ret ())\<rparr>"

theorem server_failure_unnoticed_witness:
  "\<exists>p' d. controller_main quiet_log None process_env sample_crate sample_codec (\<lambda>_. []) pick_first
       sample_csv new_process = (Ok (), p')
     \<and> {Spawn Server, Wait_Ctrl_C} \<subseteq> set (pr_actions p')
     \<and> load_descriptor process_env Controller = Ok d
     \<and> controller_server_task plain_server process_env (\<lambda>_. Some home) d () = (Panic, ())"
proof -
  from process_env_main obtain p' where
    run: "controller_main quiet_log None process_env sample_crate sample_codec (\<lambda>_. []) pick_first
       sample_csv new_process = (Ok (), p')" by blast
  have "load_tls_identity process_env (sc_identity_from_pem plain_server) ''server.crt'' ''server.key''
      \<noteq> Ok identity" for identity
    by (simp add: load_tls_identity_def process_env_vars) (simp add: process_env_def path_join_def)
  from server_failure_unnoticed [where v = "()" and parse_addr = "\<lambda>_. Some home", OF run this] run
  show ?thesis by blast
qed

subsection \<open>A proxy and a client\<close>

definition start_env :: environment where
  "start_env =
     \<lparr>env_var = [''LISTENING_IP'' \<mapsto> ''10.0.0.9'', ''LISTENING_PORT'' \<mapsto> ''40'', ''DOMAIN_NAME'' \<mapsto> ''n'',
        ''CONTROLLER_IP'' \<mapsto> ''10.0.0.1'', ''CONTROLLER_PORT'' \<mapsto> ''50'',
        ''CONTROLLER_DOMAIN_NAME'' \<mapsto> ''ctl'', ''CONTROLLER_CERT_FILE'' \<mapsto> ''c.crt'',
        ''UID'' \<mapsto> ''n'', ''PWD'' \<mapsto> ''pw''],
      current_dir = Some ''/a'', read_file = [''/a/ca.crt'' \<mapsto> [1], ''c.crt'' \<mapsto> [2]]\<rparr>"

definition start_settings :: connection_settings where
  "start_settings = \<lparr>cs_ip = ''10.0.0.9'', cs_port = 40, cs_domain_name = ''n'', cs_certificate = [1]\<rparr>"

lemma start_env_settings:
  "get_connection_settings start_env = Ok start_settings"
  "get_controller_connection_settings start_env =
     Ok \<lparr>cs_ip = ''10.0.0.1'', cs_port = 50, cs_domain_name = ''ctl'', cs_certificate = [2]\<rparr>"
  "get_credentials start_env = Ok \<lparr>cred_uid = ''n'', cred_pwd = ''pw''\<rparr>"
proof -
  have port: "parse_u16 ''50'' = Some 50" "parse_u16 ''40'' = Some 40"
    by (simp_all add: parse_u16_def parse_unsigned_def digit_value_def byte_def)
  then show "get_connection_settings start_env = Ok start_settings"
    "get_controller_connection_settings start_env =
     Ok \<lparr>cs_ip = ''10.0.0.1'', cs_port = 50, cs_domain_name = ''ctl'', cs_certificate = [2]\<rparr>"
    "get_credentials start_env = Ok \<lparr>cred_uid = ''n'', cred_pwd = ''pw''\<rparr>"
    by (simp_all add: start_env_def start_settings_def get_controller_connection_settings_def
        load_connection_settings_def get_service_endpoint_def get_domain_name_def get_credentials_def
        get_controller_cert_file_def get_connection_settings_def get_env_variable_def
        get_cert_file_def get_certificates_dir_def path_join_def)
qed

lemma start_env_descriptor:
  "load_descriptor start_env Proxy = Ok (ProxyDescriptor \<lparr>cred_uid = ''n'', cred_pwd = ''pw''\<rparr> start_settings)"
  "load_descriptor start_env Client = Ok (ClientDescriptor \<lparr>cred_uid = ''n'', cred_pwd = ''pw''\<rparr> start_settings)"
  by (simp_all add: load_descriptor_def start_env_settings)

lemma start_env_logger: "setup_logger quiet_log start_env name u = (Ok (), ())"
  by (rule quiet_logger) (simp_all add: start_env_def get_logs_dir_def get_env_variable_def)

definition new_node :: "(unit, unit, nat) node_state process" where
  "new_node = \<lparr>pr_state = \<lparr>ns_machine = (), ns_node = sample_node default_client_session\<rparr>, pr_actions = []\<rparr>"

definition refusing :: "(string, unit, nat) transport" where
  "refusing = sample_transport\<lparr>tp_connect := (\<lambda>_ _ _. throw ''refused'')\<rparr>"

lemma start_env_connected:
  "connected sample_transport start_env net ch net' \<longleftrightarrow> net' = net"
  "\<not> connected refusing start_env net ch net'"
  by (auto simp: connected_def start_env_settings result_or_def sample_transport_def refusing_def ret_def throw_def
      get_public_endpoint_def to_https_endpoint_def to_endpoint_def)

lemma start_env_reaches: "Ex (connected sample_transport start_env net ch)"
  by (rule exI [of _ net]) (simp add: start_env_connected)

text \<open>With a controller that answers both start; with one that refuses neither tries to log in.\<close>

theorem nodes_start_connected_witness:
  "fst (proxy_main quiet_log None start_env (\<lambda>_. Some home) sample_transport new_node) = Ok ()
   \<and> fst (client_main quiet_log None start_env (\<lambda>_. Some home) sample_transport new_node) = Ok ()
   \<and> Spawn Auth_Handler \<notin> set (pr_actions (snd (proxy_main quiet_log None start_env (\<lambda>_. Some home) refusing new_node)))
   \<and> Spawn Auth_Handler \<notin> set (pr_actions (snd (client_main quiet_log None start_env (\<lambda>_. Some home) refusing new_node)))"
proof -
  have none: "pr_actions new_node = []" by (simp add: new_node_def)
  have addr: "get_local_socket_address (\<lambda>_. Some home) cs \<noteq> None" for cs
    by (simp add: get_local_socket_address_def to_socket_address_def)
  note starts = nodes_start_connected [OF none, where env = start_env and lo = quiet_log and os_name = None
      and parse_addr = "\<lambda>_. Some home", unfolded node_start_def Let_def]
  show ?thesis
    using starts [of sample_transport] starts [of refusing] addr
    by (simp add: start_env_connected start_env_reaches start_env_logger start_env_descriptor)
qed

theorem log_directory_is_logs_witness:
  "get_logs_path process_env = Ok ''/a/logs'' \<and> path_ends_with ''/a/logs'' LOG_DIR"
proof -
  have "valid_utf8 (as_bytes ''/a'')"
    by (simp add: as_bytes_def valid_utf8.simps utf8_step_def Let_def byte_at_def utf8_width_def)
  moreover have "\<not> path_ends_with ''/a'' LOG_DIR"
    by (simp add: path_ends_with_def path_components_def starts_with_def LOG_DIR_def)
  ultimately have "get_logs_path process_env = Ok ''/a/logs''"
    by (simp add: get_logs_path_def process_env_vars path_join_def LOG_DIR_def)
  with log_directory_is_logs [OF this] show ?thesis by simp
qed

end
