(* ===== verification/Repository_Locks.thy ===== *)
theory Repository_Locks
  imports Prelude
begin

section \<open>The locks of the in-memory repositories\<close>

text \<open>
  The in-memory repositories guard each of their maps with a \<^verbatim>\<open>tokio::sync::RwLock\<close>, and an operation
  that needs several maps takes their locks one after the other, keeping them until its guards are
  dropped at the end of their scope.  Here an operation is the sequence of its lock steps, and any
  number of operations run interleaved.  A lock can be granted when its holders allow it; which of the
  waiting operations gets it is left open.  The lock of \<^verbatim>\<open>tokio\<close> grants less, as it queues the
  operations that wait and lets none pass another; but whoever is first in the queue of a lock that
  nobody holds gets it, and this is all that the theorem on progress needs.

  The operations of the route repository take the locks in one order and never block each other
  for ever; those of the session repository take them in both orders and can.
\<close>

subsection \<open>Lock steps and their interleavings\<close>

datatype access = Shared | Exclusive

datatype 'l lock_step = Acquire access 'l | Release 'l

record 'l task =
  held :: "(access \<times> 'l) list"
  todo :: "'l lock_step list"

definition task_of :: "'l lock_step list \<Rightarrow> 'l task" where
  "task_of steps = \<lparr>held = [], todo = steps\<rparr>"

definition grantable :: "access \<Rightarrow> 'l \<Rightarrow> 'l task list \<Rightarrow> bool" where
  "grantable a l ts \<longleftrightarrow>
     (\<forall>t \<in> set ts. \<forall>(b, k) \<in> set (held t). k = l \<longrightarrow> a = Shared \<and> b = Shared)"

definition drop_lock :: "'l \<Rightarrow> (access \<times> 'l) list \<Rightarrow> (access \<times> 'l) list" where
  "drop_lock l = filter (\<lambda>(_, k). k \<noteq> l)"

inductive interleave :: "'l task list \<Rightarrow> 'l task list \<Rightarrow> bool" where
  acquire: "i < length ts \<Longrightarrow> todo (ts ! i) = Acquire a l # rest \<Longrightarrow> grantable a l ts \<Longrightarrow>
    interleave ts (ts[i := \<lparr>held = (a, l) # held (ts ! i), todo = rest\<rparr>])"
| release: "i < length ts \<Longrightarrow> todo (ts ! i) = Release l # rest \<Longrightarrow>
    interleave ts (ts[i := \<lparr>held = drop_lock l (held (ts ! i)), todo = rest\<rparr>])"

definition stuck :: "'l task list \<Rightarrow> bool" where
  "stuck ts \<longleftrightarrow> (\<exists>t \<in> set ts. todo t \<noteq> []) \<and> (\<nexists>ts'. interleave ts ts')"

subsection \<open>The session repository\<close>

datatype session_lock = Sessions_Lock | Clients_Lock | Controllers_Lock | Proxies_Lock

text \<open>
  \<open>Set_Session\<close> carries the lock of the index the component belongs to, \<open>Remove_Session\<close> and
  \<open>Get_Client\<close> whether the entry they look up first was found, \<open>Count\<close> the index counted.
\<close>

datatype session_call =
    Set_Session session_lock
  | Get_Session
  | Remove_Session bool
  | Get_Proxies
  | Get_Client bool
  | Count session_lock
  | Sweep

fun session_steps :: "session_call \<Rightarrow> session_lock lock_step list" where
  "session_steps (Set_Session index) =
     [Acquire Exclusive index, Release index, Acquire Exclusive Sessions_Lock, Release Sessions_Lock]"
| "session_steps Get_Session = [Acquire Exclusive Sessions_Lock, Release Sessions_Lock]"
| "session_steps (Remove_Session found) =
     [Acquire Exclusive Sessions_Lock] @
     (if found then [Acquire Exclusive Clients_Lock, Release Clients_Lock] else []) @
     [Release Sessions_Lock]"
| "session_steps Get_Proxies =
     [Acquire Shared Proxies_Lock, Acquire Shared Sessions_Lock, Release Sessions_Lock,
      Release Proxies_Lock]"
| "session_steps (Get_Client found) =
     [Acquire Shared Clients_Lock] @
     (if found then [Acquire Shared Sessions_Lock, Release Sessions_Lock] else []) @
     [Release Clients_Lock]"
| "session_steps (Count index) = [Acquire Shared index, Release index]"
| "session_steps Sweep =
     [Acquire Exclusive Sessions_Lock, Acquire Exclusive Clients_Lock,
      Acquire Exclusive Controllers_Lock, Acquire Exclusive Proxies_Lock, Release Proxies_Lock,
      Release Controllers_Lock, Release Clients_Lock, Release Sessions_Lock]"

subsection \<open>The route repository\<close>

datatype route_lock = Routes_Lock | Conversations_Lock

datatype route_call =
    Set_Conversation
  | Remove_Conversation
  | Get_Conversation
  | Set_Route bool
  | Get_Route
  | Remove_Route
  | Sweep_Both

text \<open>A route whose nonce is known already ends \<open>Set_Route\<close> early, with both locks held all the same.\<close>

fun route_steps :: "route_call \<Rightarrow> route_lock lock_step list" where
  "route_steps Set_Conversation = [Acquire Exclusive Conversations_Lock, Release Conversations_Lock]"
| "route_steps Remove_Conversation = [Acquire Exclusive Conversations_Lock, Release Conversations_Lock]"
| "route_steps Get_Conversation = [Acquire Shared Conversations_Lock, Release Conversations_Lock]"
| "route_steps (Set_Route known) =
     [Acquire Exclusive Routes_Lock, Acquire Exclusive Conversations_Lock,
      Release Conversations_Lock, Release Routes_Lock]"
| "route_steps Get_Route = [Acquire Shared Routes_Lock, Release Routes_Lock]"
| "route_steps Remove_Route = [Acquire Exclusive Routes_Lock, Release Routes_Lock]"
| "route_steps Sweep_Both =
     [Acquire Exclusive Routes_Lock, Acquire Exclusive Conversations_Lock,
      Release Conversations_Lock, Release Routes_Lock]"

subsection \<open>Taking locks in order\<close>

text \<open>
  The locks of a repository in a fixed order, and steps that only take locks above all they hold, and
  release all they take.
\<close>

instantiation route_lock :: linorder
begin

definition less_eq_route_lock :: "route_lock \<Rightarrow> route_lock \<Rightarrow> bool" where
  "less_eq_route_lock k l \<longleftrightarrow> k = Routes_Lock \<or> l = Conversations_Lock"

definition less_route_lock :: "route_lock \<Rightarrow> route_lock \<Rightarrow> bool" where
  "less_route_lock k l \<longleftrightarrow> k = Routes_Lock \<and> l = Conversations_Lock"

instance
  by standard (auto simp: less_eq_route_lock_def less_route_lock_def intro: route_lock.exhaust)

end

fun in_order :: "(access \<times> 'l::linorder) list \<Rightarrow> 'l lock_step list \<Rightarrow> bool" where
  "in_order h [] \<longleftrightarrow> h = []"
| "in_order h (Acquire a l # s) \<longleftrightarrow> (\<forall>(_, k) \<in> set h. k < l) \<and> in_order ((a, l) # h) s"
| "in_order h (Release l # s) \<longleftrightarrow> in_order (drop_lock l h) s"

definition orderly :: "'l::linorder task list \<Rightarrow> bool" where
  "orderly ts \<longleftrightarrow> (\<forall>t \<in> set ts. in_order (held t) (todo t))"

lemma orderly_nth: "orderly ts \<Longrightarrow> i < length ts \<Longrightarrow> in_order (held (ts ! i)) (todo (ts ! i))"
  by (simp add: orderly_def)

lemma orderly_update: "orderly ts \<Longrightarrow> in_order (held t) (todo t) \<Longrightarrow> orderly (ts[i := t])"
  unfolding orderly_def using set_update_subset_insert [of ts i t] by blast

lemma interleave_orderly: "interleave ts ts' \<Longrightarrow> orderly ts \<Longrightarrow> orderly ts'"
proof (induction rule: interleave.induct)
  case (acquire i ts a l rest)
  with orderly_nth [OF acquire.prems, of i] show ?case by (intro orderly_update) simp_all
next
  case (release i ts l rest)
  with orderly_nth [OF release.prems, of i] show ?case by (intro orderly_update) simp_all
qed

text \<open>The lock an operation waits for, if it waits for one.\<close>

fun wanted :: "'l lock_step list \<Rightarrow> 'l option" where
  "wanted (Acquire a l # s) = Some l"
| "wanted s = None"

fun_cases wantedE: "wanted s = Some l"

text \<open>
  Some operation can go on however the waiting ones are queued: it is about to release a lock, or
  waits for a lock that nobody holds.
\<close>

definition goes_on :: "'l task list \<Rightarrow> bool" where
  "goes_on ts \<longleftrightarrow> (\<exists>t \<in> set ts. todo t \<noteq> [] \<and>
     (\<forall>l. wanted (todo t) = Some l \<longrightarrow> (\<forall>u \<in> set ts. l \<notin> snd ` set (held u))))"

lemma goes_on_not_stuck:
  assumes "goes_on ts"
  shows "\<not> stuck ts"
proof -
  obtain i s rest where i: "i < length ts" "todo (ts ! i) = s # rest"
    and free: "wanted (todo (ts ! i)) = Some l \<Longrightarrow> u \<in> set ts \<Longrightarrow> l \<notin> snd ` set (held u)" for l u
    using assms by (fastforce simp: goes_on_def in_set_conv_nth neq_Nil_conv)
  have "\<exists>ts'. interleave ts ts'"
  proof (cases s)
    case (Acquire a l)
    then have "grantable a l ts" using free i(2) by (force simp: grantable_def)
    with interleave.acquire [OF i(1)] i(2) Acquire show ?thesis by blast
  next
    case (Release l)
    with interleave.release [OF i(1)] i(2) show ?thesis by blast
  qed
  then show ?thesis by (simp add: stuck_def)
qed

text \<open>Where none can, an operation waits for a lock another holds, which waits for one above it.\<close>

lemma waiting_climbs:
  fixes ts :: "'l::linorder task list"
  assumes "orderly ts" and "\<not> goes_on ts" and "t \<in> set ts" and "todo t \<noteq> []"
  obtains l u k where "wanted (todo t) = Some l" and "u \<in> set ts" and "wanted (todo u) = Some k"
    and "l < k"
proof -
  have waits: "\<exists>l u. wanted (todo v) = Some l \<and> u \<in> set ts \<and> l \<in> snd ` set (held u)"
    if "v \<in> set ts" "todo v \<noteq> []" for v
    using assms(2) that unfolding goes_on_def by blast
  from waits [OF assms(3,4)] obtain l u b where l: "wanted (todo t) = Some l"
    and u: "u \<in> set ts" "(b, l) \<in> set (held u)" by auto
  have order: "in_order (held u) (todo u)" using assms(1) u(1) by (simp add: orderly_def)
  then have "todo u \<noteq> []" using u(2) by (cases "todo u") auto
  from waits [OF u(1) this] obtain k where k: "wanted (todo u) = Some k" by blast
  then have "l < k" using order u(2) by (elim wantedE) auto
  with l u(1) k show thesis by (rule that)
qed

lemma orderly_goes_on:
  fixes ts :: "'l::linorder task list"
  assumes "orderly ts" and "t \<in> set ts" and "todo t \<noteq> []"
  shows "goes_on ts"
proof (rule ccontr)
  assume no: "\<not> goes_on ts"
  let ?W = "{l. \<exists>t \<in> set ts. wanted (todo t) = Some l}"
  have climb: "\<exists>l u k. wanted (todo t) = Some l \<and> u \<in> set ts \<and> wanted (todo u) = Some k \<and> l < k"
    if "t \<in> set ts" "todo t \<noteq> []" for t
    by (rule waiting_climbs [OF assms(1) no that]) blast
  have "?W \<subseteq> (\<lambda>t. the (wanted (todo t))) ` set ts" by force
  then have finite: "finite ?W" by (rule finite_subset) simp
  from climb [OF assms(2,3)] have "?W \<noteq> {}" by blast
  with finite have "Max ?W \<in> ?W" by (rule Max_in)
  then obtain v where v: "v \<in> set ts" "wanted (todo v) = Some (Max ?W)" by blast
  from v(2) have "todo v \<noteq> []" by (elim wantedE) simp
  from climb [OF v(1) this] v(2) obtain u k where "u \<in> set ts" "wanted (todo u) = Some k" "Max ?W < k"
    by auto
  moreover from this(1,2) have "k \<in> ?W" by blast
  ultimately show False using Max_ge [OF finite, of k] by simp
qed

subsection \<open>Every step brings the end closer\<close>

definition remaining :: "'l task list \<Rightarrow> nat" where
  "remaining ts = (\<Sum>t \<leftarrow> ts. length (todo t))"

lemma remaining_update:
  "i < length ts \<Longrightarrow> remaining (ts[i := t]) + length (todo (ts ! i)) = remaining ts + length (todo t)"
proof (induction ts arbitrary: i)
  case (Cons u ts)
  then show ?case by (cases i) (simp_all add: remaining_def)
qed simp

lemma interleave_remaining: "interleave ts ts' \<Longrightarrow> remaining ts = Suc (remaining ts')"
proof (induction rule: interleave.induct)
  case (acquire i ts a l rest)
  with remaining_update [OF acquire(1), of "\<lparr>held = (a, l) # held (ts ! i), todo = rest\<rparr>"]
  show ?case by simp
next
  case (release i ts l rest)
  with remaining_update [OF release(1), of "\<lparr>held = drop_lock l (held (ts ! i)), todo = rest\<rparr>"]
  show ?case by simp
qed

lemma steps_remaining:
  "(interleave ^^ n) ts ts' \<Longrightarrow> orderly ts \<Longrightarrow> remaining ts = n + remaining ts' \<and> orderly ts'"
proof (induction n arbitrary: ts')
  case (Suc n)
  from Suc.prems(1) obtain us where us: "(interleave ^^ n) ts us" "interleave us ts'" by auto
  from Suc.IH [OF us(1) Suc.prems(2)] interleave_remaining [OF us(2)] interleave_orderly [OF us(2)]
  show ?case by simp
qed simp

lemma remaining_0: "remaining ts = 0 \<longleftrightarrow> (\<forall>t \<in> set ts. todo t = [])"
  by (simp add: remaining_def)

subsection \<open>The two repositories\<close>

text \<open>
  C20. The operations of the route repository come to an end: whatever operations run at the same
  time, sweeps included, and however their steps interleave, some operation can go on until all
  are over, which they are after as many steps as they have together.
\<close>

theorem route_repository_never_stuck:
  assumes "(interleave ^^ n) (map (\<lambda>call. task_of (route_steps call)) calls) ts"
  shows "n \<le> (\<Sum>call \<leftarrow> calls. length (route_steps call))
    \<and> (if n < (\<Sum>call \<leftarrow> calls. length (route_steps call)) then goes_on ts \<and> \<not> stuck ts
       else list_all (\<lambda>t. todo t = []) ts)"
proof -
  let ?start = "map (\<lambda>call. task_of (route_steps call)) calls"
  have "in_order [] (route_steps call)" for call
    by (cases call) (simp_all add: drop_lock_def less_route_lock_def)
  then have "orderly ?start" by (auto simp: orderly_def task_of_def)
  from steps_remaining [OF assms this] have ts: "remaining ?start = n + remaining ts" "orderly ts" by simp_all
  have total: "remaining ?start = (\<Sum>call \<leftarrow> calls. length (route_steps call))"
    by (simp add: remaining_def task_of_def comp_def)
  show ?thesis
  proof (cases "remaining ts = 0")
    case True
    with ts(1) total show ?thesis by (simp add: remaining_0 list_all_iff)
  next
    case False
    then have "goes_on ts" using orderly_goes_on [OF ts(2)] by (auto simp: remaining_0)
    with False ts(1) total show ?thesis by (simp add: goes_on_not_stuck)
  qed
qed

theorem route_repository_never_stuck_witness:
  "goes_on [\<lparr>held = [(Exclusive, Routes_Lock)], todo = [Acquire Exclusive Conversations_Lock,
       Release Conversations_Lock, Release Routes_Lock]\<rparr>,
     task_of (route_steps Get_Conversation)]"
proof -
  let ?ts = "map (\<lambda>call. task_of (route_steps call)) [Set_Route False, Get_Conversation]"
  have "interleave ?ts (?ts[0 := \<lparr>held = (Exclusive, Routes_Lock) # held (?ts ! 0),
      todo = [Acquire Exclusive Conversations_Lock, Release Conversations_Lock, Release Routes_Lock]\<rparr>])"
    by (rule interleave.acquire) (simp_all add: task_of_def grantable_def)
  then have "(interleave ^^ 1) ?ts [\<lparr>held = [(Exclusive, Routes_Lock)], todo = [Acquire Exclusive
      Conversations_Lock, Release Conversations_Lock, Release Routes_Lock]\<rparr>,
     task_of (route_steps Get_Conversation)]"
    by (simp only: relpowp_1) (simp add: task_of_def)
  from route_repository_never_stuck [OF this] show ?thesis by simp
qed

lemma stuck_two:
  assumes "todo s = Acquire a l # p" and "todo t = Acquire b k # q"
    and "\<not> grantable a l [s, t]" and "\<not> grantable b k [s, t]"
  shows "stuck [s, t]"
proof -
  have "\<not> interleave [s, t] ts'" for ts'
  proof
    assume "interleave [s, t] ts'"
    then show False
      by (cases rule: interleave.cases) (use assms in \<open>auto simp: less_Suc_eq\<close>)
  qed
  with assms(1) show ?thesis by (simp add: stuck_def)
qed

text \<open>Two operations that take the same two locks in opposite orders.\<close>

lemma opposite_orders_stick:
  assumes "k \<noteq> l" and "a = Exclusive \<or> b' = Exclusive" and "a' = Exclusive \<or> b = Exclusive"
  shows "\<exists>ts. interleave\<^sup>*\<^sup>* [task_of (Acquire a k # Acquire a' l # p), task_of (Acquire b l # Acquire b' k # q)] ts
    \<and> stuck ts"
proof -
  let ?s = "task_of (Acquire a k # Acquire a' l # p)" and ?t = "task_of (Acquire b l # Acquire b' k # q)"
  let ?s' = "\<lparr>held = [(a, k)], todo = Acquire a' l # p\<rparr>" and ?t' = "\<lparr>held = [(b, l)], todo = Acquire b' k # q\<rparr>"
  have "interleave [?s, ?t] ([?s, ?t][0 := \<lparr>held = (a, k) # held ([?s, ?t] ! 0), todo = Acquire a' l # p\<rparr>])"
    by (rule interleave.acquire) (simp_all add: task_of_def grantable_def)
  then have first: "interleave [?s, ?t] [?s', ?t]" by (simp add: task_of_def)
  have "interleave [?s', ?t] ([?s', ?t][1 := \<lparr>held = (b, l) # held ([?s', ?t] ! 1), todo = Acquire b' k # q\<rparr>])"
    using assms(1) by (intro interleave.acquire) (simp_all add: task_of_def grantable_def)
  then have second: "interleave [?s', ?t] [?s', ?t']" by (simp add: task_of_def)
  have "interleave\<^sup>*\<^sup>* [?s, ?t] [?s', ?t']"
    by (rule converse_rtranclp_into_rtranclp, rule first, rule r_into_rtranclp, rule second)
  moreover have "stuck [?s', ?t']"
    using assms by (intro stuck_two) (auto simp: grantable_def)
  ultimately show ?thesis by blast
qed

text \<open>
  C36. The session repository can deadlock: a look-up of a client can come to a state in which it
  and the removal of a session, or it and the sweep, wait for each other for ever.
\<close>

theorem session_repository_can_deadlock:
  "(\<exists>ts. interleave\<^sup>*\<^sup>*
        [task_of (session_steps (Remove_Session True)), task_of (session_steps (Get_Client True))] ts
      \<and> stuck ts)
   \<and> (\<exists>ts. interleave\<^sup>*\<^sup>* [task_of (session_steps Sweep), task_of (session_steps (Get_Client True))] ts
      \<and> stuck ts)"
proof -
  have "session_steps (Remove_Session True) = Acquire Exclusive Sessions_Lock #
      Acquire Exclusive Clients_Lock # [Release Clients_Lock, Release Sessions_Lock]"
    "session_steps (Get_Client True) = Acquire Shared Clients_Lock #
      Acquire Shared Sessions_Lock # [Release Sessions_Lock, Release Clients_Lock]"
    "session_steps Sweep = Acquire Exclusive Sessions_Lock # Acquire Exclusive Clients_Lock #
      [Acquire Exclusive Controllers_Lock, Acquire Exclusive Proxies_Lock, Release Proxies_Lock,
       Release Controllers_Lock, Release Clients_Lock, Release Sessions_Lock]"
    by simp_all
  moreover note opposite_orders_stick [of Sessions_Lock Clients_Lock Exclusive Shared Exclusive Shared]
  ultimately show ?thesis by (simp only:) simp
qed

end
