(* ===== verification/Handler_Threads.thy ===== *)
theory Handler_Threads
  imports Controller_Runs
begin

section \<open>Handlers as threads\<close>

text \<open>
  In \<open>Services\<close> a handler is one program that runs to its end.  The server runs many at a time, and
  between two calls of a repository any other may go on.  Here a handler is a thread: a tree of
  atomic steps, one for each call of a repository, which keeps its locks for as long as it runs;
  \<^verbatim>\<open>set_session\<close> of the in-memory repository writes its index and its session under two
  locks in turn, and is two steps.  A step that does not touch the tables (the strategy
  consulted) may be interleaved too, which makes no difference.  Run alone, each thread is the
  handler.
\<close>

subsection \<open>Threads\<close>

datatype ('w, 'a, 'e) thread =
    Done "('a, 'e) outcome"
  | Step "'w \<Rightarrow> ('w, 'a, 'e) thread \<times> 'w"

primrec t_bind ::
  "('w, 'a, 'e) thread \<Rightarrow> ('a \<Rightarrow> ('w, 'b, 'e) thread) \<Rightarrow> ('w, 'b, 'e) thread" where
  "t_bind (Done r) k = (case r of Ok x \<Rightarrow> k x | Err e \<Rightarrow> Done (Err e) | Panic \<Rightarrow> Done Panic)"
| "t_bind (Step f) k = Step (\<lambda>w. map_prod (\<lambda>t. t_bind t k) id (f w))"

definition call :: "('w, 'a, 'e) prog \<Rightarrow> ('w, 'a, 'e) thread" where
  "call p = Step (\<lambda>w. map_prod Done id (p w))"

abbreviation t_ret :: "'a \<Rightarrow> ('w, 'a, 'e) thread" where
  "t_ret x \<equiv> Done (Ok x)"

abbreviation t_throw :: "'e \<Rightarrow> ('w, 'a, 'e) thread" where
  "t_throw e \<equiv> Done (Err e)"

definition t_ok_or :: "'e \<Rightarrow> 'a option \<Rightarrow> ('w, 'a, 'e) thread" where
  "t_ok_or e x = Done (case x of None \<Rightarrow> Err e | Some y \<Rightarrow> Ok y)"

definition t_unwrap :: "'a option \<Rightarrow> ('w, 'a, 'e) thread" where
  "t_unwrap x = Done (case x of None \<Rightarrow> Panic | Some y \<Rightarrow> Ok y)"

lemma t_ok_or_simps [simp]: "t_ok_or e None = t_throw e" "t_ok_or e (Some x) = t_ret x"
  by (simp_all add: t_ok_or_def)

lemma t_unwrap_simps [simp]: "t_unwrap None = Done Panic" "t_unwrap (Some x) = t_ret x"
  by (simp_all add: t_unwrap_def)

text \<open>A thread that no other interrupts.\<close>

primrec run_alone :: "('w, 'a, 'e) thread \<Rightarrow> ('w, 'a, 'e) prog" where
  "run_alone (Done r) = (\<lambda>w. (r, w))"
| "run_alone (Step f) = (\<lambda>w. case map_prod run_alone id (f w) of (p, w') \<Rightarrow> p w')"

lemma run_alone_call [simp]: "run_alone (call p) = p"
  by (simp add: call_def fun_eq_iff map_prod_def split: prod.splits)

lemma run_alone_bind [simp]: "run_alone (t_bind t k) = and_then (run_alone t) (\<lambda>x. run_alone (k x))"
proof (induction t)
  case (Done r)
  show ?case by (cases r) (simp_all add: fun_eq_iff prog_simps)
next
  case (Step f)
  show ?case
  proof
    fix w
    obtain t v where f: "f w = (t, v)" by fastforce
    have "run_alone (t_bind t k) = and_then (run_alone t) (\<lambda>x. run_alone (k x))"
      by (rule Step.IH [OF rangeI [of f w]]) (simp add: f fsts.simps)
    then show "run_alone (t_bind (Step f) k) w = and_then (run_alone (Step f)) (\<lambda>x. run_alone (k x)) w"
      by (simp add: f and_then_def)
  qed
qed

lemma run_alone_Done [simp]:
  "run_alone (t_ret x) = ret x" "run_alone (t_throw e) = throw e" "run_alone (Done Panic) = panic"
  by (simp_all add: fun_eq_iff prog_simps)

declare run_alone.simps(1) [simp del]

lemma run_alone_pure [simp]:
  "run_alone (t_ok_or e y) = ok_or e y" "run_alone (t_unwrap y) = unwrap_or_panic y"
  by (cases y; simp)+

subsection \<open>The handlers\<close>

definition check_session_t ::
  "('w, status) session_repository \<Rightarrow> string \<Rightarrow> ('w, unit, status) thread" where
  "check_session_t SR access_key =
     t_bind (call (sm_get_session SR access_key)) (\<lambda>found.
     t_bind (t_ok_or (mk_status Unauthenticated ''Invalid access key'') found) (\<lambda>_.
     t_ret ()))"

definition check_conversation_t ::
  "('w, status) route_manager \<Rightarrow> string \<Rightarrow> ('w, unit, status) thread" where
  "check_conversation_t rm conversation_id =
     t_bind (call (rm_get_conversation rm conversation_id)) (\<lambda>found.
     t_bind (t_ok_or (mk_status NotFound ''Invalid conversation'') found) (\<lambda>_.
     t_ret ()))"

definition auth_ping_t ::
  "('w, status) session_repository \<Rightarrow> socket_addr option \<Rightarrow> i64 \<Rightarrow> string \<Rightarrow>
     ('w, ping_response, status) thread" where
  "auth_ping_t SR remote_addr now_micros access_key =
     t_bind (t_ok_or (mk_status Internal ''Could not get client IP address'') remote_addr) (\<lambda>client_ip.
     t_bind (check_session_t SR access_key) (\<lambda>_.
     t_bind (call (sm_get_session SR access_key)) (\<lambda>found.
     t_bind (t_unwrap found) (\<lambda>session.
     if ss_client_ip session \<noteq> client_ip
     then t_throw (mk_status Unauthenticated ''Invalid connection'')
     else t_ret \<lparr>presp_status = ''PONG'', presp_timestamp = now_micros\<rparr>))))"

text \<open>\<open>store\<close> stands for \<^verbatim>\<open>set_session\<close> of the repository, which may take more than one step.\<close>

definition session_of ::
  "string \<Rightarrow> string \<Rightarrow> component \<Rightarrow> socket_addr \<Rightarrow> connection_settings \<Rightarrow> session_info" where
  "session_of uuid uid component_type client_ip cs =
     \<lparr>ss_access_key = uuid, ss_uid = uid, ss_client_ip = client_ip,
      ss_on_port_number = cs_port cs, ss_on_ip_address = cs_ip cs,
      ss_component_type = u8_from_component component_type,
      ss_public_key = cs_certificate cs, ss_domain_name = cs_domain_name cs\<rparr>"

definition sm_set_session_t ::
  "(session_info \<Rightarrow> ('w, unit, 'e) thread) \<Rightarrow> string \<Rightarrow> string \<Rightarrow> component \<Rightarrow> socket_addr \<Rightarrow>
     connection_settings \<Rightarrow> ('w, string, 'e) thread" where
  "sm_set_session_t store uuid uid component_type client_ip cs =
     t_bind (store (session_of uuid uid component_type client_ip cs)) (\<lambda>_. t_ret uuid)"

definition auth_login_t ::
  "(session_info \<Rightarrow> ('w, unit, status) thread) \<Rightarrow> ('w, status) member_repository \<Rightarrow> string \<Rightarrow>
     socket_addr option \<Rightarrow> login_request \<Rightarrow> ('w, login_response, status) thread" where
  "auth_login_t store MR uuid remote_addr req =
     t_bind (t_ok_or (mk_status Internal ''Could not get client IP address'') remote_addr) (\<lambda>client_ip.
     if lr_uid req = [] \<or> lr_uid req = []
     then t_throw (mk_status InvalidArgument ''UID and PWD cannot be empty'')
     else
     t_bind (t_unwrap (component_from_i32 (lr_component_type req))) (\<lambda>component_type.
     if component_type = Controller
     then t_throw (mk_status InvalidArgument ''Invalid component type'')
     else
     t_bind (call (validate_credentials MR (lr_uid req) (lr_pwd req))) (\<lambda>valid.
     if valid
     then
       let cs = \<lparr>cs_ip = lr_on_ip req, cs_port = ucast (lr_on_port req),
                 cs_domain_name = lr_domain_name req, cs_certificate = lr_public_key req\<rparr>
       in t_bind (sm_set_session_t store uuid (lr_uid req) component_type client_ip cs) (\<lambda>access_key.
          t_ret \<lparr>lresp_access_key = access_key, lresp_message = ''Login successful''\<rparr>)
     else t_throw (mk_status Unauthenticated ''Invalid credentials''))))"

definition auth_logout_t ::
  "('w, status) session_repository \<Rightarrow> string \<Rightarrow> ('w, unit, status) thread" where
  "auth_logout_t SR access_key =
     t_bind (check_session_t SR access_key) (\<lambda>_.
     t_bind (call (sm_remove_session SR access_key)) (\<lambda>_.
     t_ret ()))"

definition info_status_t ::
  "('w, status) session_repository \<Rightarrow> string \<Rightarrow> string \<Rightarrow> ('w, status_response, status) thread" where
  "info_status_t SR version access_key =
     t_bind (check_session_t SR access_key) (\<lambda>_.
     t_bind (call (sm_count_proxies SR)) (\<lambda>proxies_count.
     t_bind (call (sm_count_clients SR)) (\<lambda>clients_count.
     t_bind (call (sm_count_controllers SR)) (\<lambda>controllers_count.
     t_ret \<lparr>sr_version = version,
            sr_connected_proxies = count_to_u32 proxies_count,
            sr_connected_clients = count_to_u32 clients_count,
            sr_connected_controllers = count_to_u32 controllers_count\<rparr>))))"

definition handle_route_t ::
  "('w, status) route_manager \<Rightarrow> string \<Rightarrow> string \<Rightarrow> session_info \<Rightarrow> bool \<Rightarrow>
     ('w, route_response, status) thread" where
  "handle_route_t rm uuid conversation_id session_info end_route =
     (let cs = to_connection_settings session_info
      in t_bind (call (rm_store_route rm uuid conversation_id cs end_route)) (\<lambda>stored.
         t_bind (t_ok_or (mk_status Internal ''Failed to store route'') stored) (\<lambda>nonce.
         t_ret \<lparr>rr_ip_address = ss_on_ip_address session_info,
                rr_port_number = ucast (ss_on_port_number session_info),
                rr_public_key = ss_public_key session_info,
                rr_domain_name = ss_domain_name session_info,
                rr_nonce = nonce,
                rr_end_route = end_route\<rparr>)))"

definition route_initialize_t ::
  "('w, status) session_repository \<Rightarrow> ('w, status) route_manager \<Rightarrow> string \<Rightarrow> string \<Rightarrow> string \<Rightarrow>
     ('w, string, status) thread" where
  "route_initialize_t SR rm uuid access_key init_to =
     t_bind (check_session_t SR access_key) (\<lambda>_.
     t_bind (call (sm_get_session SR access_key)) (\<lambda>found.
     t_bind (t_unwrap found) (\<lambda>session_info.
     let to = (if init_to = [] then CONTROLLER_UID else init_to)
     in t_bind (call (rm_initialize rm uuid (ss_uid session_info) to)) (\<lambda>created.
        t_ok_or (mk_status Internal ''Failed to initialize conversation'') created))))"

definition route_route_t ::
  "('w, status) session_repository \<Rightarrow> ('w, status) route_manager \<Rightarrow> string \<Rightarrow> string \<Rightarrow> string \<Rightarrow>
     ('w, route_response, status) thread" where
  "route_route_t SR rm uuid access_key conversation_id =
     t_bind (check_session_t SR access_key) (\<lambda>_.
     t_bind (check_conversation_t rm conversation_id) (\<lambda>_.
     t_bind (call (rm_get_conversation rm conversation_id)) (\<lambda>found.
     t_bind (t_unwrap found) (\<lambda>conversation.
     t_bind (call (rm_check_for_final_route rm conversation)) (\<lambda>final.
     if final
     then
       t_bind (call (sm_get_client SR (conv_to conversation))) (\<lambda>client.
         case client of
           Some client_session \<Rightarrow> handle_route_t rm uuid conversation_id client_session True
         | None \<Rightarrow>
             t_throw (mk_status NotFound
               ''Reached final route, no more routes available as no client found''))
     else
       t_bind (call (sm_get_proxies SR access_key)) (\<lambda>proxies.
         case proxies of
           None \<Rightarrow> t_throw (mk_status NotFound ''No proxies found'')
         | Some ps \<Rightarrow>
             t_bind (call (rm_get_next_route rm conversation ps)) (\<lambda>next_route.
               case next_route of
                 Some proxy_session \<Rightarrow> handle_route_t rm uuid conversation_id proxy_session False
               | None \<Rightarrow>
                   t_throw (mk_status NotFound
                     ''Next route wasn't found, no more routes available''))))))))"

definition redeem_route_t ::
  "('w, status) route_manager \<Rightarrow> string \<Rightarrow> string \<Rightarrow> ('w, route option, status) thread" where
  "redeem_route_t rm conversation_id nonce =
     t_bind (call (repo_get_route (rm_repository rm) conversation_id nonce)) (\<lambda>found.
       case found of
         Some route \<Rightarrow>
           t_bind (call (repo_remove_route (rm_repository rm) nonce)) (\<lambda>_. t_ret (Some route))
       | None \<Rightarrow> t_ret None)"

definition route_redeem_t ::
  "('w, status) session_repository \<Rightarrow> ('w, status) route_manager \<Rightarrow> string \<Rightarrow> string \<Rightarrow> string \<Rightarrow>
     ('w, string option, status) thread" where
  "route_redeem_t SR rm access_key conversation_id nonce =
     t_bind (check_session_t SR access_key) (\<lambda>_.
     t_bind (check_conversation_t rm conversation_id) (\<lambda>_.
     t_bind (redeem_route_t rm conversation_id nonce) (\<lambda>redeemed.
       case redeemed of
         Some route \<Rightarrow>
           if rt_end_route route
           then
             t_bind (call (rm_get_conversation rm conversation_id)) (\<lambda>found.
             t_bind (t_unwrap found) (\<lambda>conversation.
             t_bind (call (rm_finalize rm conversation_id)) (\<lambda>_.
             t_ret (Some (conv_from conversation)))))
           else t_ret None
       | None \<Rightarrow> t_throw (mk_status Internal ''Failed to redeem route''))))"

lemmas thread_defs =
  auth_ping_t_def auth_logout_t_def
  info_status_t_def handle_route_t_def route_initialize_t_def route_route_t_def redeem_route_t_def
  route_redeem_t_def

subsection \<open>A request as a thread\<close>

text \<open>\<^verbatim>\<open>set_session\<close> of the in-memory repository: the index first, then the session.\<close>

definition set_session_index :: "session_info \<Rightarrow> (world, unit, 'e) prog" where
  "set_session_index s =
     and_then (unwrap_or_panic (component_from_u8 (ss_component_type s))) (\<lambda>c.
     on_sessions (total (\<lambda>t. ((), index_session c (ss_uid s) (ss_access_key s) t))))"

definition set_session_entry :: "session_info \<Rightarrow> (world, unit, 'e) prog" where
  "set_session_entry s w =
     on_sessions (total (\<lambda>t. ((), t\<lparr>st_sessions := (st_sessions t)
       (ss_access_key s \<mapsto> wrapper_new (clock w) s SESSIONS_EXPIRATION_TIME)\<rparr>))) w"

definition inmem_set_session_t :: "session_info \<Rightarrow> (world, unit, 'e) thread" where
  "inmem_set_session_t s = t_bind (call (set_session_index s)) (\<lambda>_. call (set_session_entry s))"

lemma set_session_steps [repo_simps]:
  "component_from_u8 (ss_component_type s) = Some c \<Longrightarrow> set_session_index s w =
     (Ok (), w\<lparr>session_repo := index_session c (ss_uid s) (ss_access_key s) (session_repo w)\<rparr>)"
  "component_from_u8 (ss_component_type s) = None \<Longrightarrow> set_session_index s w = (Panic, w)"
  "set_session_entry s w = (Ok (), w\<lparr>session_repo := (session_repo w)\<lparr>st_sessions :=
     (st_sessions (session_repo w))(ss_access_key s \<mapsto> wrapper_new (clock w) s SESSIONS_EXPIRATION_TIME)\<rparr>\<rparr>)"
  by (simp_all add: set_session_index_def set_session_entry_def on_sessions_def zoom_def prog_simps)

definition t_map :: "('a \<Rightarrow> 'b) \<Rightarrow> ('w, 'a, 'e) thread \<Rightarrow> ('w, 'b, 'e) thread" where
  "t_map f t = t_bind t (\<lambda>x. t_ret (f x))"

fun serve_t :: "string \<Rightarrow> surroundings \<Rightarrow> request \<Rightarrow> (world, reply, status) thread" where
  "serve_t version su (Login req) =
     t_map Logged_In
       (auth_login_t inmem_set_session_t inmemory_member_repository (su_uuid su) (su_remote_addr su) req)"
| "serve_t version su (Logout k) =
     t_map (\<lambda>_. Logged_Out) (auth_logout_t (inmemory_session_repository (su_porder su)) k)"
| "serve_t version su (Ping k) =
     t_map Pong
       (auth_ping_t (inmemory_session_repository (su_porder su)) (su_remote_addr su)
          (su_now_micros su) k)"
| "serve_t version su (Initialize k to) =
     t_map Initialized
       (route_initialize_t (inmemory_session_repository (su_porder su))
          (new_route_manager inmemory_route_repository (su_pick su)) (su_uuid su) k to)"
| "serve_t version su (Next_Route k c) =
     t_map Hop
       (route_route_t (inmemory_session_repository (su_porder su))
          (new_route_manager inmemory_route_repository (su_pick su)) (su_uuid su) k c)"
| "serve_t version su (Redeem k c n) =
     t_map Redeemed
       (route_redeem_t (inmemory_session_repository (su_porder su))
          (new_route_manager inmemory_route_repository (su_pick su)) k c n)"
| "serve_t version su (Status k) =
     t_map Status_Is (info_status_t (inmemory_session_repository (su_porder su)) version k)"

lemma and_then_cong: "(\<And>x. k x = l x) \<Longrightarrow> and_then p k = and_then p l"
  by (simp add: fun_eq_iff and_then_def split: prod.splits outcome.splits)

lemma run_alone_if [simp]: "run_alone (if b then t else u) = (if b then run_alone t else run_alone u)"
  by simp

lemma run_alone_guards [simp]:
  "run_alone (check_session_t SR k) = check_session SR k"
  "run_alone (check_conversation_t rm c) = check_conversation rm c"
  by (simp_all add: check_session_t_def check_conversation_t_def check_session_def check_conversation_def)

lemma run_alone_set_session:
  "run_alone (inmem_set_session_t s) = repo_set_session (inmemory_session_repository porder) s"
proof
  fix w
  show "run_alone (inmem_set_session_t s) w = repo_set_session (inmemory_session_repository porder) s w"
    by (cases "component_from_u8 (ss_component_type s)")
       (simp_all add: inmem_set_session_t_def and_then_def repo_simps put_session_def)
qed

lemma run_alone_login:
  assumes "\<And>s. run_alone (store s) = repo_set_session SR s"
  shows "run_alone (auth_login_t store MR uuid addr req) = auth_login SR MR uuid addr req"
proof -
  have "run_alone (sm_set_session_t store uuid uid ct ip cs) = sm_set_session SR uuid uid ct ip cs"
    for uid ct ip cs
    by (simp add: sm_set_session_t_def assms session_of_def sm_set_session_def)
  then show ?thesis
    by (auto simp: auth_login_t_def auth_login_def Let_def intro!: and_then_cong)
qed

lemma run_alone_handlers [simp]:
  "run_alone (auth_ping_t SR addr now k) = auth_ping SR addr now k"
  "run_alone (auth_logout_t SR k) = auth_logout SR k"
  "run_alone (info_status_t SR version k) = info_status SR version k"
  "run_alone (handle_route_t rm uuid c s e) = handle_route rm uuid c s e"
  "run_alone (route_initialize_t SR rm uuid k to) = route_initialize SR rm uuid k to"
  "run_alone (redeem_route_t rm c n) = rm_redeem_route rm c n"
  by (auto simp: thread_defs service_defs rm_redeem_route_def Let_def intro!: and_then_cong
      split: option.splits)

lemma run_alone_route [simp]:
  "run_alone (route_route_t SR rm uuid k c) = route_route SR rm uuid k c"
  by (auto simp: route_route_t_def route_route_def intro!: and_then_cong split: option.splits)

lemma run_alone_redeem [simp]:
  "run_alone (route_redeem_t SR rm k c n) = route_redeem SR rm k c n"
  by (auto simp: route_redeem_t_def route_redeem_def intro!: and_then_cong split: option.splits)

text \<open>
  A request served without interruption is served as the handler says: the thread of every
  request, run alone, ends as the program of \<open>Controller\<close> does, with the same tables.
\<close>

theorem threads_run_alone: "run_alone (serve_t version su rq) = serve version su rq"
proof (cases rq)
  case (Login req)
  then show ?thesis
    by (simp add: t_map_def map_ok_def run_alone_login [OF run_alone_set_session [of _ "su_porder su"]])
qed (simp_all add: t_map_def map_ok_def)

end
