(* ===== verification/Interleavings.thy ===== *)
theory Interleavings
  imports Handler_Threads Controller_Properties
begin

section \<open>Requests served at the same time\<close>

text \<open>
  Any number of requests arrive at any time, and their threads, the sweeps, the clock and the
  registration of the controller take turns in any order.  What holds of the tables then is proved
  thread by thread: \<open>keeps I Q t\<close> says that every step of \<open>t\<close> preserves \<open>I\<close>, whatever the others, who
  preserve it too, did to the tables before, and that \<open>t\<close> ends well only with a value in \<open>Q\<close>.
\<close>

subsection \<open>Interleavings\<close>

text \<open>
  A pool holds each request with its thread; \<open>U\<close> is the set of the UUIDs drawn.  The loop that
  registers the controller makes the two writes of a session of its own in each round; here they may
  come in any order and number.
\<close>

definition own_session :: "deployment \<Rightarrow> string \<Rightarrow> session_info option" where
  "own_session d u =
     (let cs = descriptor_connection_settings (dep_descriptor d)
      in map_option (\<lambda>addr. session_of u (own_uid d) Controller addr cs)
           (get_public_socket_address (dep_parse_addr d) cs))"

lemma registered_run:
  "registered d u =
     (case own_session d u of None \<Rightarrow> panic | Some s \<Rightarrow> run_alone (inmem_set_session_t s))"
proof (cases "get_public_socket_address (dep_parse_addr d) (descriptor_connection_settings (dep_descriptor d))")
  case None
  then show ?thesis by (simp add: registered_def register_self_def own_session_def Let_def prog_simps fun_eq_iff)
next
  case (Some addr)
  then show ?thesis
    by (simp add: registered_def register_self_def own_session_def Let_def prog_simps fun_eq_iff
        sm_set_session_def session_of_def own_uid_def run_alone_set_session [of _ "\<lambda>_. []"] and_then_def
        split: prod.splits outcome.splits)
qed

type_synonym pool = "(request \<times> (world, reply, status) thread) list"

inductive interleaved :: "deployment \<Rightarrow> string set \<Rightarrow> pool \<times> world \<Rightarrow> pool \<times> world \<Rightarrow> bool"
  for d :: deployment and U :: "string set" where
  arrive: "su_uuid su \<in> U \<Longrightarrow>
    interleaved d U (ts, w) (ts @ [(rq, serve_t (descriptor_version (dep_descriptor d)) su rq)], w)"
| resume: "i < length ts \<Longrightarrow> ts ! i = (rq, Step f) \<Longrightarrow> f w = (t, w') \<Longrightarrow>
    interleaved d U (ts, w) (ts[i := (rq, t)], w')"
| tick: "interleaved d U (ts, w) (ts, w\<lparr>clock := clock w + n\<rparr>)"
| sweep_sessions: "enumerates order (st_sessions (session_repo w)) \<Longrightarrow>
    interleaved d U (ts, w)
      (ts, w\<lparr>session_repo := kill_expired_sessions (clock w) order (session_repo w)\<rparr>)"
| sweep_routes: "interleaved d U (ts, w)
    (ts, w\<lparr>route_repo := kill_expired_routes (clock w) (route_repo w)\<rparr>)"
| register_index: "u \<in> U \<Longrightarrow> own_session d u = Some s \<Longrightarrow>
    set_session_index s w = ((r, w') :: (unit, string) outcome \<times> world) \<Longrightarrow> interleaved d U (ts, w) (ts, w')"
| register_entry: "u \<in> U \<Longrightarrow> own_session d u = Some s \<Longrightarrow>
    set_session_entry s w = ((r, w') :: (unit, string) outcome \<times> world) \<Longrightarrow> interleaved d U (ts, w) (ts, w')"

lemma interleaved_mono: "interleaved d U x y \<Longrightarrow> U \<subseteq> V \<Longrightarrow> interleaved d V x y"
  by (induction rule: interleaved.induct) (auto intro: interleaved.intros)

text \<open>Several steps of one thread in a row.\<close>

fun advance :: "nat \<Rightarrow> ('w, 'a, 'e) thread \<times> 'w \<Rightarrow> ('w, 'a, 'e) thread \<times> 'w" where
  "advance 0 x = x"
| "advance (Suc n) (Step f, w) = advance n (f w)"
| "advance (Suc n) (Done r, w) = (Done r, w)"

lemma advance_interleaved:
  "i < length ts \<Longrightarrow> ts ! i = (rq, u) \<Longrightarrow> advance n (u, w) = (t, w') \<Longrightarrow>
   (interleaved d U)\<^sup>*\<^sup>* (ts, w) (ts[i := (rq, t)], w')"
proof (induction n arbitrary: ts u w)
  case 0
  then show ?case by (metis advance.simps(1) list_update_id prod.inject rtranclp.rtrancl_refl)
next
  case (Suc n)
  show ?case
  proof (cases u)
    case (Done r)
    with Suc.prems show ?thesis
      by (metis advance.simps(3) list_update_id prod.inject rtranclp.rtrancl_refl)
  next
    case (Step f)
    obtain t1 v where f: "f w = (t1, v)" by fastforce
    have "interleaved d U (ts, w) (ts[i := (rq, t1)], v)"
      by (rule interleaved.resume [OF Suc.prems(1) Suc.prems(2) [unfolded Step] f])
    moreover have "(interleaved d U)\<^sup>*\<^sup>* (ts[i := (rq, t1)], v) ((ts[i := (rq, t1)])[i := (rq, t)], w')"
      by (rule Suc.IH) (use Suc.prems Step f in simp_all)
    ultimately show ?thesis by (simp add: converse_rtranclp_into_rtranclp)
  qed
qed

subsection \<open>What a thread keeps\<close>

primrec keeps :: "('w \<Rightarrow> bool) \<Rightarrow> ('a \<Rightarrow> bool) \<Rightarrow> ('w, 'a, 'e) thread \<Rightarrow> bool" where
  "keeps I Q (Done r) \<longleftrightarrow> (\<forall>x. r = Ok x \<longrightarrow> Q x)"
| "keeps I Q (Step f) \<longleftrightarrow>
     (\<forall>w. I w \<longrightarrow> (case map_prod (keeps I Q) I (f w) of (k, i) \<Rightarrow> k \<and> i))"

lemma keeps_Step:
  "keeps I Q (Step f) \<longleftrightarrow> (\<forall>w t w'. I w \<and> f w = (t, w') \<longrightarrow> keeps I Q t \<and> I w')"
  by (fastforce simp: map_prod_def split: prod.splits)

declare keeps.simps(2) [simp del]

lemma keeps_bind:
  assumes "\<And>x. Q x \<Longrightarrow> keeps I R (k x)"
  shows "keeps I Q t \<Longrightarrow> keeps I R (t_bind t k)"
proof (induction t)
  case (Done r)
  then show ?case using assms by (cases r) auto
next
  case (Step f)
  have "keeps I R (t_bind t k) \<and> I w'" if "I w" "f w = (t, w')" for w t w'
    using Step.IH [OF rangeI [of f w], of t] Step.prems that
    by (auto simp: keeps_Step fsts.simps)
  then show ?case by (fastforce simp: keeps_Step map_prod_def split: prod.splits)
qed

lemma keeps_call:
  assumes "\<And>w r w'. I w \<Longrightarrow> p w = (r, w') \<Longrightarrow> I w' \<and> (\<forall>x. r = Ok x \<longrightarrow> Q x)"
  shows "keeps I Q (call p)"
  using assms by (fastforce simp: call_def keeps_Step map_prod_def split: prod.splits)

lemma keeps_weaken: "keeps I Q t \<Longrightarrow> (\<And>x. Q x \<Longrightarrow> R x) \<Longrightarrow> keeps I R t"
proof (induction t)
  case (Step f)
  have "keeps I R t \<and> I w'" if "I w" "f w = (t, w')" for w t w'
    using Step.IH [OF rangeI [of f w], of t] Step.prems that
    by (auto simp: keeps_Step fsts.simps)
  then show ?case unfolding keeps_Step by blast
qed simp

lemma keeps_pure [simp]:
  "keeps I Q (t_ok_or e x) \<longleftrightarrow> (\<forall>y. x = Some y \<longrightarrow> Q y)"
  "keeps I Q (t_unwrap x) \<longleftrightarrow> (\<forall>y. x = Some y \<longrightarrow> Q y)"
  by (cases x; simp)+

lemma keeps_ok_or_bind:
  "(\<And>y. x = Some y \<Longrightarrow> keeps I R (k y)) \<Longrightarrow> keeps I R (t_bind (t_ok_or e x) k)"
  by (cases x) simp_all

lemma keeps_unwrap_bind:
  "(\<And>y. x = Some y \<Longrightarrow> keeps I R (k y)) \<Longrightarrow> keeps I R (t_bind (t_unwrap x) k)"
  by (cases x) simp_all

subsection \<open>Invariants of a pool\<close>

text \<open>
  An invariant of the tables that every request keeps, with a bound on its reply, and the sweeps, the
  clock and the registration keep too, holds in every interleaving.
\<close>

locale pool_invariant =
  fixes d :: deployment
    and U :: "string set"
    and I :: "world \<Rightarrow> bool"
    and Q :: "request \<Rightarrow> reply \<Rightarrow> bool"
  assumes request: "su_uuid su \<in> U \<Longrightarrow> keeps I (Q rq) (serve_t version su rq)"
    and tick: "I w \<Longrightarrow> I (w\<lparr>clock := t\<rparr>)"
    and sweep_sessions: "I w \<Longrightarrow> enumerates order (st_sessions (session_repo w)) \<Longrightarrow>
      I (w\<lparr>session_repo := kill_expired_sessions now order (session_repo w)\<rparr>)"
    and sweep_routes: "I w \<Longrightarrow> I (w\<lparr>route_repo := kill_expired_routes now (route_repo w)\<rparr>)"
    and register_index: "I w \<Longrightarrow> u \<in> U \<Longrightarrow> own_session d u = Some s \<Longrightarrow>
      set_session_index s w = ((r, w') :: (unit, string) outcome \<times> world) \<Longrightarrow> I w'"
    and register_entry: "I w \<Longrightarrow> u \<in> U \<Longrightarrow> own_session d u = Some s \<Longrightarrow>
      set_session_entry s w = ((r, w') :: (unit, string) outcome \<times> world) \<Longrightarrow> I w'"

context pool_invariant begin

definition pool_ok :: "pool \<times> world \<Rightarrow> bool" where
  "pool_ok x \<longleftrightarrow> I (snd x) \<and> (\<forall>(rq, t) \<in> set (fst x). keeps I (Q rq) t)"

lemma step_pool_ok: "interleaved d U x y \<Longrightarrow> pool_ok x \<Longrightarrow> pool_ok y"
proof (induction rule: interleaved.induct)
  case (arrive su ts w rq)
  then show ?case by (auto simp: pool_ok_def request)
next
  case (resume i ts rq f w t w')
  have "ts ! i \<in> set ts" by (rule nth_mem) fact
  with resume have "keeps I (Q rq) (Step f)" "I w" by (auto simp: pool_ok_def)
  with resume(3) have "keeps I (Q rq) t" "I w'" unfolding keeps_Step by blast+
  with resume.prems show ?case
    using set_update_subset_insert [of ts i "(rq, t)"] by (auto simp: pool_ok_def)
next
  case (register_index u s w r w' ts)
  then show ?case using pool_invariant.register_index [OF pool_invariant_axioms] by (auto simp: pool_ok_def)
next
  case (register_entry u s w r w' ts)
  then show ?case using pool_invariant.register_entry [OF pool_invariant_axioms] by (auto simp: pool_ok_def)
qed (simp_all add: pool_ok_def tick sweep_sessions sweep_routes)

lemma always_in_pool:
  assumes "(interleaved d U)\<^sup>*\<^sup>* ([], w0) (ts, w)" and "I w0"
  shows "I w" and "(rq, Done (Ok r)) \<in> set ts \<Longrightarrow> Q rq r"
proof -
  have "pool_ok ([], w0)" using assms(2) by (simp add: pool_ok_def)
  with assms(1) have "pool_ok (ts, w)"
    by (induction rule: rtranclp_induct) (blast intro: step_pool_ok)+
  then show "I w" and "(rq, Done (Ok r)) \<in> set ts \<Longrightarrow> Q rq r" by (auto simp: pool_ok_def)
qed

end

subsection \<open>What the handlers keep\<close>

text \<open>The repositories the handlers use.\<close>

abbreviation tables_SR :: "proxy_order \<Rightarrow> (world, status) session_repository" where
  "tables_SR porder \<equiv> inmemory_session_repository porder"

abbreviation tables_MR :: "(world, status) member_repository" where
  "tables_MR \<equiv> inmemory_member_repository"

abbreviation tables_RR :: "(world, status) route_repository" where
  "tables_RR \<equiv> inmemory_route_repository"

abbreviation tables_RM :: "(nat list \<Rightarrow> nat option) \<Rightarrow> (world, status) route_manager" where
  "tables_RM pick \<equiv> new_route_manager inmemory_route_repository pick"

text \<open>
  An invariant that each call of a repository keeps.  \<open>L\<close> is what is known of the users of sessions
  and conversations found, and must be known of those stored; \<open>U\<close> the UUIDs that may be drawn.
\<close>

locale table_invariant =
  fixes I :: "world \<Rightarrow> bool"
    and L :: "string \<Rightarrow> bool"
    and U :: "string set"
  assumes get_session: "keeps I (\<lambda>found. \<forall>s. found = Some s \<longrightarrow> L (ss_uid s))
      (call (sm_get_session (tables_SR porder) k))"
    and set_session_index: "L (ss_uid s) \<Longrightarrow>
      keeps I (\<lambda>_. True) (call (set_session_index s :: (world, unit, status) prog))"
    and set_session_entry: "L (ss_uid s) \<Longrightarrow> component_from_u8 (ss_component_type s) = Some ct \<Longrightarrow>
      keeps I (\<lambda>_. True) (call (set_session_entry s :: (world, unit, status) prog))"
    and remove_session: "keeps I (\<lambda>_. True)
      (call (sm_remove_session (tables_SR porder) k))"
    and get_client: "keeps I (\<lambda>_. True) (call (sm_get_client (tables_SR porder) u))"
    and get_proxies: "keeps I (\<lambda>_. True) (call (sm_get_proxies (tables_SR porder) k))"
    and count_proxies: "keeps I (\<lambda>_. True) (call (sm_count_proxies (tables_SR porder)))"
    and count_clients: "keeps I (\<lambda>_. True) (call (sm_count_clients (tables_SR porder)))"
    and count_controllers: "keeps I (\<lambda>_. True)
      (call (sm_count_controllers (tables_SR porder)))"
    and validate: "keeps I (\<lambda>valid. valid \<longrightarrow> L u)
      (call (validate_credentials tables_MR u p))"
    and get_conversation: "keeps I (\<lambda>found. \<forall>x. found = Some x \<longrightarrow> L (conv_from x))
      (call (rm_get_conversation (tables_RM pick) c))"
    and initialize: "L u \<Longrightarrow> keeps I (\<lambda>_. True)
      (call (rm_initialize (tables_RM pick) uuid u to))"
    and finalize: "keeps I (\<lambda>_. True)
      (call (rm_finalize (tables_RM pick) c))"
    and store_route: "uuid \<in> U \<Longrightarrow> keeps I (\<lambda>_. True)
      (call (rm_store_route (tables_RM pick) uuid c cs e))"
    and get_route: "keeps I (\<lambda>_. True) (call (repo_get_route tables_RR c n))"
    and remove_route: "keeps I (\<lambda>_. True) (call (repo_remove_route tables_RR n))"
    and final_route: "keeps I (\<lambda>_. True)
      (call (rm_check_for_final_route (tables_RM pick) x))"
    and next_route: "keeps I (\<lambda>_. True)
      (call (rm_get_next_route (tables_RM pick) x ps))"

text \<open>The strategies do not touch the tables.\<close>

lemma strategy_calls:
  "keeps I (\<lambda>_. True) (call (rm_check_for_final_route (tables_RM pick) x))"
  "keeps I (\<lambda>_. True) (call (rm_get_next_route (tables_RM pick) x ps))"
  by (rule keeps_call, auto simp: rm_check_for_final_route_def rm_get_next_route_def
        random_next_route_def Let_def prog_simps split: if_splits)+

lemmas keeps_seq = keeps_bind [rotated]

context table_invariant begin

lemma kept_guards:
  "keeps I (\<lambda>_. True) (check_session_t (tables_SR porder) k)"
  "keeps I (\<lambda>_. True)
     (check_conversation_t (tables_RM pick) c)"
  unfolding check_session_t_def check_conversation_t_def
  by (rule keeps_seq [OF get_session] keeps_seq [OF get_conversation],
      rule keeps_ok_or_bind, simp)+

lemma kept_handle_route:
  "uuid \<in> U \<Longrightarrow> keeps I (\<lambda>_. True)
     (handle_route_t (tables_RM pick) uuid c s e)"
  unfolding handle_route_t_def Let_def
  by (rule keeps_seq [OF store_route], assumption, rule keeps_ok_or_bind, simp)

lemma kept_redeem_route:
  "keeps I (\<lambda>_. True)
     (redeem_route_t (tables_RM pick) c n)"
  unfolding redeem_route_t_def new_route_manager_sel
  by (rule keeps_seq [OF get_route])
     (auto split: option.splits intro: keeps_seq [OF remove_route])

lemma kept_ping:
  "keeps I (\<lambda>_. True) (auth_ping_t (tables_SR porder) addr now k)"
  unfolding auth_ping_t_def
  by (rule keeps_ok_or_bind, rule keeps_seq [OF kept_guards(1)], rule keeps_seq [OF get_session],
      rule keeps_unwrap_bind) simp

lemma kept_logout:
  "keeps I (\<lambda>_. True) (auth_logout_t (tables_SR porder) k)"
  unfolding auth_logout_t_def
  by (rule keeps_seq [OF kept_guards(1)], rule keeps_seq [OF remove_session]) simp

lemma kept_login:
  "keeps I (\<lambda>_. True)
     (auth_login_t inmem_set_session_t tables_MR uuid addr req)"
proof -
  have accepted: "keeps I (\<lambda>_. True)
      (t_bind (sm_set_session_t inmem_set_session_t uuid (lr_uid req) c ip cs) (\<lambda>key. t_ret (f key))
        :: (world, login_response, status) thread)"
    if "L (lr_uid req)" for c ip cs f
  proof -
    let ?s = "session_of uuid (lr_uid req) c ip cs"
    have s: "L (ss_uid ?s)" "component_from_u8 (ss_component_type ?s) = Some c"
      by (simp_all add: session_of_def that)
    have "keeps I (\<lambda>_. True) (inmem_set_session_t ?s :: (world, unit, status) thread)"
      unfolding inmem_set_session_t_def
      by (rule keeps_seq [OF set_session_index [OF s(1)]], rule set_session_entry [OF s])
    then have "keeps I (\<lambda>_. True)
        (sm_set_session_t inmem_set_session_t uuid (lr_uid req) c ip cs :: (world, string, status) thread)"
      unfolding sm_set_session_t_def by (rule keeps_seq) simp
    then show ?thesis by (rule keeps_seq) simp
  qed
  show ?thesis
    unfolding auth_login_t_def Let_def
    by (rule keeps_ok_or_bind) (auto intro!: keeps_unwrap_bind keeps_seq [OF validate] accepted)
qed

lemma kept_status:
  "keeps I (\<lambda>_. True) (info_status_t (tables_SR porder) version k)"
  unfolding info_status_t_def
  by (rule keeps_seq [OF kept_guards(1)], rule keeps_seq [OF count_proxies],
      rule keeps_seq [OF count_clients], rule keeps_seq [OF count_controllers]) simp

lemma kept_initialize_request:
  "keeps I (\<lambda>_. True)
     (route_initialize_t (tables_SR porder)
        (tables_RM pick) uuid k to)"
  unfolding route_initialize_t_def Let_def
  by (rule keeps_seq [OF kept_guards(1)], rule keeps_seq [OF get_session],
      rule keeps_unwrap_bind, rule keeps_seq [OF initialize]) simp_all

lemma kept_route_request:
  "uuid \<in> U \<Longrightarrow> keeps I (\<lambda>_. True)
     (route_route_t (tables_SR porder)
        (tables_RM pick) uuid k c)"
  unfolding route_route_t_def
  by (rule keeps_seq [OF kept_guards(1)], rule keeps_seq [OF kept_guards(2)],
      rule keeps_seq [OF get_conversation], rule keeps_unwrap_bind,
      rule keeps_seq [OF final_route])
     (auto intro!: keeps_seq [OF get_client] keeps_seq [OF get_proxies]
       keeps_seq [OF next_route] kept_handle_route split: option.splits)

lemma kept_redeem_request:
  "keeps I (\<lambda>sender. \<forall>u. sender = Some u \<longrightarrow> L u)
     (route_redeem_t (tables_SR porder)
        (tables_RM pick) k c n)"
proof -
  have final: "keeps I (\<lambda>sender. \<forall>u. sender = Some u \<longrightarrow> L u)
      (t_bind (call (rm_finalize (tables_RM pick) c)) (\<lambda>_.
         t_ret (Some (conv_from x))))" if "L (conv_from x)" for x
    by (rule keeps_seq [OF finalize]) (simp add: that)
  show ?thesis
    unfolding route_redeem_t_def
    by (rule keeps_seq [OF kept_guards(1)], rule keeps_seq [OF kept_guards(2)],
        rule keeps_seq [OF kept_redeem_route])
       (auto intro!: keeps_seq [OF get_conversation] keeps_unwrap_bind final split: option.splits)
qed

lemma kept_request:
  assumes "su_uuid su \<in> U"
  shows "keeps I (\<lambda>r. \<forall>u. r = Redeemed (Some u) \<longrightarrow> L u) (serve_t version su rq)"
  by (cases rq)
     (simp_all add: t_map_def,
      (rule keeps_seq kept_login kept_logout kept_ping kept_initialize_request
        kept_route_request [OF assms] kept_redeem_request kept_status | simp)+)

end

subsection \<open>The invariant of the tables\<close>

text \<open>The member table does not change; everything else is only constrained.\<close>

definition always :: "deployment \<Rightarrow> member_table \<Rightarrow> world \<Rightarrow> bool" where
  "always d M w \<longleftrightarrow> world_ok w \<and> member_repo w = M \<and> users_known d w"

definition listed :: "deployment \<Rightarrow> member_table \<Rightarrow> string \<Rightarrow> bool" where
  "listed d M u \<longleftrightarrow> M u \<noteq> None \<or> u = own_uid d"

lemma always_alt:
  "always d M w \<longleftrightarrow>
     sessions_keyed (session_repo w) \<and> route_wf (route_repo w) \<and> member_repo w = M \<and>
     (\<forall>k e. st_sessions (session_repo w) k = Some e \<longrightarrow> listed d M (ss_uid (ew_value e))) \<and>
     (\<forall>c e. rt_conversations (route_repo w) c = Some e \<longrightarrow> listed d M (conv_from (ew_value e)))"
proof -
  have "(\<forall>k s. live_session w k = Some s \<longrightarrow> listed d M (ss_uid s)) \<longleftrightarrow>
      (\<forall>k e. st_sessions (session_repo w) k = Some e \<longrightarrow> listed d M (ss_uid (ew_value e)))"
    "(\<forall>c x. stored_conversation w c = Some x \<longrightarrow> listed d M (conv_from x)) \<longleftrightarrow>
      (\<forall>c e. rt_conversations (route_repo w) c = Some e \<longrightarrow> listed d M (conv_from (ew_value e)))"
    by (fastforce simp: view_defs)+
  moreover have "member_repo w = M \<Longrightarrow> known_uid d w = listed d M"
    by (simp add: known_uid_def listed_def fun_eq_iff)
  ultimately show ?thesis by (auto simp: always_def world_ok_def users_known_def)
qed

named_theorems kept \<open>the calls of the handlers keep the tables in order\<close>

lemma kept_get_session [kept]:
  "keeps (always d M) (\<lambda>found. \<forall>s. found = Some s \<longrightarrow> listed d M (ss_uid s))
     (call (sm_get_session (tables_SR porder) k))"
  by (rule keeps_call)
     (auto simp: sm_get_session_def repo_simps always_alt get_session_sessions split: if_splits)

lemma index_keeps_always:
  assumes "always d M w" and "set_session_index s w = (r, w')"
  shows "always d M w'"
proof (cases "component_from_u8 (ss_component_type s)")
  case None
  with assms show ?thesis by (simp add: repo_simps)
next
  case (Some c)
  have "sessions_keyed (index_session c u k st) = sessions_keyed st" for u k st
    by (simp add: sessions_keyed_def)
  with assms Some show ?thesis by (auto simp: repo_simps always_alt)
qed

lemma entry_keeps_always:
  assumes "always d M w" and "listed d M (ss_uid s)" and "component_from_u8 (ss_component_type s) = Some c"
    and "set_session_entry s w = (r, w')"
  shows "always d M w'"
  using assms by (auto simp: repo_simps always_alt sessions_keyed_def split: if_splits)

lemma kept_set_session [kept]:
  "listed d M (ss_uid s) \<Longrightarrow> keeps (always d M) (\<lambda>_. True) (call (set_session_index s))"
  "listed d M (ss_uid s) \<Longrightarrow> component_from_u8 (ss_component_type s) = Some c \<Longrightarrow>
   keeps (always d M) (\<lambda>_. True) (call (set_session_entry s))"
  by (rule keeps_call, blast intro: index_keeps_always entry_keeps_always)+

lemma kept_remove_session [kept]:
  "keeps (always d M) (\<lambda>_. True) (call (sm_remove_session (tables_SR porder) k))"
  by (rule keeps_call)
     (auto simp: sm_remove_session_def repo_simps always_alt split: if_splits)

lemma kept_session_reads [kept]:
  "keeps (always d M) (\<lambda>_. True) (call (sm_get_client (tables_SR porder) u))"
  "keeps (always d M) (\<lambda>_. True) (call (sm_get_proxies (tables_SR porder) k))"
  "keeps (always d M) (\<lambda>_. True) (call (sm_count_proxies (tables_SR porder)))"
  "keeps (always d M) (\<lambda>_. True) (call (sm_count_clients (tables_SR porder)))"
  "keeps (always d M) (\<lambda>_. True) (call (sm_count_controllers (tables_SR porder)))"
  by (rule keeps_call, simp add: sm_get_client_def sm_get_proxies_def sm_count_proxies_def
      sm_count_clients_def sm_count_controllers_def repo_simps)+

lemma kept_validate [kept]:
  "keeps (always d M) (\<lambda>valid. valid \<longrightarrow> listed d M u) (call (validate_credentials tables_MR u p))"
  by (rule keeps_call)
     (auto simp: validate_credentials_def mm_get_member_def repo_simps always_alt listed_def prog_simps
       split: option.splits)

lemma kept_get_conversation [kept]:
  "keeps (always d M) (\<lambda>found. \<forall>x. found = Some x \<longrightarrow> listed d M (conv_from x))
     (call (rm_get_conversation (tables_RM pick) c))"
  by (rule keeps_call) (auto simp: rm_get_conversation_def repo_simps always_alt inmem_get_conversation_def)

lemma kept_initialize [kept]:
  "listed d M u \<Longrightarrow>
   keeps (always d M) (\<lambda>_. True)
     (call (rm_initialize (tables_RM pick) uuid u to))"
  by (rule keeps_call)
     (auto simp: rm_initialize_def get_routing_id_def new_strategies_def repo_simps always_alt Let_def
       route_wf_simps new_conversation_def split: if_splits)

lemma kept_route_changes [kept]:
  "keeps (always d M) (\<lambda>_. True) (call (rm_finalize (tables_RM pick) c))"
  "keeps (always d M) (\<lambda>_. True)
     (call (rm_store_route (tables_RM pick) uuid c cs e))"
  "keeps (always d M) (\<lambda>_. True) (call (repo_get_route tables_RR c n))"
  "keeps (always d M) (\<lambda>_. True) (call (repo_remove_route tables_RR n))"
  by (rule keeps_call,
      auto simp: rm_finalize_def rm_store_route_def repo_simps always_alt route_wf_simps Let_def
        set_route_conversations push_route_def split: if_splits)+

subsection \<open>The members\<close>

definition names_listed :: "deployment \<Rightarrow> member_table \<Rightarrow> reply \<Rightarrow> bool" where
  "names_listed d M r \<longleftrightarrow> (\<forall>u. r = Redeemed (Some u) \<longrightarrow> listed d M u)"

interpretation listed: table_invariant "always d M" "listed d M" UNIV for d M
  by unfold_locales (rule kept strategy_calls | simp)+

lemma kept_tick: "always d M w \<Longrightarrow> always d M (w\<lparr>clock := t\<rparr>)"
  by (simp add: always_alt)

lemma kept_sweep_sessions:
  "always d M w \<Longrightarrow>
   always d M (w\<lparr>session_repo := kill_expired_sessions now order (session_repo w)\<rparr>)"
  by (auto simp: always_alt sessions_keyed_def kill_expired_sessions_def foldl_drop_session split: if_splits)

lemma kept_sweep_routes:
  "always d M w \<Longrightarrow> always d M (w\<lparr>route_repo := kill_expired_routes now (route_repo w)\<rparr>)"
  by (auto simp: always_alt route_wf_simps map_filter_vals_def split: option.splits if_splits)

lemma own_session_known:
  "own_session d u = Some s \<Longrightarrow> listed d M (ss_uid s)"
  "own_session d u = Some s \<Longrightarrow> component_from_u8 (ss_component_type s) = Some Controller"
  by (auto simp: own_session_def session_of_def listed_def Let_def)

interpretation members: pool_invariant d U "always d M" "\<lambda>_. names_listed d M" for d U M
proof unfold_locales
  show "keeps (always d M) (names_listed d M) (serve_t version su rq)" for version su rq
    unfolding names_listed_def by (rule listed.kept_request) simp
qed (auto intro: kept_tick kept_sweep_sessions kept_sweep_routes index_keeps_always entry_keeps_always
  own_session_known)

text \<open>
  C22. Whatever requests are served at the same time and however their accesses to the tables
  interleave with each other, with the sweeps and with the registration of the controller: each
  session and the sender of each stored conversation belong to a member or to the controller, and
  so does every sender a redemption has named.  Nothing is assumed of the UUIDs drawn.
\<close>

theorem interleaved_senders_are_members:
  assumes "reachable d w0" and "(interleaved d U)\<^sup>*\<^sup>* ([], w0) (ts, w)"
  shows "(\<forall>k s. live_session w k = Some s \<longrightarrow> ss_access_key s = k \<and> known_uid d w (ss_uid s))
    \<and> (\<forall>c x. stored_conversation w c = Some x \<longrightarrow> conv_id x = c \<and> known_uid d w (conv_from x))
    \<and> (\<forall>rq u. (rq, Done (Ok (Redeemed (Some u)))) \<in> set ts \<longrightarrow> known_uid d w u)"
proof -
  have "controller_inv d w0" by (rule reachable_inv) fact
  then have inv: "always d (member_repo w0) w0"
    by (simp add: always_def controller_inv_def world_ok_def session_wf_def)
  have always: "always d (member_repo w0) w" by (rule members.always_in_pool [OF assms(2) inv])
  have "known_uid d w u" if "(rq, Done (Ok (Redeemed (Some u)))) \<in> set ts" for rq u
    using members.always_in_pool(2) [OF assms(2) inv that] always
    by (simp add: names_listed_def listed_def known_uid_def always_def)
  moreover have "world_ok w" "users_known d w" using always by (simp_all add: always_def)
  ultimately show ?thesis
    by (auto simp: users_known_def world_ok_def route_wf_def sessions_keyed_def view_defs)
qed

subsection \<open>Nonces that were not issued\<close>

lemma set_session_writes:
  "set_session_index s w = (r, w') \<Longrightarrow> route_repo w' = route_repo w"
  "set_session_entry s w = (r, w') \<Longrightarrow> route_repo w' = route_repo w"
  by (cases "component_from_u8 (ss_component_type s)"; auto simp: repo_simps)+

definition unissued :: "string \<Rightarrow> world \<Rightarrow> bool" where
  "unissued n w \<longleftrightarrow> rt_routes (route_repo w) n = None"

interpretation unissued: table_invariant "unissued n" "\<lambda>_. True" "- {n}" for n
  by unfold_locales
     (rule strategy_calls | rule keeps_call, (auto simp: unissued_def sm_get_session_def set_session_writes
        sm_remove_session_def sm_get_client_def sm_get_proxies_def sm_count_proxies_def
        sm_count_clients_def sm_count_controllers_def validate_credentials_def mm_get_member_def
        rm_get_conversation_def rm_initialize_def get_routing_id_def new_strategies_def rm_finalize_def
        rm_store_route_def inmem_set_route_def repo_simps Let_def prog_simps split: if_splits option.splits) [1])+

lemma unissued_refused:
  "keeps (unissued n) (\<lambda>_. False) (route_redeem_t (tables_SR porder) (tables_RM pick) k c n)"
proof -
  have none: "keeps (unissued n) (\<lambda>found. found = None) (call (repo_get_route tables_RR c n))"
    by (rule keeps_call) (auto simp: unissued_def repo_simps inmem_get_route_def)
  have "keeps (unissued n) (\<lambda>redeemed. redeemed = None) (redeem_route_t (tables_RM pick) c n)"
    unfolding redeem_route_t_def new_route_manager_sel by (rule keeps_seq [OF none]) simp
  note refused = keeps_seq [OF this]
  show ?thesis
    unfolding route_redeem_t_def
    by (rule keeps_seq [OF unissued.kept_guards(1)], rule keeps_seq [OF unissued.kept_guards(2)],
        rule refused) simp
qed

interpretation spent: pool_invariant d "- {n}" "unissued n" "\<lambda>rq _. \<forall>k c. rq \<noteq> Redeem k c n" for d n
proof unfold_locales
  show "keeps (unissued n) (\<lambda>_. \<forall>k c. rq \<noteq> Redeem k c n) (serve_t version su rq)"
    if "su_uuid su \<in> - {n}" for version su rq
  proof (cases "\<exists>k c. rq = Redeem k c n")
    case True
    then show ?thesis by (auto simp: t_map_def intro: keeps_seq [OF unissued_refused])
  next
    case False
    then show ?thesis by (intro keeps_weaken [OF unissued.kept_request [OF that]]) simp
  qed
qed (auto simp: unissued_def map_filter_vals_def set_session_writes)

text \<open>
  C23. A nonce cannot be guessed into validity: from tables without a route under it, and as long as
  no request draws it, no request to redeem it is ever accepted, whatever requests run at the same
  time and however they interleave, and no route appears under it.
\<close>

theorem unissued_nonce_refused:
  assumes "stored_route w0 c0 n = None" and "n \<notin> U" and "(interleaved d U)\<^sup>*\<^sup>* ([], w0) (ts, w)"
  shows "stored_route w c n = None \<and> (Redeem k c n, Done (Ok r)) \<notin> set ts"
proof -
  have "(interleaved d (- {n}))\<^sup>*\<^sup>* ([], w0) (ts, w)"
    using assms(3)
  proof (induction rule: rtranclp_induct)
    case (step x y)
    then have "interleaved d (- {n}) x y" using assms(2) by (auto intro: interleaved_mono)
    with step.IH show ?case by (rule rtranclp.rtrancl_into_rtrancl)
  qed simp
  moreover have "unissued n w0" using assms(1) by (simp add: unissued_def stored_route_def)
  ultimately have "unissued n w" "(Redeem k c n, Done (Ok r)) \<in> set ts \<Longrightarrow> False"
    using spent.always_in_pool by blast+
  then show ?thesis by (auto simp: unissued_def stored_route_def)
qed

subsection \<open>Races\<close>

lemma t_bind_assoc [simp]: "t_bind (t_bind t f) g = t_bind t (\<lambda>x. t_bind (f x) g)"
proof (induction t)
  case (Done r)
  show ?case by (cases r) simp_all
next
  case (Step h)
  have "map_prod (\<lambda>t. t_bind t g) id (map_prod (\<lambda>t. t_bind t f) id (h w)) =
      map_prod (\<lambda>t. t_bind t (\<lambda>x. t_bind (f x) g)) id (h w)" for w
    using Step.IH [OF rangeI [of h w]] by (cases "h w") (simp add: fsts.simps)
  then show ?case by simp
qed

lemma advance_call [simp]:
  "advance (Suc n) (t_bind (call p) k, w) = (case p w of (r, w') \<Rightarrow> advance n (t_bind (Done r) k, w'))"
  by (simp add: call_def split: prod.splits)

lemma get_route_run:
  "repo_get_route tables_RR c n w = (Ok (stored_route w c n), w)"
  by (simp add: repo_simps stored_route_def inmem_get_route_def)

lemmas look_ups = sm_get_session_run rm_get_conversation_run get_route_run

text \<open>The three look-ups of a redemption, and the removal that follows them.\<close>

lemma redemption_looks_up:
  assumes "live_session w k = Some s" and "stored_conversation w c = Some x"
    and "stored_route w c n = Some r" and "\<not> rt_end_route r"
  shows "advance 3 (serve_t version su (Redeem k c n), w) =
    (t_bind (call (repo_remove_route tables_RR n)) (\<lambda>_. t_ret (Redeemed None)), touch k w)"
  using assms
  by (simp add: numeral_3_eq_3 t_map_def route_redeem_t_def check_session_t_def
      check_conversation_t_def redeem_route_t_def look_ups)

lemma redemption_removes:
  "advance 1 (t_bind (call (repo_remove_route tables_RR n)) (\<lambda>_. t_ret (Redeemed None)), w) =
    (t_ret (Redeemed None), w\<lparr>route_repo := inmem_remove_route n (route_repo w)\<rparr>)"
  by (simp add: repo_simps)

text \<open>Two threads: one goes on.\<close>

lemma first_advances:
  "(interleaved d U)\<^sup>*\<^sup>* x ([(rq, t), u], w) \<Longrightarrow> advance n (t, w) = (t', w') \<Longrightarrow>
   (interleaved d U)\<^sup>*\<^sup>* x ([(rq, t'), u], w')"
  using advance_interleaved [of 0 "[(rq, t), u]" rq t n w t' w' d U] by simp

lemma second_advances:
  "(interleaved d U)\<^sup>*\<^sup>* x ([t, (rq, u)], w) \<Longrightarrow> advance n (u, w) = (u', w') \<Longrightarrow>
   (interleaved d U)\<^sup>*\<^sup>* x ([t, (rq, u')], w')"
  using advance_interleaved [of 1 "[t, (rq, u)]" rq u n w u' w' d U] by simp

text \<open>
  C33. A nonce can be redeemed twice at the same time: looking a route up and removing it are two
  accesses, so of two requests that both look up before either removes, by any sessions, each is
  told that the nonce is good.  That a nonce is worth one redemption holds of requests one after
  the other.
\<close>

theorem concurrent_redemptions_both_succeed:
  assumes "live_session w k = Some s" and "live_session w k' = Some s'"
    and "stored_conversation w c = Some x" and "stored_conversation w c' = Some x'"
    and "stored_route w c n = Some r" and "\<not> rt_end_route r"
  shows "\<exists>w'. (interleaved d U)\<^sup>*\<^sup>*
    ([(Redeem k c n, serve_t version su (Redeem k c n)), (Redeem k' c' n, serve_t version su' (Redeem k' c' n))], w)
    ([(Redeem k c n, Done (Ok (Redeemed None))), (Redeem k' c' n, Done (Ok (Redeemed None)))], w')"
proof -
  have other: "advance 3 (serve_t version su' (Redeem k' c' n), touch k w) =
      (t_bind (call (repo_remove_route tables_RR n)) (\<lambda>_. t_ret (Redeemed None)),
       touch k' (touch k w))"
    by (rule redemption_looks_up [where r = r]) (use assms in \<open>simp_all add: stored_route_def\<close>)
  note looked_up = second_advances [OF first_advances [OF rtranclp.rtrancl_refl
        redemption_looks_up [OF assms(1,3,5,6)]] other]
  from second_advances [OF first_advances [OF looked_up redemption_removes] redemption_removes]
  show ?thesis by blast
qed

lemma ping_looks_up:
  assumes "live_session w k = Some s" and "su_remote_addr su = Some ip"
  shows "advance 1 (serve_t version su (Ping k), w) =
    (t_bind (call (sm_get_session (inmemory_session_repository (su_porder su)) k)) (\<lambda>found.
       t_bind (t_unwrap found) (\<lambda>session.
       t_bind (if ss_client_ip session \<noteq> ip
               then t_throw (mk_status Unauthenticated ''Invalid connection'')
               else t_ret \<lparr>presp_status = ''PONG'', presp_timestamp = su_now_micros su\<rparr>)
         (\<lambda>x. t_ret (Pong x)))), touch k w)"
  using assms by (simp add: t_map_def auth_ping_t_def check_session_t_def look_ups)

lemma log_out_runs:
  assumes "live_session w k = Some s"
  obtains v where "advance 2 (serve_t version su (Logout k), w) = (Done (Ok Logged_Out), v)"
    and "live_session v k = None"
proof
  let ?v = "(touch k w)\<lparr>session_repo := inmem_remove_session k (session_repo (touch k w))\<rparr>"
  show "advance 2 (serve_t version su (Logout k), w) = (Done (Ok Logged_Out), ?v)"
    using assms by (simp add: numeral_2_eq_2 t_map_def auth_logout_t_def check_session_t_def look_ups
        sm_remove_session_def repo_simps)
  show "live_session ?v k = None" by (simp add: live_session_def)
qed

text \<open>
  A ping can panic: it looks its session up twice, and unwraps the second answer, so a log-out
  with the same key that comes between the two ends the handler of the ping in a panic, while the
  log-out itself is accepted.
\<close>

theorem concurrent_log_out_panics_ping:
  assumes "live_session w k = Some s" and "su_remote_addr su = Some ip"
  shows "\<exists>w'. (interleaved d U)\<^sup>*\<^sup>*
    ([(Ping k, serve_t version su (Ping k)), (Logout k, serve_t version su' (Logout k))], w)
    ([(Ping k, Done Panic), (Logout k, Done (Ok Logged_Out))], w')"
proof -
  have "live_session (touch k w) k = Some s" using assms(1) by simp
  then obtain v where v: "advance 2 (serve_t version su' (Logout k), touch k w) = (Done (Ok Logged_Out), v)"
    "live_session v k = None"
    by (rule log_out_runs)
  have panics: "advance 1 (t_bind (call (sm_get_session (tables_SR porder) k)) (\<lambda>found.
      t_bind (t_unwrap found) f), v) = (Done Panic, touch k v)"
    for porder and f :: "session_info \<Rightarrow> (world, reply, status) thread"
    using v(2) by (simp add: look_ups)
  note looked_up = second_advances [OF first_advances [OF rtranclp.rtrancl_refl ping_looks_up [OF assms]] v(1)]
  from first_advances [OF looked_up panics] show ?thesis by blast
qed

end
