(* ===== verification/Hop_Races.thy ===== *)
theory Hop_Races
  imports Interleavings
begin

section \<open>Two hops at the same time\<close>

text \<open>
  The route service decides on the last hop from the conversation it has looked up, and extends the
  stored one in a later step.  Two requests that look the conversation up before either extends it
  both take the same hop number; the end route, due when exactly three hops are stored, is passed
  over.
\<close>

lemma proxies_after_look_up [simp]:
  "st_proxies (snd (inmem_get_session now j st)) = st_proxies st"
  "inmem_get_proxies order k (snd (inmem_get_session now j st)) = inmem_get_proxies order k st"
proof -
  have "map_option ew_value (st_sessions (snd (inmem_get_session now j st)) i) =
      map_option ew_value (st_sessions st i)" for i
    by (simp add: get_session_sessions option.map_comp comp_def)
  moreover show "st_proxies (snd (inmem_get_session now j st)) = st_proxies st"
    by (simp add: inmem_get_session_def split: option.split)
  ultimately show "inmem_get_proxies order k (snd (inmem_get_session now j st)) = inmem_get_proxies order k st"
    by (simp only: inmem_get_proxies_def proxy_sessions_def)
qed

text \<open>What is left of a request that has decided on an inner hop.\<close>

definition inner_hop ::
  "surroundings \<Rightarrow> string \<Rightarrow> string \<Rightarrow> conversation \<Rightarrow> (world, reply, status) thread" where
  "inner_hop su k c x =
     t_bind (call (sm_get_proxies (tables_SR (su_porder su)) k)) (\<lambda>proxies.
     t_bind (case proxies of
               None \<Rightarrow> t_throw (mk_status NotFound ''No proxies found'')
             | Some ps \<Rightarrow>
                 t_bind (call (rm_get_next_route (tables_RM (su_pick su)) x ps)) (\<lambda>next_route.
                   case next_route of
                     Some proxy_session \<Rightarrow>
                       handle_route_t (tables_RM (su_pick su)) (su_uuid su) c proxy_session False
                   | None \<Rightarrow> t_throw (mk_status NotFound
                       ''Next route wasn't found, no more routes available'')))
       (\<lambda>hop. t_ret (Hop hop)))"

lemma hop_decides:
  assumes "live_session w k = Some s" and "stored_conversation w c = Some x"
    and "conv_routing_id x = 1" and "length (conv_routes x) \<noteq> 3"
  shows "advance 4 (serve_t version su (Next_Route k c), w) = (inner_hop su k c x, touch k w)"
proof -
  have "rm_check_for_final_route (tables_RM pick) x v = ((Ok False, v) :: (bool, status) outcome \<times> world)"
    for pick v
    using assms(3,4) by (simp add: rm_check_for_final_route_def prog_simps)
  then show ?thesis
    by (simp add: eval_nat_numeral t_map_def route_route_t_def check_session_t_def check_conversation_t_def
        look_ups assms inner_hop_def)
qed

text \<open>The tables after an inner hop, and what the request is told.\<close>

definition hop_stored :: "string \<Rightarrow> surroundings \<Rightarrow> session_info \<Rightarrow> world \<Rightarrow> world" where
  "hop_stored c su p w = w\<lparr>route_repo :=
     snd (inmem_set_route (clock w) c (hop_route (su_uuid su) False p) (route_repo w))\<rparr>"

lemma hop_stores:
  assumes "inmem_get_proxies (su_porder su (st_proxies (session_repo w))) k (session_repo w) = Some ps"
    and "picks (su_pick su)" and "conv_routing_id x = 1"
    and "rt_routes (route_repo w) (su_uuid su) = None" and "rt_conversations (route_repo w) c \<noteq> None"
  obtains p where "advance 3 (inner_hop su k c x, w) =
    (Done (Ok (Hop (hop_response (su_uuid su) False p))), hop_stored c su p w)"
proof -
  have "ps \<noteq> []" using assms(1) by (auto simp: inmem_get_proxies_def Let_def split: if_splits)
  obtain i where i: "random_next_route (su_pick su) ps w = ((Ok (Some (ps ! i)), w) :: (session_info option, status) outcome \<times> world)"
    by (rule random_next_route_Some [OF assms(2) \<open>ps \<noteq> []\<close>, of w])
  have strategy: "rm_get_next_route (tables_RM (su_pick su)) x ps w = ((Ok (Some (ps ! i)), w) :: (session_info option, status) outcome \<times> world)"
    using assms(3) i by (simp add: rm_get_next_route_def prog_simps)
  have proxies: "sm_get_proxies (tables_SR (su_porder su)) k w = ((Ok (Some ps), w) :: (session_info list option, status) outcome \<times> world)"
    using assms(1) by (simp add: sm_get_proxies_def repo_simps)
  have store: "rm_store_route (tables_RM (su_pick su)) (su_uuid su) c (to_connection_settings p) False w =
      ((Ok (Some (su_uuid su)), hop_stored c su p w) :: (string option, status) outcome \<times> world)" for p
    using assms(4,5)
    by (simp add: rm_store_route_def Let_def repo_simps to_connection_settings_def hop_route_def
        hop_stored_def set_route_fst)
  show thesis
    by (rule that [of "ps ! i"])
       (simp add: eval_nat_numeral inner_hop_def proxies strategy handle_route_t_def Let_def store hop_response_def)
qed

text \<open>
  C34. Two requests for the next hop at the same time skip the end route: with two hops stored, both
  requests find two, both are given an inner hop, and the conversation then has four, none of them the
  end route.  From there on the end route is never issued, since it is due at exactly three hops; that
  the fourth hop is the end holds of requests one after the other.
\<close>

theorem concurrent_hops_skip_the_end:
  assumes "live_session w k = Some s" and "live_session w k' = Some s'"
    and "stored_conversation w c = Some x" and "conv_routing_id x = 1" and "length (conv_routes x) = 2"
    and "inmem_get_proxies (su_porder su (st_proxies (session_repo w))) k (session_repo w) = Some ps"
    and "inmem_get_proxies (su_porder su' (st_proxies (session_repo w))) k' (session_repo w) = Some ps'"
    and "picks (su_pick su)" and "picks (su_pick su')" and "su_uuid su \<noteq> su_uuid su'"
    and "stored_route w c (su_uuid su) = None" and "stored_route w c (su_uuid su') = None"
  shows "\<exists>h h' w' y. (interleaved d U)\<^sup>*\<^sup>*
      ([(Next_Route k c, serve_t version su (Next_Route k c)),
        (Next_Route k' c, serve_t version su' (Next_Route k' c))], w)
      ([(Next_Route k c, Done (Ok (Hop h))), (Next_Route k' c, Done (Ok (Hop h')))], w')
    \<and> \<not> rr_end_route h \<and> \<not> rr_end_route h'
    \<and> stored_conversation w' c = Some y \<and> length (conv_routes y) = 4 \<and> \<not> hops_ok y"
proof -
  let ?w = "touch k' (touch k w)"
  have four: "length (conv_routes x) \<noteq> 3" using assms(5) by simp
  have second: "advance 4 (serve_t version su' (Next_Route k' c), touch k w) = (inner_hop su' k' c x, ?w)"
    by (rule hop_decides) (use assms four in simp_all)
  note decided = second_advances [OF first_advances [OF rtranclp.rtrancl_refl
        hop_decides [OF assms(1,3,4) four]] second]
  obtain z where z: "rt_conversations (route_repo w) c = Some z" "ew_value z = x"
    using assms(3) by (auto simp: stored_conversation_def)
  have none: "rt_routes (route_repo w) (su_uuid su) = None" "rt_routes (route_repo w) (su_uuid su') = None"
    using assms(11,12) by (simp_all add: stored_route_def)
  obtain p where p: "advance 3 (inner_hop su k c x, ?w) =
      (Done (Ok (Hop (hop_response (su_uuid su) False p))), hop_stored c su p ?w)"
    by (rule hop_stores [where w = ?w and ps = ps and su = su and k = k and c = c and x = x])
       (use assms none z in simp_all)
  let ?v = "hop_stored c su p ?w"
  obtain q where q: "advance 3 (inner_hop su' k' c x, ?v) =
      (Done (Ok (Hop (hop_response (su_uuid su') False q))), hop_stored c su' q ?v)"
    by (rule hop_stores [where w = ?v and ps = ps' and su = su' and k = k' and c = c and x = x])
       (use assms none z in \<open>simp_all add: hop_stored_def set_route_conversations\<close>)
  have routes: "stored_conversation (hop_stored c su' q ?v) c =
      Some (push_route (hop_route (su_uuid su') False q) (push_route (hop_route (su_uuid su) False p) x))"
    using none z assms(10)
    by (simp add: stored_conversation_def hop_stored_def set_route_conversations)
  have "\<not> hops_ok (push_route (hop_route (su_uuid su') False q) (push_route (hop_route (su_uuid su) False p) x))"
    using assms(5) by (auto simp: hops_ok_def push_route_def nth_append intro!: exI [of _ 3])
  moreover have "length (conv_routes (push_route (hop_route (su_uuid su') False q)
      (push_route (hop_route (su_uuid su) False p) x))) = 4"
    using assms(5) by (simp add: push_route_def)
  ultimately show ?thesis
    using second_advances [OF first_advances [OF decided p] q] routes hop_response_sel(2) by blast
qed

end
