(* ===== verification/Interleaving_Samples.thy ===== *)
theory Interleaving_Samples
  imports Hop_Races Controller_Samples
begin

section \<open>Concrete interleavings\<close>

text \<open>The theorems of \<open>Interleavings\<close> and \<open>Hop_Races\<close> at the tables of \<open>Controller_Samples\<close>.\<close>

lemma bob_redeems:
  "advance 6 (serve_t version (sample_su [] ''u'') (Redeem ''k3'' ''c1'' ''n3''), world8) =
     (Done (Ok (Redeemed (Some ''alice''))), (touch ''k3'' world8)
        \<lparr>route_repo := inmem_remove_conversation ''c1'' (inmem_remove_route ''n3'' (route_repo world8))\<rparr>)"
proof -
  have "stored_conversation (touch ''k3'' world8\<lparr>route_repo := inmem_remove_route ''n3'' (route_repo world8)\<rparr>) ''c1'' =
      stored_conversation world8 ''c1''"
    unfolding stored_conversation_def by simp
  then show ?thesis
    by (simp add: eval_nat_numeral t_map_def route_redeem_t_def check_session_t_def
        check_conversation_t_def redeem_route_t_def look_ups)
       (simp add: repo_simps rm_get_conversation_run rm_finalize_def)
qed

theorem interleaved_senders_are_members_witness:
  "\<exists>w rq. (interleaved sample_deployment {''u''})\<^sup>*\<^sup>* ([], world8)
       ([(rq, Done (Ok (Redeemed (Some ''alice''))))], w)
     \<and> known_uid sample_deployment w ''alice''"
proof -
  let ?rq = "Redeem ''k3'' ''c1'' ''n3''"
  let ?t = "serve_t (descriptor_version (dep_descriptor sample_deployment)) (sample_su [] ''u'') ?rq"
  let ?w = "(touch ''k3'' world8)
        \<lparr>route_repo := inmem_remove_conversation ''c1'' (inmem_remove_route ''n3'' (route_repo world8))\<rparr>"
  have "interleaved sample_deployment {''u''} ([], world8) ([] @ [(?rq, ?t)], world8)"
    by (rule interleaved.arrive) simp
  then have arrived: "(interleaved sample_deployment {''u''})\<^sup>*\<^sup>* ([], world8) ([(?rq, ?t)], world8)"
    by (simp only: append_Nil r_into_rtranclp)
  have "(interleaved sample_deployment {''u''})\<^sup>*\<^sup>* ([(?rq, ?t)], world8)
      ([(?rq, ?t)][0 := (?rq, Done (Ok (Redeemed (Some ''alice''))))], ?w)"
    by (rule advance_interleaved [where n = 6, OF _ _ bob_redeems]) (simp, rule nth_Cons_0)
  then have served: "(interleaved sample_deployment {''u''})\<^sup>*\<^sup>* ([(?rq, ?t)], world8)
      ([(?rq, Done (Ok (Redeemed (Some ''alice''))))], ?w)"
    by (simp only: list_update_code)
  note run = rtranclp_trans [OF arrived served]
  from interleaved_senders_are_members [OF world8_reachable run] run show ?thesis
    by (metis list.set_intros(1))
qed

theorem unissued_nonce_refused_witness:
  "\<exists>ts w. (interleaved sample_deployment {''u''})\<^sup>*\<^sup>* ([], world8) (ts, w)
     \<and> stored_route w ''c1'' ''guess'' = None
     \<and> (Redeem ''k3'' ''c1'' ''guess'', Done (Ok (Redeemed None))) \<notin> set ts"
proof -
  let ?rq = "Redeem ''k3'' ''c1'' ''guess''"
  let ?t = "serve_t (descriptor_version (dep_descriptor sample_deployment)) (sample_su [] ''u'') ?rq"
  have "interleaved sample_deployment {''u''} ([], world8) ([] @ [(?rq, ?t)], world8)"
    by (rule interleaved.arrive) simp
  then have run: "(interleaved sample_deployment {''u''})\<^sup>*\<^sup>* ([], world8) ([] @ [(?rq, ?t)], world8)"
    by (rule r_into_rtranclp)
  have none: "stored_route world8 ''c1'' ''guess'' = None" by (simp add: world8_def)
  have "''guess'' \<notin> {''u''}" by simp
  with unissued_nonce_refused [OF none this run] run show ?thesis by blast
qed

theorem concurrent_redemptions_both_succeed_witness:
  "\<exists>w'. (interleaved sample_deployment {})\<^sup>*\<^sup>*
     ([(Redeem ''k1'' ''c1'' ''n0'', serve_t ''1.0.0'' (sample_su [] ''u1'') (Redeem ''k1'' ''c1'' ''n0'')),
       (Redeem ''k2'' ''c1'' ''n0'', serve_t ''1.0.0'' (sample_su [] ''u2'') (Redeem ''k2'' ''c1'' ''n0''))], world8)
     ([(Redeem ''k1'' ''c1'' ''n0'', Done (Ok (Redeemed None))),
       (Redeem ''k2'' ''c1'' ''n0'', Done (Ok (Redeemed None)))], w')"
proof (rule concurrent_redemptions_both_succeed)
  show "stored_route world8 ''c1'' ''n0'' = Some (hop_to_p1 ''n0'')" by (simp add: world8_def)
qed simp_all

theorem concurrent_log_out_panics_ping_witness:
  "\<exists>w'. (interleaved sample_deployment {})\<^sup>*\<^sup>*
     ([(Ping ''k2'', serve_t ''1.0.0'' (sample_su [] ''u1'') (Ping ''k2'')),
       (Logout ''k2'', serve_t ''1.0.0'' (sample_su [] ''u2'') (Logout ''k2''))], world3)
     ([(Ping ''k2'', Done Panic), (Logout ''k2'', Done (Ok Logged_Out))], w')"
  by (rule concurrent_log_out_panics_ping [where s = "sample_session_of ''k2'' Client ''alice'' ''pa''" and ip = home])
     simp_all

text \<open>Two hops are stored when \<open>alice\<close> and \<open>bob\<close> ask for the next one at the same time.\<close>

definition world_two_hops :: world where
  "world_two_hops = with_routes [''n0'' \<mapsto> hop_to_p1 ''n0'', ''n1'' \<mapsto> hop_to_p1 ''n1'']
     [hop_to_p1 ''n0'', hop_to_p1 ''n1'']"

theorem concurrent_hops_skip_the_end_witness:
  "\<exists>h h' w' y. (interleaved sample_deployment {})\<^sup>*\<^sup>*
      ([(Next_Route ''k2'' ''c1'', serve_t ''1.0.0'' (sample_su [''p1''] ''n2'') (Next_Route ''k2'' ''c1'')),
        (Next_Route ''k3'' ''c1'', serve_t ''1.0.0'' (sample_su [''p1''] ''n3'') (Next_Route ''k3'' ''c1''))],
       world_two_hops)
      ([(Next_Route ''k2'' ''c1'', Done (Ok (Hop h))), (Next_Route ''k3'' ''c1'', Done (Ok (Hop h')))], w')
    \<and> \<not> rr_end_route h \<and> \<not> rr_end_route h'
    \<and> stored_conversation w' ''c1'' = Some y \<and> length (conv_routes y) = 4 \<and> \<not> hops_ok y"
proof -
  have proxies: "inmem_get_proxies (su_porder (sample_su [''p1''] u) m) k (session_repo world_two_hops) =
      Some [sample_session_of ''k1'' Proxy ''p1'' ''pp'']" if "k \<noteq> ''k1''" for u m k
    using that by (simp add: world_two_hops_def inmem_get_proxies_def proxy_sessions_def List.map_filter_simps)
  show ?thesis
    by (rule concurrent_hops_skip_the_end [OF _ _ _ _ _ proxies proxies,
          where x = "sample_conversation ''c1'' [hop_to_p1 ''n0'', hop_to_p1 ''n1'']"])
       (simp_all add: world_two_hops_def picks_pick_first)
qed

end
