(* ===== verification/Controller_Tests.thy ===== *)
theory Controller_Tests
  imports Controller
begin

section \<open>The unit tests of the controller's services, in the model\<close>

text \<open>
  The modules \<^verbatim>\<open>tests\<close> of \<^verbatim>\<open>services/mod.rs\<close>, \<^verbatim>\<open>auth_service.rs\<close>, \<^verbatim>\<open>info_service.rs\<close> and
  \<^verbatim>\<open>route_service.rs\<close>, each test a program over fresh in-memory tables whose value is the conjunction
  of its assertions; a panic, and an \<^verbatim>\<open>unwrap\<close> that fails, is a failed test.  They say that the
  model of the services behaves as its authors expect of the code.  The UUIDs a test draws, the
  iteration order, the random choice and the parsed address are arguments.
\<close>

subsection \<open>Assertions and fixtures\<close>

definition expect_ok :: "('a \<Rightarrow> bool) \<Rightarrow> ('w, 'a, status) prog \<Rightarrow> ('w, bool, status) prog" where
  "expect_ok P p w =
     (case p w of (Ok x, w') \<Rightarrow> (Ok (P x), w') | (Err _, w') \<Rightarrow> (Ok False, w') | (Panic, w') \<Rightarrow> (Panic, w'))"

definition expect_err :: "(status \<Rightarrow> bool) \<Rightarrow> ('w, 'a, status) prog \<Rightarrow> ('w, bool, status) prog" where
  "expect_err P p w =
     (case p w of (Err s, w') \<Rightarrow> (Ok (P s), w') | (Ok _, w') \<Rightarrow> (Ok False, w') | (Panic, w') \<Rightarrow> (Panic, w'))"

definition passes_in :: "'w \<Rightarrow> ('w, bool, status) prog \<Rightarrow> bool" where
  "passes_in w test \<longleftrightarrow> fst (test w) = Ok True"

abbreviation passes :: "(world, bool, status) prog \<Rightarrow> bool" where
  "passes \<equiv> passes_in new_world"

text \<open>The surroundings of a test.\<close>

record test_run =
  tr_uuids :: "string list"
  tr_addr :: socket_addr
  tr_order :: proxy_order
  tr_pick :: "nat list \<Rightarrow> nat option"

abbreviation test_SR :: "test_run \<Rightarrow> (world, status) session_repository" where
  "test_SR r \<equiv> inmemory_session_repository (tr_order r)"

abbreviation test_RM :: "test_run \<Rightarrow> (world, status) route_manager" where
  "test_RM r \<equiv> new_route_manager inmemory_route_repository (tr_pick r)"

abbreviation uuid :: "test_run \<Rightarrow> nat \<Rightarrow> string" where
  "uuid r i \<equiv> tr_uuids r ! i"

definition EXPECTED_UID :: string where "EXPECTED_UID = ''L.KD<FCjkSA6AEg@''"
definition EXPECTED_PWD :: string where "EXPECTED_PWD = ''w8(PR&-HCJ*ersZV''"
definition EXPECTED_IP :: string where "EXPECTED_IP = ''127.0.0.1''"
definition EXPECTED_PORT :: u16 where "EXPECTED_PORT = 8080"

definition test_connection_settings :: connection_settings where
  "test_connection_settings =
     \<lparr>cs_ip = EXPECTED_IP, cs_port = EXPECTED_PORT, cs_domain_name = ''test_domain_name'',
      cs_certificate = as_bytes ''test_public_key''\<rparr>"

text \<open>\<^verbatim>\<open>session_manager.set_session(...)\<close>, as every test that needs a session calls it.\<close>

definition set_test_session :: "test_run \<Rightarrow> nat \<Rightarrow> string \<Rightarrow> component \<Rightarrow> (world, string, status) prog" where
  "set_test_session r i uid c =
     sm_set_session (test_SR r) (uuid r i) uid c (tr_addr r) test_connection_settings"

text \<open>\<^verbatim>\<open>route_manager.initialize(...).await.unwrap()\<close>.\<close>

definition init_test_conversation :: "test_run \<Rightarrow> nat \<Rightarrow> string \<Rightarrow> string \<Rightarrow> (world, string, status) prog" where
  "init_test_conversation r i from to =
     and_then (rm_initialize (test_RM r) (uuid r i) from to) unwrap_or_panic"

subsection \<open>The guards\<close>

definition test_check_session_invalid :: "test_run \<Rightarrow> (world, bool, status) prog" where
  "test_check_session_invalid r =
     expect_err (\<lambda>s. st_code s = Unauthenticated \<and> st_message s = ''Invalid access key'')
       (check_session (test_SR r) ''invalid_access_key'')"

definition test_check_session_valid :: "test_run \<Rightarrow> (world, bool, status) prog" where
  "test_check_session_valid r =
     and_then (set_test_session r 0 ''from_uid'' Client) (\<lambda>access_key.
     expect_ok (\<lambda>_. True) (check_session (test_SR r) access_key))"

definition test_check_conversation_missing :: "test_run \<Rightarrow> (world, bool, status) prog" where
  "test_check_conversation_missing r =
     expect_err (\<lambda>s. st_code s = NotFound \<and> st_message s = ''Invalid conversation'')
       (check_conversation (test_RM r) ''conversation_id'')"

definition test_check_conversation_existing :: "test_run \<Rightarrow> (world, bool, status) prog" where
  "test_check_conversation_existing r =
     and_then (init_test_conversation r 0 ''from_uid'' ''to_uid'') (\<lambda>conversation_id.
     expect_ok (\<lambda>_. True) (check_conversation (test_RM r) conversation_id))"

subsection \<open>The authentication service\<close>

text \<open>In a test build the remote address is a fixed one, here \<open>tr_addr\<close>, and not that of the connection.\<close>

definition test_login_request :: login_request where
  "test_login_request =
     \<lparr>lr_component_type = i32_from_component Client, lr_uid = EXPECTED_UID, lr_pwd = EXPECTED_PWD,
      lr_on_ip = EXPECTED_IP, lr_on_port = ucast EXPECTED_PORT, lr_public_key = [],
      lr_domain_name = ''localhost''\<rparr>"

definition load_members :: "(world, unit, status) prog" where
  "load_members = mm_set_members inmemory_member_repository [new_member EXPECTED_UID EXPECTED_PWD]"

definition test_login :: "test_run \<Rightarrow> (world, login_response, status) prog" where
  "test_login r =
     auth_login (test_SR r) inmemory_member_repository (uuid r 0) (Some (tr_addr r)) test_login_request"

definition test_login_existing_member :: "test_run \<Rightarrow> (world, bool, status) prog" where
  "test_login_existing_member r =
     and_then load_members (\<lambda>_.
     expect_ok (\<lambda>x. lresp_message x = ''Login successful'' \<and> lresp_access_key x \<noteq> []) (test_login r))"

definition test_login_missing_member :: "test_run \<Rightarrow> (world, bool, status) prog" where
  "test_login_missing_member r =
     expect_err (\<lambda>s. st_code s = Unauthenticated \<and> st_message s = ''Invalid credentials'') (test_login r)"

definition test_logout_existing_session :: "test_run \<Rightarrow> (world, bool, status) prog" where
  "test_logout_existing_session r =
     and_then load_members (\<lambda>_.
     and_then (unwrap_result (test_login r)) (\<lambda>login_response.
     expect_ok (\<lambda>_. True) (auth_logout (test_SR r) (lresp_access_key login_response))))"

definition test_logout_missing_session :: "test_run \<Rightarrow> (world, bool, status) prog" where
  "test_logout_missing_session r =
     expect_err (\<lambda>s. st_code s = Unauthenticated \<and> st_message s = ''Invalid access key'')
       (auth_logout (test_SR r) ''some_invalid_key'')"

definition test_ping_existing_session :: "test_run \<Rightarrow> (world, bool, status) prog" where
  "test_ping_existing_session r =
     and_then load_members (\<lambda>_.
     and_then (unwrap_result (test_login r)) (\<lambda>login_response.
     expect_ok (\<lambda>x. presp_status x = ''PONG'')
       (auth_ping (test_SR r) (Some (tr_addr r)) 0 (lresp_access_key login_response))))"

definition test_ping_missing_session :: "test_run \<Rightarrow> (world, bool, status) prog" where
  "test_ping_missing_session r =
     expect_err (\<lambda>s. st_code s = Unauthenticated \<and> st_message s = ''Invalid access key'')
       (auth_ping (test_SR r) (Some (tr_addr r)) 0 ''some_invalid_key'')"

subsection \<open>The information service\<close>

definition test_status_of_client :: "test_run \<Rightarrow> (world, bool, status) prog" where
  "test_status_of_client r =
     and_then (set_test_session r 0 EXPECTED_UID Client) (\<lambda>access_key.
     expect_ok (\<lambda>x. sr_version x = ''1.0.0'' \<and> sr_connected_clients x = 1 \<and>
         sr_connected_proxies x = 0 \<and> sr_connected_controllers x = 0)
       (info_status (test_SR r) ''1.0.0'' access_key))"

subsection \<open>The route service\<close>

definition EXPECTED_ACCESS_KEY :: string where "EXPECTED_ACCESS_KEY = ''test_access_key''"
definition EXPECTED_CONVERSATION_ID :: string where
  "EXPECTED_CONVERSATION_ID = ''test_conversation_id''"
definition EXPECTED_TARGET :: string where "EXPECTED_TARGET = ''test_target''"
definition EXPECTED_NONCE :: string where "EXPECTED_NONCE = ''test_nonce''"

definition test_initialize_without_session :: "test_run \<Rightarrow> (world, bool, status) prog" where
  "test_initialize_without_session r =
     expect_err (\<lambda>s. st_code s = Unauthenticated)
       (route_initialize (test_SR r) (test_RM r) (uuid r 0) EXPECTED_ACCESS_KEY EXPECTED_TARGET)"

definition test_initialize_with_session :: "test_run \<Rightarrow> (world, bool, status) prog" where
  "test_initialize_with_session r =
     and_then (set_test_session r 0 EXPECTED_UID Client) (\<lambda>access_key.
     expect_ok (\<lambda>_. True)
       (route_initialize (test_SR r) (test_RM r) (uuid r 1) access_key EXPECTED_TARGET))"

definition test_route_without_session :: "test_run \<Rightarrow> (world, bool, status) prog" where
  "test_route_without_session r =
     expect_err (\<lambda>s. st_code s = Unauthenticated)
       (route_route (test_SR r) (test_RM r) (uuid r 0) EXPECTED_ACCESS_KEY EXPECTED_CONVERSATION_ID)"

definition test_route_without_conversation :: "test_run \<Rightarrow> (world, bool, status) prog" where
  "test_route_without_conversation r =
     and_then (set_test_session r 0 EXPECTED_UID Client) (\<lambda>access_key.
     expect_err (\<lambda>s. st_code s = NotFound)
       (route_route (test_SR r) (test_RM r) (uuid r 1) access_key EXPECTED_CONVERSATION_ID))"

definition test_route_without_proxies :: "test_run \<Rightarrow> (world, bool, status) prog" where
  "test_route_without_proxies r =
     and_then (set_test_session r 0 EXPECTED_UID Client) (\<lambda>access_key.
     and_then (init_test_conversation r 1 EXPECTED_UID EXPECTED_TARGET) (\<lambda>conversation_id.
     expect_err (\<lambda>s. st_code s = NotFound)
       (route_route (test_SR r) (test_RM r) (uuid r 2) access_key conversation_id)))"

definition test_route_with_proxies :: "test_run \<Rightarrow> (world, bool, status) prog" where
  "test_route_with_proxies r =
     and_then (set_test_session r 0 EXPECTED_UID Client) (\<lambda>access_key.
     and_then (set_test_session r 1 EXPECTED_UID Proxy) (\<lambda>_.
     and_then (init_test_conversation r 2 EXPECTED_UID EXPECTED_TARGET) (\<lambda>conversation_id.
     expect_ok (\<lambda>_. True)
       (route_route (test_SR r) (test_RM r) (uuid r 3) access_key conversation_id))))"

definition test_redeem_without_session :: "test_run \<Rightarrow> (world, bool, status) prog" where
  "test_redeem_without_session r =
     expect_err (\<lambda>s. st_code s = Unauthenticated)
       (route_redeem (test_SR r) (test_RM r) EXPECTED_ACCESS_KEY EXPECTED_CONVERSATION_ID EXPECTED_NONCE)"

definition test_redeem_without_conversation :: "test_run \<Rightarrow> (world, bool, status) prog" where
  "test_redeem_without_conversation r =
     and_then (set_test_session r 0 EXPECTED_UID Client) (\<lambda>access_key.
     expect_err (\<lambda>s. st_code s = NotFound)
       (route_redeem (test_SR r) (test_RM r) access_key EXPECTED_CONVERSATION_ID EXPECTED_NONCE))"

definition test_redeem_without_route :: "test_run \<Rightarrow> (world, bool, status) prog" where
  "test_redeem_without_route r =
     and_then (set_test_session r 0 EXPECTED_UID Client) (\<lambda>access_key.
     and_then (init_test_conversation r 1 EXPECTED_UID EXPECTED_TARGET) (\<lambda>conversation_id.
     expect_err (\<lambda>s. st_code s = Internal)
       (route_redeem (test_SR r) (test_RM r) access_key conversation_id EXPECTED_NONCE)))"

definition test_redeem_with_route :: "test_run \<Rightarrow> (world, bool, status) prog" where
  "test_redeem_with_route r =
     and_then (set_test_session r 0 EXPECTED_UID Client) (\<lambda>access_key.
     and_then (init_test_conversation r 1 EXPECTED_UID EXPECTED_TARGET) (\<lambda>conversation_id.
     and_then (and_then (rm_store_route (test_RM r) (uuid r 2) conversation_id
         test_connection_settings False) unwrap_or_panic) (\<lambda>nonce.
     expect_ok (\<lambda>_. True)
       (route_redeem (test_SR r) (test_RM r) access_key conversation_id nonce))))"

subsection \<open>The tests pass\<close>

text \<open>Four UUIDs that are not empty, and an order and a choice that are what their crates promise.\<close>

definition test_run_ok :: "test_run \<Rightarrow> bool" where
  "test_run_ok r \<longleftrightarrow>
     length (tr_uuids r) = 4 \<and> distinct (tr_uuids r) \<and> [] \<notin> set (tr_uuids r) \<and> picks (tr_pick r) \<and>
     enumerates (tr_order r Map.empty) (Map.empty :: string \<rightharpoonup> string) \<and>
     enumerates (tr_order r [EXPECTED_UID \<mapsto> uuid r 1]) [EXPECTED_UID \<mapsto> uuid r 1]"

lemma test_run_okE:
  assumes "test_run_ok r"
  obtains u0 u1 u2 u3 where "tr_uuids r = [u0, u1, u2, u3]" and "distinct [u0, u1, u2, u3]"
    and "u0 \<noteq> []" and "picks (tr_pick r)" and "tr_order r Map.empty = []"
    and "tr_order r [EXPECTED_UID \<mapsto> u1] = [EXPECTED_UID]"
proof -
  note r = assms [unfolded test_run_ok_def enumerates_def]
  then obtain u0 u1 u2 u3 where u: "tr_uuids r = [u0, u1, u2, u3]"
    by (auto simp: numeral_eq_Suc length_Suc_conv)
  with r have o: "distinct (tr_order r [EXPECTED_UID \<mapsto> u1])"
    "set (tr_order r [EXPECTED_UID \<mapsto> u1]) = {EXPECTED_UID}" by simp_all
  have "length (tr_order r [EXPECTED_UID \<mapsto> u1]) = 1"
    using distinct_card [OF o(1)] o(2) by simp
  then obtain x where "tr_order r [EXPECTED_UID \<mapsto> u1] = [x]"
    by (metis One_nat_def length_0_conv length_Suc_conv)
  then have "tr_order r [EXPECTED_UID \<mapsto> u1] = [EXPECTED_UID]" using o(2) by simp
  moreover have "distinct [u0, u1, u2, u3]" "u0 \<noteq> []" "picks (tr_pick r)" "tr_order r Map.empty = []"
    using r unfolding u by auto
  ultimately show thesis by (intro that [OF u])
qed

text \<open>Where nobody is logged in and nothing stored.\<close>

lemma new_world_sel [simp]:
  "clock new_world = 0" "session_repo new_world = new_session_tables"
  "route_repo new_world = new_route_tables" "member_repo new_world = Map.empty"
  "live_session new_world k = None" "stored_conversation new_world c = None"
  by (simp_all add: new_world_def live_session_def stored_conversation_def new_session_tables_def
      new_route_tables_def)

text \<open>The session a test sets, and the conversation it opens.\<close>

definition test_session :: "test_run \<Rightarrow> nat \<Rightarrow> string \<Rightarrow> component \<Rightarrow> session_info" where
  "test_session r i uid c =
     \<lparr>ss_access_key = uuid r i, ss_uid = uid, ss_client_ip = tr_addr r, ss_on_port_number = EXPECTED_PORT,
      ss_on_ip_address = EXPECTED_IP, ss_component_type = u8_from_component c,
      ss_public_key = as_bytes ''test_public_key'', ss_domain_name = ''test_domain_name''\<rparr>"

lemma set_test_session_run:
  "set_test_session r i uid c w =
     (Ok (uuid r i), w\<lparr>session_repo := put_session (clock w) c (test_session r i uid c) (session_repo w)\<rparr>)"
  by (simp add: set_test_session_def test_connection_settings_def sm_set_session_run test_session_def)

lemma init_test_conversation_run:
  "init_test_conversation r i from to w =
     (if rt_conversations (route_repo w) (create_conversation_id (uuid r i)) = None
      then Ok (create_conversation_id (uuid r i)) else Panic,
      w\<lparr>route_repo := snd (inmem_set_conversation (clock w)
        (new_conversation (create_conversation_id (uuid r i)) from to 1) (route_repo w))\<rparr>)"
  by (simp add: init_test_conversation_def rm_initialize_def new_route_manager_def new_strategies_def
      random_route_strategy_def get_routing_id_def repo_simps Let_def unwrap_or_panic_def prog_simps
      new_conversation_def)

lemma load_members_run:
  "load_members new_world = (Ok (), new_world\<lparr>member_repo := [EXPECTED_UID \<mapsto> new_member EXPECTED_UID EXPECTED_PWD]\<rparr>)"
  by (simp add: load_members_def repo_simps new_member_def prog_simps)

lemma guard_tests_pass:
  "passes (test_check_session_invalid r)" "passes (test_check_session_valid r)"
  "passes (test_check_conversation_missing r)" "passes (test_check_conversation_existing r)"
  by (simp_all add: passes_in_def test_check_session_invalid_def test_check_session_valid_def
      test_check_conversation_missing_def test_check_conversation_existing_def expect_ok_def expect_err_def
      check_session_run inmem_check_conversation_run set_test_session_run init_test_conversation_run
      live_session_def stored_conversation_def test_session_def new_session_tables_def new_route_tables_def
      new_conversation_def prog_simps)

lemma auth_tests_pass:
  assumes "uuid r 0 \<noteq> []"
  shows "passes (test_login_existing_member r)" "passes (test_login_missing_member r)"
    "passes (test_logout_existing_session r)" "passes (test_logout_missing_session r)"
    "passes (test_ping_existing_session r)" "passes (test_ping_missing_session r)"
proof -
  have uid: "EXPECTED_UID \<noteq> []" by (simp add: EXPECTED_UID_def)
  note run = passes_in_def test_login_def login_closed test_login_request_def load_members_run
    known_credentials_def new_member_def expect_ok_def expect_err_def uid and_then_def unwrap_result_def
    logout_closed ping_closed
  have live: "live_session (w\<lparr>session_repo := put_session now c (login_session u a c req) st\<rparr>) u =
      Some (login_session u a c req)" for w now c u a req st
    by (simp add: live_session_def)
  show "passes (test_login_existing_member r)" "passes (test_login_missing_member r)"
    "passes (test_logout_existing_session r)" "passes (test_logout_missing_session r)"
    "passes (test_ping_existing_session r)" "passes (test_ping_missing_session r)"
    using assms
    by (simp_all add: run live test_login_existing_member_def test_login_missing_member_def
        test_logout_existing_session_def test_logout_missing_session_def
        test_ping_existing_session_def test_ping_missing_session_def)
qed

lemma status_test_passes: "passes (test_status_of_client r)"
  by (simp add: passes_in_def test_status_of_client_def set_test_session_run and_then_def expect_ok_def
      status_closed live_session_def test_session_def inmem_count_proxies_def inmem_count_clients_def
      inmem_count_controllers_def inmem_get_session_def new_session_tables_def count_to_u32_def)

text \<open>The route service: the state a test prepares, and its look-ups.\<close>

lemma test_look_ups [simp]:
  "live_session (w\<lparr>session_repo := put_session now c s st\<rparr>) (ss_access_key s) = Some s"
  "stored_conversation (w\<lparr>session_repo := st\<rparr>) = stored_conversation w"
  "stored_conversation (w\<lparr>route_repo := t\<rparr>) = map_option ew_value \<circ> rt_conversations t"
  "stored_route (w\<lparr>session_repo := st\<rparr>) = stored_route w"
  "stored_route (w\<lparr>route_repo := t\<rparr>) cid n = map_option ew_value (rt_routes t n)"
  by (simp_all add: live_session_def stored_conversation_def stored_route_def fun_eq_iff)

lemma test_session_sel [simp]:
  "ss_access_key (test_session r i uid c) = uuid r i" "ss_uid (test_session r i uid c) = uid"
  by (simp_all add: test_session_def)

lemma live_test_session:
  "live_session (w\<lparr>session_repo := put_session now c (test_session r i uid c) st\<rparr>) (uuid r i) =
     Some (test_session r i uid c)"
  using test_look_ups(1) [where w = w and s = "test_session r i uid c"] by simp

lemmas route_test_run = passes_in_def set_test_session_run init_test_conversation_run live_test_session
  expect_ok_def expect_err_def and_then_def initialize_closed route_closed redeem_closed
  new_route_tables_def

lemma initialize_tests_pass:
  "passes (test_initialize_without_session r)" "passes (test_initialize_with_session r)"
  by (simp_all add: route_test_run test_initialize_without_session_def test_initialize_with_session_def
      Let_def new_conversation_def)

lemma redeem_tests_pass:
  "passes (test_redeem_without_session r)" "passes (test_redeem_without_conversation r)"
  "passes (test_redeem_without_route r)" "passes (test_redeem_with_route r)"
proof -
  show "passes (test_redeem_without_session r)" "passes (test_redeem_without_conversation r)"
    "passes (test_redeem_without_route r)"
    by (simp_all add: route_test_run test_redeem_without_session_def test_redeem_without_conversation_def
        test_redeem_without_route_def new_conversation_def)
  show "passes (test_redeem_with_route r)"
    by (simp add: route_test_run test_redeem_with_route_def new_conversation_def rm_store_route_def
        Let_def repo_simps set_route_fst set_route_conversations unwrap_or_panic_def ret_def)
qed

lemma route_tests_pass:
  assumes "test_run_ok r"
  shows "passes (test_route_without_session r)" "passes (test_route_without_conversation r)"
    "passes (test_route_without_proxies r)" "passes (test_route_with_proxies r)"
proof -
  obtain u0 u1 u2 u3 where u: "tr_uuids r = [u0, u1, u2, u3]" "distinct [u0, u1, u2, u3]"
    and pick: "picks (tr_pick r)" and order: "tr_order r Map.empty = []"
      "tr_order r [EXPECTED_UID \<mapsto> u1] = [EXPECTED_UID]"
    using assms by (rule test_run_okE)
  show "passes (test_route_without_session r)" "passes (test_route_without_conversation r)"
    by (simp_all add: route_test_run test_route_without_session_def test_route_without_conversation_def)
  show "passes (test_route_without_proxies r)"
    using order(1)
    by (simp add: route_test_run test_route_without_proxies_def new_conversation_def next_hop_def
        new_session_tables_def inmem_get_proxies_def proxy_sessions_def List.map_filter_simps
        inmem_get_session_def)
  let ?p = "test_session r 1 EXPECTED_UID Proxy"
  have pick1: "random_next_route (tr_pick r) [?p] w = ((Ok (Some ?p), w) :: (session_info option, status) outcome \<times> world)"
    for w
    by (rule random_next_route_Some [OF pick, of "[?p]" w]) auto
  have "u1 \<noteq> u0" using u(2) by auto
  then show "passes (test_route_with_proxies r)"
    using u(1) order(2) pick1
    by (simp add: route_test_run test_route_with_proxies_def new_conversation_def next_hop_def
        new_session_tables_def inmem_get_proxies_def proxy_sessions_def List.map_filter_simps
        inmem_get_session_def live_session_def issue_def set_route_fst)
qed

definition service_tests :: "(test_run \<Rightarrow> (world, bool, status) prog) list" where
  "service_tests =
     [test_check_session_invalid, test_check_session_valid, test_check_conversation_missing,
      test_check_conversation_existing, test_login_existing_member, test_login_missing_member,
      test_logout_existing_session, test_logout_missing_session, test_ping_existing_session,
      test_ping_missing_session, test_status_of_client, test_initialize_without_session,
      test_initialize_with_session, test_route_without_session, test_route_without_conversation,
      test_route_without_proxies, test_route_with_proxies, test_redeem_without_session,
      test_redeem_without_conversation, test_redeem_without_route, test_redeem_with_route]"

text \<open>
  Whatever distinct UUIDs are drawn, whatever the address, and whatever the order and the choice.
\<close>

lemma service_tests_pass:
  assumes "test_run_ok r"
  shows "list_all (\<lambda>test. passes (test r)) service_tests"
proof -
  have "uuid r 0 \<noteq> []" using assms by (auto elim: test_run_okE)
  then show ?thesis
    using auth_tests_pass route_tests_pass [OF assms]
    by (simp add: service_tests_def guard_tests_pass status_test_passes initialize_tests_pass redeem_tests_pass)
qed

end
