(* ===== verification/Settings_Tests.thy ===== *)
theory Settings_Tests
  imports Crosscutting
begin

section \<open>The tests of the crate \<^verbatim>\<open>crosscutting\<close>, in the model\<close>

text \<open>
  The modules \<^verbatim>\<open>tests\<close> of \<^verbatim>\<open>lib.rs\<close> and \<^verbatim>\<open>settings/service.rs\<close> and the files of
  \<^verbatim>\<open>crosscutting/tests\<close>.  A test is the conjunction of its assertions over the environment it runs
  in; the parsers of URIs and addresses and the name of the host are part of that environment.
\<close>

record 'uri settings_run =
  st_env :: environment
  st_uri :: "string \<rightharpoonup> 'uri"
  st_addr :: "string \<rightharpoonup> socket_addr"
  st_hostname :: "bytes option"

definition is_ok :: "('a, 'e) outcome \<Rightarrow> bool" where
  "is_ok x \<longleftrightarrow> (case x of Ok _ \<Rightarrow> True | _ \<Rightarrow> False)"

definition is_err :: "('a, 'e) outcome \<Rightarrow> bool" where
  "is_err x \<longleftrightarrow> (case x of Err _ \<Rightarrow> True | _ \<Rightarrow> False)"

subsection \<open>The modules of the crate\<close>

text \<open>An integer literal without a suffix is an \<^verbatim>\<open>i32\<close>.\<close>

definition test_components :: "'uri settings_run \<Rightarrow> bool" where
  "test_components s \<longleftrightarrow>
     component_from_i32 0 = Some Controller \<and> component_from_i32 1 = Some Proxy
     \<and> component_from_i32 2 = Some Client \<and> component_from_i32 3 = None"

text \<open>\<^verbatim>\<open>std::env::set_var\<close> and \<^verbatim>\<open>remove_var\<close>.\<close>

definition set_var :: "string \<Rightarrow> string \<Rightarrow> environment \<Rightarrow> environment" where
  "set_var name v env = env\<lparr>env_var := (env_var env)(name \<mapsto> v)\<rparr>"

definition remove_var :: "string \<Rightarrow> environment \<Rightarrow> environment" where
  "remove_var name env = env\<lparr>env_var := (env_var env)(name := None)\<rparr>"

definition test_endpoint_valid :: "'uri settings_run \<Rightarrow> bool" where
  "test_endpoint_valid s \<longleftrightarrow>
     get_service_endpoint
       (set_var ''CONTROLLER_PORT'' ''8080'' (set_var ''CONTROLLER_IP'' ''192.168.1.1'' (st_env s)))
       ''CONTROLLER_IP'' ''CONTROLLER_PORT'' = Ok (''192.168.1.1'', 8080)"

definition test_settings_missing_ip :: "'uri settings_run \<Rightarrow> bool" where
  "test_settings_missing_ip s \<longleftrightarrow>
     is_err (get_controller_connection_settings
       (set_var ''CONTROLLER_PORT'' ''8080'' (remove_var ''CONTROLLER_IP'' (st_env s))))"

definition test_settings_invalid_port :: "'uri settings_run \<Rightarrow> bool" where
  "test_settings_invalid_port s \<longleftrightarrow>
     is_err (get_controller_connection_settings
       (set_var ''CONTROLLER_PORT'' ''invalid_port'' (set_var ''CONTROLLER_IP'' ''192.168.1.1'' (st_env s))))"

definition test_domain_name_valid :: "'uri settings_run \<Rightarrow> bool" where
  "test_domain_name_valid s \<longleftrightarrow>
     get_domain_name (set_var ''CONTROLLER_DOMAIN_NAME'' ''example.com'' (st_env s)) ''CONTROLLER_DOMAIN_NAME''
       = Ok ''example.com''"

definition test_domain_name_missing :: "'uri settings_run \<Rightarrow> bool" where
  "test_domain_name_missing s \<longleftrightarrow>
     is_err (get_domain_name (remove_var ''CONTROLLER_DOMAIN_NAME'' (st_env s)) ''CONTROLLER_DOMAIN_NAME'')"

subsection \<open>\<^verbatim>\<open>auth_tests.rs\<close>\<close>

definition test_credentials_valid :: "'uri settings_run \<Rightarrow> bool" where
  "test_credentials_valid s \<longleftrightarrow>
     get_credentials (set_var ''PWD'' ''password'' (set_var ''UID'' ''user'' (st_env s)))
       = Ok \<lparr>cred_uid = ''user'', cred_pwd = ''password''\<rparr>"

definition test_credentials_missing_uid :: "'uri settings_run \<Rightarrow> bool" where
  "test_credentials_missing_uid s \<longleftrightarrow>
     is_err (get_credentials (set_var ''PWD'' ''password'' (remove_var ''UID'' (st_env s))))"

definition test_credentials_missing_pwd :: "'uri settings_run \<Rightarrow> bool" where
  "test_credentials_missing_pwd s \<longleftrightarrow>
     is_err (get_credentials (remove_var ''PWD'' (set_var ''UID'' ''user'' (st_env s))))"

definition test_credentials_missing_both :: "'uri settings_run \<Rightarrow> bool" where
  "test_credentials_missing_both s \<longleftrightarrow>
     is_err (get_credentials (remove_var ''PWD'' (remove_var ''UID'' (st_env s))))"

subsection \<open>\<^verbatim>\<open>environment_tests.rs\<close>\<close>

text \<open>\<^verbatim>\<open>Path::to_str\<close> is there when the path is well-formed UTF-8.\<close>

definition has_str :: "(string, 'e) outcome \<Rightarrow> bool" where
  "has_str x \<longleftrightarrow> (case x of Ok path \<Rightarrow> valid_utf8 (as_bytes path) | _ \<Rightarrow> False)"

definition test_certificates_dir_default :: "'uri settings_run \<Rightarrow> bool" where
  "test_certificates_dir_default s \<longleftrightarrow>
     has_str (get_certificates_dir (remove_var ''CERTS_DIR'' (st_env s)))"

definition test_certificates_dir_custom :: "'uri settings_run \<Rightarrow> bool" where
  "test_certificates_dir_custom s \<longleftrightarrow>
     get_certificates_dir (set_var ''CERTS_DIR'' ''/custom/certs'' (st_env s)) = Ok ''/custom/certs''"

definition test_logs_dir_default :: "'uri settings_run \<Rightarrow> bool" where
  "test_logs_dir_default s \<longleftrightarrow> has_str (get_logs_dir (remove_var ''LOGS_DIR'' (st_env s)))"

definition test_logs_dir_custom :: "'uri settings_run \<Rightarrow> bool" where
  "test_logs_dir_custom s \<longleftrightarrow>
     get_logs_dir (set_var ''LOGS_DIR'' ''/custom/logs'' (st_env s)) = Ok ''/custom/logs''"

definition test_env_variable_existing :: "'uri settings_run \<Rightarrow> bool" where
  "test_env_variable_existing s \<longleftrightarrow>
     get_env_variable (set_var ''TEST_VAR'' ''value'' (st_env s)) ''TEST_VAR'' = Ok ''value''"

definition test_env_variable_missing :: "'uri settings_run \<Rightarrow> bool" where
  "test_env_variable_missing s \<longleftrightarrow>
     is_err (get_env_variable (remove_var ''MISSING_VAR'' (st_env s)) ''MISSING_VAR'')"

definition test_hostname_default :: "'uri settings_run \<Rightarrow> bool" where
  "test_hostname_default s \<longleftrightarrow> get_hostname (st_hostname s) \<noteq> []"

subsection \<open>\<^verbatim>\<open>networking_tests.rs\<close>\<close>

definition test_https_endpoint_valid :: "'uri settings_run \<Rightarrow> bool" where
  "test_https_endpoint_valid s \<longleftrightarrow>
     (case st_uri s ''https://127.0.0.1:443'' of None \<Rightarrow> False
      | Some uri \<Rightarrow> to_https_endpoint (st_uri s) ''127.0.0.1'' 443 = Ok uri)"

definition test_socket_address_valid :: "'uri settings_run \<Rightarrow> bool" where
  "test_socket_address_valid s \<longleftrightarrow>
     (case st_addr s ''127.0.0.1:8080'' of None \<Rightarrow> False
      | Some addr \<Rightarrow> to_socket_address (st_addr s) ''127.0.0.1'' 8080 = Ok addr)"

definition test_socket_address_invalid_ip :: "'uri settings_run \<Rightarrow> bool" where
  "test_socket_address_invalid_ip s \<longleftrightarrow> is_err (to_socket_address (st_addr s) ''invalid_ip'' 8080)"

definition test_https_endpoint_empty_ip :: "'uri settings_run \<Rightarrow> bool" where
  "test_https_endpoint_empty_ip s \<longleftrightarrow> is_ok (to_https_endpoint (st_uri s) [] 443)"

definition test_socket_address_empty_ip :: "'uri settings_run \<Rightarrow> bool" where
  "test_socket_address_empty_ip s \<longleftrightarrow> is_err (to_socket_address (st_addr s) [] 8080)"

definition test_https_endpoint_large_port :: "'uri settings_run \<Rightarrow> bool" where
  "test_https_endpoint_large_port s \<longleftrightarrow> is_ok (to_https_endpoint (st_uri s) ''127.0.0.1'' (- 1))"

subsection \<open>\<^verbatim>\<open>service_tests.rs\<close>\<close>

definition test_settings_valid :: "'uri settings_run \<Rightarrow> bool" where
  "test_settings_valid s \<longleftrightarrow>
     is_ok (get_connection_settings
       (set_var ''CERTS_DIR'' ''../assets/certs/controller''
         (set_var ''DOMAIN_NAME'' ''localhost''
           (set_var ''LISTENING_PORT'' ''9090'' (set_var ''LISTENING_IP'' ''127.0.0.1'' (st_env s))))))"

definition test_controller_settings_valid :: "'uri settings_run \<Rightarrow> bool" where
  "test_controller_settings_valid s \<longleftrightarrow>
     is_ok (get_controller_connection_settings
       (set_var ''CONTROLLER_CERT_FILE'' ''../assets/certs/controller/ca.crt''
         (set_var ''CONTROLLER_DOMAIN_NAME'' ''localhost''
           (set_var ''CONTROLLER_PORT'' ''9090'' (set_var ''CONTROLLER_IP'' ''127.0.0.1'' (st_env s))))))"

subsection \<open>The tests pass\<close>

definition settings_tests :: "('uri settings_run \<Rightarrow> bool) list" where
  "settings_tests =
     [test_components, test_endpoint_valid, test_settings_missing_ip, test_settings_invalid_port,
      test_domain_name_valid, test_domain_name_missing, test_credentials_valid,
      test_credentials_missing_uid, test_credentials_missing_pwd, test_credentials_missing_both,
      test_certificates_dir_default, test_certificates_dir_custom, test_logs_dir_default,
      test_logs_dir_custom, test_env_variable_existing, test_env_variable_missing,
      test_hostname_default, test_https_endpoint_valid, test_socket_address_valid,
      test_socket_address_invalid_ip, test_https_endpoint_empty_ip, test_socket_address_empty_ip,
      test_https_endpoint_large_port, test_settings_valid, test_controller_settings_valid]"

text \<open>
  The tests run in a directory whose name is well-formed, beside the certificate of the repository, on
  a host with a name, with parsers that know the addresses of the tests from what is none.
\<close>

definition settings_run_ok :: "'uri settings_run \<Rightarrow> bool" where
  "settings_run_ok s \<longleftrightarrow>
     (case current_dir (st_env s) of Some dir \<Rightarrow> valid_utf8 (as_bytes dir) | None \<Rightarrow> False) \<and>
     read_file (st_env s) ''../assets/certs/controller/ca.crt'' \<noteq> None \<and>
     get_hostname (st_hostname s) \<noteq> [] \<and>
     set [''https://127.0.0.1:443'', ''https://:443'', ''https://127.0.0.1:4294967295''] \<subseteq> dom (st_uri s) \<and>
     st_addr s ''127.0.0.1:8080'' \<noteq> None \<and> st_addr s ''invalid_ip:8080'' = None \<and>
     st_addr s '':8080'' = None"

lemma test_ports:
  "parse_u16 ''8080'' = Some 8080" "parse_u16 ''9090'' = Some 9090" "parse_u16 ''invalid_port'' = None"
proof -
  have "parse_digits 65536 0 ''8080'' = Some 8080" "parse_digits 65536 0 ''9090'' = Some 9090"
    by (simp_all add: digit_value_def byte_def)
  then show "parse_u16 ''8080'' = Some 8080" "parse_u16 ''9090'' = Some 9090"
    "parse_u16 ''invalid_port'' = None"
    by (simp_all add: parse_u16_def parse_unsigned_def digit_value_def byte_def)
qed

lemma show_test_ports:
  "show_nat 8080 = ''8080''" "show_nat 443 = ''443''" "show_nat 4294967295 = ''4294967295''"
  by (simp_all add: show_nat.simps digit_def char_of_def bit_0)

lemma u32_max: "unat (- 1 :: u32) = 4294967295"
  by (simp add: unsigned_minus_1_eq_mask mask_eq_exp_minus_1)

lemmas settings_test_run = set_var_def remove_var_def get_env_variable_def is_ok_def is_err_def
  get_service_endpoint_def get_domain_name_def get_controller_connection_settings_def
  get_connection_settings_def load_connection_settings_def test_ports

lemma module_tests_pass:
  "test_components s" "test_endpoint_valid s" "test_settings_missing_ip s"
  "test_settings_invalid_port s" "test_domain_name_valid s" "test_domain_name_missing s"
  by (simp_all add: settings_test_run test_components_def component_from_i32_def test_endpoint_valid_def
      test_settings_missing_ip_def test_settings_invalid_port_def test_domain_name_valid_def
      test_domain_name_missing_def)

lemma credentials_tests_pass:
  "test_credentials_valid s" "test_credentials_missing_uid s" "test_credentials_missing_pwd s"
  "test_credentials_missing_both s"
  by (simp_all add: settings_test_run get_credentials_def test_credentials_valid_def
      test_credentials_missing_uid_def test_credentials_missing_pwd_def test_credentials_missing_both_def)

lemma environment_tests_pass:
  assumes "settings_run_ok s"
  shows "test_certificates_dir_default s" "test_certificates_dir_custom s" "test_logs_dir_default s"
    "test_logs_dir_custom s" "test_env_variable_existing s" "test_env_variable_missing s"
    "test_hostname_default s"
proof -
  obtain dir where "current_dir (st_env s) = Some dir" "valid_utf8 (as_bytes dir)"
    using assms by (auto simp: settings_run_ok_def split: option.splits)
  then show "test_certificates_dir_default s" "test_certificates_dir_custom s"
    "test_logs_dir_default s" "test_logs_dir_custom s"
    by (simp_all add: settings_test_run has_str_def get_certificates_dir_def get_logs_dir_def
        test_certificates_dir_default_def test_certificates_dir_custom_def test_logs_dir_default_def
        test_logs_dir_custom_def)
  show "test_env_variable_existing s" "test_env_variable_missing s" "test_hostname_default s"
    using assms
    by (simp_all add: settings_test_run settings_run_ok_def test_env_variable_existing_def
        test_env_variable_missing_def test_hostname_default_def)
qed

lemma networking_tests_pass:
  assumes "settings_run_ok s"
  shows "test_https_endpoint_valid s" "test_socket_address_valid s" "test_socket_address_invalid_ip s"
    "test_https_endpoint_empty_ip s" "test_socket_address_empty_ip s" "test_https_endpoint_large_port s"
  using assms
  by (auto simp: settings_run_ok_def is_ok_def is_err_def to_https_endpoint_def to_endpoint_def
      to_socket_address_def show_test_ports u32_max test_https_endpoint_valid_def test_socket_address_valid_def
      test_socket_address_invalid_ip_def test_https_endpoint_empty_ip_def
      test_socket_address_empty_ip_def test_https_endpoint_large_port_def dom_def)

lemma service_file_tests_pass:
  assumes "settings_run_ok s"
  shows "test_settings_valid s" "test_controller_settings_valid s"
proof -
  obtain dir cert where "current_dir (st_env s) = Some dir"
    "read_file (st_env s) ''../assets/certs/controller/ca.crt'' = Some cert"
    using assms by (auto simp: settings_run_ok_def split: option.splits)
  then show "test_settings_valid s" "test_controller_settings_valid s"
    by (simp_all add: settings_test_run get_cert_file_def get_certificates_dir_def path_join_def
        get_controller_cert_file_def test_settings_valid_def test_controller_settings_valid_def)
qed

lemma settings_tests_pass:
  "settings_run_ok s \<Longrightarrow> list_all (\<lambda>test. test s) settings_tests"
  by (simp add: settings_tests_def module_tests_pass credentials_tests_pass environment_tests_pass
      networking_tests_pass service_file_tests_pass)

end
