(* ===== verification/Manager_Tests.thy ===== *)
theory Manager_Tests
  imports Controller_Tests Settings_Tests Domain_Components
begin

section \<open>The unit tests of the managers and the storage, in the model\<close>

text \<open>
  The modules \<^verbatim>\<open>tests\<close> of \<^verbatim>\<open>session.rs\<close>, \<^verbatim>\<open>membership.rs\<close>, \<^verbatim>\<open>routing.rs\<close> and
  \<^verbatim>\<open>storage/mod.rs\<close> of the controller.  A mock repository is a record of operations that panic, but for the one a
  test expects.
\<close>

subsection \<open>The session manager\<close>

definition mock_session_repository :: "(unit, status) session_repository" where
  "mock_session_repository =
     \<lparr>repo_set_session = (\<lambda>_. panic), repo_get_session = (\<lambda>_. panic), repo_remove_session = (\<lambda>_. panic),
      repo_get_proxies = (\<lambda>_. panic), repo_get_client = (\<lambda>_. panic), repo_count_proxies = panic,
      repo_count_clients = panic, repo_count_controllers = panic\<rparr>"

text \<open>\<^verbatim>\<open>withf\<close>: an expectation on the arguments of a call.\<close>

definition when_called :: "bool \<Rightarrow> ('w, 'a, 'e) prog \<Rightarrow> ('w, 'a, 'e) prog" where
  "when_called expected answer = (if expected then answer else panic)"

definition SESSION_UID :: string where "SESSION_UID = ''1234567890''"
definition SESSION_KEY :: string where "SESSION_KEY = ''test_access_key''"

text \<open>\<^verbatim>\<open>impl PartialEq for SessionInfo\<close> of the tests.\<close>

definition session_eq :: "session_info \<Rightarrow> session_info \<Rightarrow> bool" where
  "session_eq a b \<longleftrightarrow>
     ss_access_key a = ss_access_key b \<and> ss_uid a = ss_uid b \<and> ss_client_ip a = ss_client_ip b
     \<and> ss_component_type a = ss_component_type b \<and> ss_on_ip_address a = ss_on_ip_address b
     \<and> ss_on_port_number a = ss_on_port_number b"

definition expected_session :: "test_run \<Rightarrow> string \<Rightarrow> string \<Rightarrow> u8 \<Rightarrow> session_info" where
  "expected_session r access_key uid component_type =
     \<lparr>ss_access_key = access_key, ss_uid = uid, ss_client_ip = tr_addr r,
      ss_on_port_number = EXPECTED_PORT, ss_on_ip_address = EXPECTED_IP,
      ss_component_type = component_type, ss_public_key = as_bytes ''test_public_key'',
      ss_domain_name = ''test_domain_name''\<rparr>"

definition test_set_session :: "test_run \<Rightarrow> (unit, bool, status) prog" where
  "test_set_session r =
     expect_ok (\<lambda>access_key. access_key \<noteq> [])
       (sm_set_session (mock_session_repository\<lparr>repo_set_session := (\<lambda>s.
            when_called (ss_uid s = SESSION_UID \<and> ss_client_ip s = tr_addr r
              \<and> ss_on_ip_address s = EXPECTED_IP \<and> ss_on_port_number s = EXPECTED_PORT) (ret ()))\<rparr>)
          (uuid r 0) SESSION_UID Proxy (tr_addr r) test_connection_settings)"

definition test_get_session :: "test_run \<Rightarrow> (unit, bool, status) prog" where
  "test_get_session r =
     expect_ok (\<lambda>found. case found of None \<Rightarrow> False
         | Some s \<Rightarrow> session_eq s (expected_session r SESSION_KEY SESSION_UID 1))
       (sm_get_session (mock_session_repository\<lparr>repo_get_session := (\<lambda>key.
            when_called (key = SESSION_KEY) (ret (Some (expected_session r SESSION_KEY SESSION_UID 1))))\<rparr>)
          SESSION_KEY)"

definition test_remove_session :: "test_run \<Rightarrow> (unit, bool, status) prog" where
  "test_remove_session r =
     expect_ok (\<lambda>_. True)
       (sm_remove_session (mock_session_repository\<lparr>repo_remove_session := (\<lambda>key.
            when_called (key = SESSION_KEY) (ret ()))\<rparr>)
          SESSION_KEY)"

definition expected_proxies :: "test_run \<Rightarrow> session_info list" where
  "expected_proxies r =
     [expected_session r ''other key'' ''other uid'' 2, expected_session r SESSION_KEY SESSION_UID 2]"

definition test_get_proxies :: "test_run \<Rightarrow> (unit, bool, status) prog" where
  "test_get_proxies r =
     expect_ok (\<lambda>found. case found of None \<Rightarrow> False
         | Some proxies \<Rightarrow> list_all2 session_eq proxies (take 1 (expected_proxies r)))
       (sm_get_proxies (mock_session_repository\<lparr>repo_get_proxies := (\<lambda>key.
            when_called (key = SESSION_KEY)
              (ret (Some (filter (\<lambda>p. ss_access_key p \<noteq> SESSION_KEY) (expected_proxies r)))))\<rparr>)
          SESSION_KEY)"

definition test_get_client :: "test_run \<Rightarrow> (unit, bool, status) prog" where
  "test_get_client r =
     expect_ok (\<lambda>found. case found of None \<Rightarrow> False
         | Some s \<Rightarrow> session_eq s (expected_session r SESSION_KEY SESSION_UID 1))
       (sm_get_client (mock_session_repository\<lparr>repo_get_client := (\<lambda>key.
            when_called (key = SESSION_UID) (ret (Some (expected_session r SESSION_KEY SESSION_UID 1))))\<rparr>)
          SESSION_UID)"

definition test_count_proxies :: "test_run \<Rightarrow> (unit, bool, status) prog" where
  "test_count_proxies r =
     expect_ok (\<lambda>n. n = 5) (sm_count_proxies (mock_session_repository\<lparr>repo_count_proxies := ret 5\<rparr>))"

definition test_count_clients :: "test_run \<Rightarrow> (unit, bool, status) prog" where
  "test_count_clients r =
     expect_ok (\<lambda>n. n = 10) (sm_count_clients (mock_session_repository\<lparr>repo_count_clients := ret 10\<rparr>))"

definition test_count_controllers :: "test_run \<Rightarrow> (unit, bool, status) prog" where
  "test_count_controllers r =
     expect_ok (\<lambda>n. n = 3)
       (sm_count_controllers (mock_session_repository\<lparr>repo_count_controllers := ret 3\<rparr>))"

subsection \<open>The member manager\<close>

definition mock_member_repository :: "(string \<Rightarrow> (unit, member option, status) prog) \<Rightarrow>
  (unit, status) member_repository" where
  "mock_member_repository get_member =
     \<lparr>repo_set_member = (\<lambda>_. panic), repo_get_member = get_member\<rparr>"

definition test_get_member_missing :: "test_run \<Rightarrow> (unit, bool, status) prog" where
  "test_get_member_missing r =
     expect_ok (\<lambda>found. found = None)
       (mm_get_member (mock_member_repository (\<lambda>uid. when_called (uid = SESSION_UID) (ret None)))
          SESSION_UID)"

definition test_get_member_existing :: "test_run \<Rightarrow> (unit, bool, status) prog" where
  "test_get_member_existing r =
     expect_ok (\<lambda>found. case found of None \<Rightarrow> False
         | Some m \<Rightarrow> mb_uid m = SESSION_UID \<and> mb_pwd m = ''password'')
       (mm_get_member (mock_member_repository (\<lambda>uid. when_called (uid = SESSION_UID)
            (ret (Some (new_member SESSION_UID ''password'')))))
          SESSION_UID)"

subsection \<open>The route manager\<close>

definition mock_route_repository :: "(unit, status) route_repository" where
  "mock_route_repository =
     \<lparr>repo_set_conversation = (\<lambda>_. panic), repo_remove_conversation = (\<lambda>_. panic),
      repo_get_conversation = (\<lambda>_. panic), repo_set_route = (\<lambda>_ _. panic),
      repo_get_route = (\<lambda>_ _. panic), repo_remove_route = (\<lambda>_. panic)\<rparr>"

definition test_manager_initialize :: "test_run \<Rightarrow> (unit, bool, status) prog" where
  "test_manager_initialize r =
     expect_ok (\<lambda>result. result = Some EXPECTED_CONVERSATION_ID)
       (rm_initialize
          (new_route_manager (mock_route_repository\<lparr>repo_set_conversation := (\<lambda>_.
             ret (Some EXPECTED_CONVERSATION_ID))\<rparr>) (tr_pick r))
          (uuid r 0) ''from'' ''to'')"

definition test_store_route :: "test_run \<Rightarrow> (unit, bool, status) prog" where
  "test_store_route r =
     expect_ok (\<lambda>result. result = Some EXPECTED_NONCE)
       (rm_store_route
          (new_route_manager (mock_route_repository\<lparr>repo_set_route := (\<lambda>conversation_id route.
             when_called (conversation_id = EXPECTED_CONVERSATION_ID
               \<and> rt_on_ip_address route = EXPECTED_IP \<and> rt_on_port_number route = EXPECTED_PORT
               \<and> \<not> rt_end_route route) (ret (Some EXPECTED_NONCE)))\<rparr>) (tr_pick r))
          (uuid r 0) EXPECTED_CONVERSATION_ID test_connection_settings False)"

definition expected_route :: route where
  "expected_route =
     \<lparr>rt_on_ip_address = EXPECTED_IP, rt_on_port_number = EXPECTED_PORT,
      rt_public_key = as_bytes ''test_public_key'', rt_domain_name = ''test_domain_name'',
      rt_nonce = EXPECTED_NONCE, rt_end_route = False\<rparr>"

definition test_redeem_route :: "test_run \<Rightarrow> (unit, bool, status) prog" where
  "test_redeem_route r =
     expect_ok (\<lambda>result. case result of None \<Rightarrow> False | Some x \<Rightarrow> rt_on_ip_address x = EXPECTED_IP)
       (rm_redeem_route
          (new_route_manager (mock_route_repository
             \<lparr>repo_get_route := (\<lambda>conversation_id nonce.
                when_called (conversation_id = EXPECTED_CONVERSATION_ID \<and> nonce = EXPECTED_NONCE)
                  (ret (Some expected_route))),
              repo_remove_route := (\<lambda>nonce. when_called (nonce = EXPECTED_NONCE) (ret ()))\<rparr>) (tr_pick r))
          EXPECTED_CONVERSATION_ID EXPECTED_NONCE)"

definition test_redeem_route_missing :: "test_run \<Rightarrow> (unit, bool, status) prog" where
  "test_redeem_route_missing r =
     expect_ok (\<lambda>result. result = None)
       (rm_redeem_route
          (new_route_manager (mock_route_repository\<lparr>repo_get_route := (\<lambda>conversation_id nonce.
             when_called (conversation_id = EXPECTED_CONVERSATION_ID \<and> nonce = EXPECTED_NONCE)
               (ret None))\<rparr>) (tr_pick r))
          EXPECTED_CONVERSATION_ID EXPECTED_NONCE)"

text \<open>\<^verbatim>\<open>RouteManager::with_strategy_factory\<close> with one strategy that is mocked.\<close>

definition manager_with_strategy :: "(unit, status) route_strategy \<Rightarrow> (unit, status) route_manager" where
  "manager_with_strategy strategy =
     \<lparr>rm_repository = mock_route_repository, rm_strategies = [strategy]\<rparr>"

definition mock_strategy ::
  "(conversation \<Rightarrow> bool) \<Rightarrow> (session_info list \<Rightarrow> (unit, session_info option, status) prog) \<Rightarrow>
     (unit, status) route_strategy" where
  "mock_strategy has_reached_final_route get_next_route =
     \<lparr>strat_get_id = 1, strat_has_reached_final_route = has_reached_final_route,
      strat_get_next_route = (\<lambda>_. get_next_route)\<rparr>"

definition expected_conversation :: conversation where
  "expected_conversation = new_conversation EXPECTED_CONVERSATION_ID ''from'' ''to'' 1"

definition test_get_next_route :: "test_run \<Rightarrow> (unit, bool, status) prog" where
  "test_get_next_route r =
     expect_ok (\<lambda>result. result \<noteq> None)
       (rm_get_next_route
          (manager_with_strategy (mock_strategy (\<lambda>_. False)
             (\<lambda>proxies. ret (case proxies of [] \<Rightarrow> None | p # _ \<Rightarrow> Some p))))
          expected_conversation
          [expected_session r ''test_session_id'' ''from'' 2])"

definition test_check_for_final_route :: "test_run \<Rightarrow> (unit, bool, status) prog" where
  "test_check_for_final_route r =
     expect_ok (\<lambda>result. result)
       (rm_check_for_final_route (manager_with_strategy (mock_strategy (\<lambda>_. True) (\<lambda>_. panic)))
          expected_conversation)"

definition manager_tests :: "(test_run \<Rightarrow> (unit, bool, status) prog) list" where
  "manager_tests =
     [test_set_session, test_get_session, test_remove_session, test_get_proxies, test_get_client,
      test_count_proxies, test_count_clients, test_count_controllers, test_get_member_missing,
      test_get_member_existing, test_manager_initialize, test_store_route, test_redeem_route,
      test_redeem_route_missing, test_get_next_route, test_check_for_final_route]"

lemma manager_tests_pass:
  assumes "uuid r 0 \<noteq> []"
  shows "list_all (\<lambda>test. passes_in () (test r)) manager_tests"
proof -
  note run = passes_in_def expect_ok_def when_called_def session_manager_defs routing_defs prog_simps
    mm_get_member_def mock_session_repository_def mock_member_repository_def mock_route_repository_def
  have "passes_in () (test_set_session r)"
    using assms by (simp add: run test_set_session_def test_connection_settings_def)
  moreover have "passes_in () (test_get_session r)" "passes_in () (test_remove_session r)"
    "passes_in () (test_get_client r)"
    by (simp_all add: run test_get_session_def test_remove_session_def test_get_client_def session_eq_def)
  moreover have "passes_in () (test_get_proxies r)"
    by (simp add: run test_get_proxies_def session_eq_def expected_proxies_def expected_session_def
        SESSION_KEY_def)
  moreover have "passes_in () (test_count_proxies r)" "passes_in () (test_count_clients r)"
    "passes_in () (test_count_controllers r)"
    by (simp_all add: run test_count_proxies_def test_count_clients_def test_count_controllers_def)
  moreover have "passes_in () (test_get_member_missing r)" "passes_in () (test_get_member_existing r)"
    by (simp_all add: run test_get_member_missing_def test_get_member_existing_def new_member_def)
  moreover have "passes_in () (test_manager_initialize r)"
    by (simp add: run test_manager_initialize_def Let_def get_routing_id_def new_strategies_def)
  moreover have "passes_in () (test_store_route r)"
    by (simp add: run test_store_route_def Let_def test_connection_settings_def)
  moreover have "passes_in () (test_redeem_route r)" "passes_in () (test_redeem_route_missing r)"
    by (simp_all add: run test_redeem_route_def test_redeem_route_missing_def expected_route_def)
  moreover have "passes_in () (test_get_next_route r)" "passes_in () (test_check_for_final_route r)"
    by (simp_all add: run test_get_next_route_def test_check_for_final_route_def mock_strategy_def
        manager_with_strategy_def get_strategy_def expected_conversation_def new_conversation_def
        unwrap_or_panic_def)
  ultimately show ?thesis by (simp add: manager_tests_def)
qed

subsection \<open>The storage\<close>

text \<open>
  What the tests of \<^verbatim>\<open>create_...\<close> run in: an environment, the crate \<^verbatim>\<open>redis\<close> and what it depends on.
\<close>

record ('v, 'c, 'w, 'r) storage_run =
  sr_env :: environment
  sr_redis :: "('v, 'c, 'w, 'r) redis_crate"
  sr_codec :: codec
  sr_order :: proxy_order
  sr_pick :: "nat list \<Rightarrow> nat option"
  sr_state :: 'v

definition test_type_from_env :: "('v, 'c, 'w, 'r) storage_run \<Rightarrow> bool" where
  "test_type_from_env s \<longleftrightarrow> repository_type_from_env (sr_env s) = default_repository_type"

definition test_default_type :: "('v, 'c, 'w, 'r) storage_run \<Rightarrow> bool" where
  "test_default_type s \<longleftrightarrow> default_repository_type = InMemory"

definition test_type_from_one :: "('v, 'c, 'w, 'r) storage_run \<Rightarrow> bool" where
  "test_type_from_one s \<longleftrightarrow> repository_type_from_u8 1 = Redis"

definition test_type_from_zero :: "('v, 'c, 'w, 'r) storage_run \<Rightarrow> bool" where
  "test_type_from_zero s \<longleftrightarrow> repository_type_from_u8 0 = InMemory"

definition test_create_inmemory_sessions :: "('v, 'c, 'w, 'r) storage_run \<Rightarrow> bool" where
  "test_create_inmemory_sessions s \<longleftrightarrow>
     is_ok (fst (create_session_repository (sr_env s) (sr_redis s) (sr_codec s) (sr_order s) InMemory
       (sr_state s)))"

definition test_create_redis_sessions :: "('v, 'c, 'w, 'r) storage_run \<Rightarrow> bool" where
  "test_create_redis_sessions s \<longleftrightarrow>
     is_err (fst (create_session_repository (sr_env s) (sr_redis s) (sr_codec s) (sr_order s) Redis
       (sr_state s)))"

definition test_create_inmemory_routes :: "('v, 'c, 'w, 'r) storage_run \<Rightarrow> bool" where
  "test_create_inmemory_routes s \<longleftrightarrow>
     is_ok (fst (create_route_repository (sr_env s) (sr_redis s) (sr_codec s) InMemory (sr_state s)))"

definition test_create_redis_routes :: "('v, 'c, 'w, 'r) storage_run \<Rightarrow> bool" where
  "test_create_redis_routes s \<longleftrightarrow>
     is_err (fst (create_route_repository (sr_env s) (sr_redis s) (sr_codec s) Redis (sr_state s)))"

definition test_create_inmemory_members :: "('v, 'c, 'w, 'r) storage_run \<Rightarrow> bool" where
  "test_create_inmemory_members s \<longleftrightarrow>
     is_ok (fst (create_member_repository (sr_env s) (sr_redis s) (sr_codec s) InMemory (sr_state s)))"

definition test_create_redis_members :: "('v, 'c, 'w, 'r) storage_run \<Rightarrow> bool" where
  "test_create_redis_members s \<longleftrightarrow>
     is_err (fst (create_member_repository (sr_env s) (sr_redis s) (sr_codec s) Redis (sr_state s)))"

definition test_new_session_manager :: "('v, 'c, 'w, 'r) storage_run \<Rightarrow> bool" where
  "test_new_session_manager s \<longleftrightarrow>
     fst (new_session_manager (sr_env s) (sr_redis s) (sr_codec s) (sr_order s) InMemory (sr_state s))
       \<noteq> Panic"

definition test_new_member_manager :: "('v, 'c, 'w, 'r) storage_run \<Rightarrow> bool" where
  "test_new_member_manager s \<longleftrightarrow>
     fst (new_member_manager (sr_env s) (sr_redis s) (sr_codec s) InMemory (sr_state s)) \<noteq> Panic"

definition test_new_route_manager :: "('v, 'c, 'w, 'r) storage_run \<Rightarrow> bool" where
  "test_new_route_manager s \<longleftrightarrow>
     (case fst (create_route_manager (sr_env s) (sr_redis s) (sr_codec s) (sr_pick s) InMemory (sr_state s)) of
        Ok (Inl manager) \<Rightarrow> rm_strategies manager \<noteq> []
      | Ok (Inr manager) \<Rightarrow> rm_strategies manager \<noteq> []
      | _ \<Rightarrow> False)"

definition storage_tests :: "(('v, 'c, 'w, 'r) storage_run \<Rightarrow> bool) list" where
  "storage_tests =
     [test_type_from_env, test_default_type, test_type_from_one, test_type_from_zero,
      test_create_inmemory_sessions, test_create_redis_sessions, test_create_inmemory_routes,
      test_create_redis_routes, test_create_inmemory_members, test_create_redis_members,
      test_new_session_manager, test_new_member_manager, test_new_route_manager]"

text \<open>The tests run where no repository is chosen and no Redis server can be reached.\<close>

definition storage_run_ok :: "('v, 'c, 'w, 'r) storage_run \<Rightarrow> bool" where
  "storage_run_ok s \<longleftrightarrow>
     env_var (sr_env s) ''REPOSITORY'' = None \<and>
     (case client_open (sr_redis s) (redis_url (sr_env s)) (sr_state s) of
        (Ok client, v) \<Rightarrow> \<not> is_ok (fst (client_get_connection (sr_redis s) client v))
      | _ \<Rightarrow> True)"

lemma redis_unreachable:
  fixes s :: "('v, 'c, 'w, 'r) storage_run"
  assumes "storage_run_ok s"
  obtains v where "redis_new (sr_redis s) (redis_url (sr_env s)) (sr_state s) =
    ((Panic, v) :: (('w, 'r) redis, string) outcome \<times> 'v)"
proof -
  have "fst (connects (sr_redis s) (redis_url (sr_env s)) (sr_state s)) = None"
    using assms by (auto simp: storage_run_ok_def is_ok_def connects_def split: prod.splits outcome.splits)
  then show thesis
    by (cases "connects (sr_redis s) (redis_url (sr_env s)) (sr_state s)")
       (simp add: that redis_new_connects)
qed

lemma storage_tests_pass:
  fixes s :: "('v, 'c, 'w, 'r) storage_run"
  assumes "storage_run_ok s"
  shows "list_all (\<lambda>test. test s) storage_tests"
proof -
  obtain v where unreachable: "redis_new (sr_redis s) (redis_url (sr_env s)) (sr_state s) =
      ((Panic, v) :: (('w, 'r) redis, string) outcome \<times> 'v)"
    using assms by (rule redis_unreachable)
  note run = is_ok_def is_err_def create_session_repository_def create_route_repository_def
    create_member_repository_def catch_unwind_def unwrap_result_def prog_simps unreachable
  have "test_type_from_env s" "test_default_type s" "test_type_from_one s" "test_type_from_zero s"
    using assms
    by (simp_all add: test_type_from_env_def test_default_type_def test_type_from_one_def
        test_type_from_zero_def repository_type_from_u8_def default_repository_type_def
        storage_run_ok_def repository_type_from_env_def get_env_variable_def parse_u8_def
        parse_unsigned_def)
  moreover have "test_create_inmemory_sessions s" "test_create_redis_sessions s"
    "test_create_inmemory_routes s" "test_create_redis_routes s"
    "test_create_inmemory_members s" "test_create_redis_members s"
    by (simp_all add: run test_create_inmemory_sessions_def test_create_redis_sessions_def
        test_create_inmemory_routes_def test_create_redis_routes_def
        test_create_inmemory_members_def test_create_redis_members_def)
  moreover have "test_new_session_manager s" "test_new_member_manager s" "test_new_route_manager s"
    by (simp_all add: run test_new_session_manager_def test_new_member_manager_def
        test_new_route_manager_def new_session_manager_def new_member_manager_def
        create_route_manager_def new_strategies_def)
  ultimately show ?thesis by (simp add: storage_tests_def)
qed

end
