(* ===== verification/Node_Tests.thy ===== *)
theory Node_Tests
  imports Manager_Tests Proxy_Node Client_Node
begin

section \<open>The unit tests of the proxy and the client, in the model\<close>

text \<open>
  The modules \<^verbatim>\<open>tests\<close> of \<^verbatim>\<open>proxy_service.rs\<close>, \<^verbatim>\<open>landing_service.rs\<close> and \<^verbatim>\<open>command.rs\<close>.  A mock is
  a record of operations: what a test expects is answered, a call with other arguments than expected
  and a call that is not expected panic.
\<close>

subsection \<open>Mocks\<close>

definition mock_authenticator :: "bool \<Rightarrow> unit authenticator" where
  "mock_authenticator authenticated =
     \<lparr>au_initialize = ret (), au_login = panic, au_logout = panic, au_ping = panic,
      au_get_session = (\<lambda>_. \<lparr>cl_access_key = Some EXPECTED_ACCESS_KEY, cl_uid = Some EXPECTED_UID\<rparr>),
      au_is_authenticated = (\<lambda>_. authenticated)\<rparr>"

text \<open>\<^verbatim>\<open>impl GrpcClient for MockRouter\<close> and its like: \<^verbatim>\<open>initialize\<close> succeeds.  A factory of which nothing is
  expected panics when it is asked for its product; in the model, when the product is initialized, which is
  the next thing the code does.\<close>

definition mock_router ::
  "(string \<Rightarrow> string \<Rightarrow> ('w, route_response, string) prog) \<Rightarrow>
   (string \<Rightarrow> string \<Rightarrow> string \<Rightarrow> ('w, string option, string) prog) \<Rightarrow> (unit, 'w) router_factory" where
  "mock_router get_route redeem =
     \<lparr>rf_get_router = (), rf_initialize = ret, rf_init_conversation = (\<lambda>_ _ _. panic),
      rf_get_route = (\<lambda>_. get_route), rf_redeem = (\<lambda>_. redeem)\<rparr>"

definition no_router :: "(unit, 'w) router_factory" where
  "no_router = (mock_router (\<lambda>_ _. panic) (\<lambda>_ _ _. panic))\<lparr>rf_initialize := (\<lambda>_. panic)\<rparr>"

definition mock_informer :: "(string \<Rightarrow> (unit, status_response, string) prog) \<Rightarrow> (unit, unit) informer_factory" where
  "mock_informer get_status =
     \<lparr>if_get_informer = (), if_initialize = ret, if_get_status = (\<lambda>_. get_status)\<rparr>"

definition no_informer :: "(unit, unit) informer_factory" where
  "no_informer = (mock_informer (\<lambda>_. panic))\<lparr>if_initialize := (\<lambda>_. panic)\<rparr>"

definition mock_lander ::
  "(string \<Rightarrow> string \<Rightarrow> string \<Rightarrow> bytes \<Rightarrow> (unit, unit, string) prog) \<Rightarrow> ('uri, unit, unit) lander_factory" where
  "mock_lander send_message =
     \<lparr>lf_get_lander = (\<lambda>_ _ _. ()), lf_initialize = ret, lf_send_message = (\<lambda>_. send_message)\<rparr>"

definition no_lander :: "('uri, unit, unit) lander_factory" where
  "no_lander = (mock_lander (\<lambda>_ _ _ _. panic))\<lparr>lf_initialize := (\<lambda>_. panic)\<rparr>"

definition mock_proxy ::
  "(string \<Rightarrow> string \<Rightarrow> command_type \<Rightarrow> bytes \<Rightarrow> (unit, string option, string) prog) \<Rightarrow>
     ('uri, unit, unit) proxy_factory" where
  "mock_proxy send_command =
     \<lparr>pf_get_proxy = (\<lambda>_ _ _. ()), pf_initialize = ret, pf_send_command = (\<lambda>_. send_command)\<rparr>"

definition no_proxy :: "('uri, unit, unit) proxy_factory" where
  "no_proxy = (mock_proxy (\<lambda>_ _ _ _. panic))\<lparr>pf_initialize := (\<lambda>_. panic)\<rparr>"

subsection \<open>The proxy service\<close>

text \<open>The URI parser and the text of a status, which the tests leave to their crates.\<close>

record 'uri node_run =
  nr_uri :: "string \<rightharpoonup> 'uri"
  nr_debug :: "status_response \<Rightarrow> string"

definition TEST_CONVERSATION_ID :: string where "TEST_CONVERSATION_ID = ''test_conversation''"
definition EXPECTED_SENDER_UID :: string where "EXPECTED_SENDER_UID = ''sender_uid''"

definition test_proxy_service ::
  "'uri node_run \<Rightarrow> bool \<Rightarrow> (unit, unit) router_factory \<Rightarrow> (unit, unit) informer_factory \<Rightarrow>
   ('uri, unit, unit) lander_factory \<Rightarrow> ('uri, unit, unit) proxy_factory \<Rightarrow>
     ('uri, unit, unit, unit, unit, unit) proxy_service" where
  "test_proxy_service r authenticated router informer lander proxy =
     \<lparr>ps_authenticator = mock_authenticator authenticated, ps_router_factory = router,
      ps_informer_factory = informer, ps_lander_factory = lander, ps_proxy_factory = proxy,
      ps_uri_try_from = nr_uri r, ps_debug_status = nr_debug r\<rparr>"

definition test_command :: "command_type \<Rightarrow> bytes option \<Rightarrow> command_request" where
  "test_command command content =
     \<lparr>cr_conversation_id = TEST_CONVERSATION_ID, cr_nonce = EXPECTED_NONCE,
      cr_command = command_code command, cr_content = content\<rparr>"

definition redeem_ok :: "string \<Rightarrow> string \<Rightarrow> string \<Rightarrow> ('w, string option, string) prog" where
  "redeem_ok conversation_id access_key nonce = ret (Some EXPECTED_SENDER_UID)"

definition test_route_response :: "bool \<Rightarrow> route_response" where
  "test_route_response end_route =
     \<lparr>rr_ip_address = ''127.0.0.1'', rr_port_number = 8080, rr_public_key = as_bytes ''test_public_key'',
      rr_domain_name = ''test_domain_name'', rr_nonce = EXPECTED_NONCE, rr_end_route = end_route\<rparr>"

definition test_execute_unauthenticated :: "'uri node_run \<Rightarrow> (unit, bool, status) prog" where
  "test_execute_unauthenticated r =
     expect_err (\<lambda>s. st_code s = Unauthenticated)
       (execute_command (test_proxy_service r False no_router no_informer no_lander no_proxy)
          (test_command Status_Command None))"

definition test_execute_redeem_fails :: "'uri node_run \<Rightarrow> (unit, bool, status) prog" where
  "test_execute_redeem_fails r =
     expect_err (\<lambda>s. st_code s = Internal)
       (execute_command (test_proxy_service r True
            (mock_router (\<lambda>_ _. panic) (\<lambda>conversation_id access_key nonce.
               when_called (conversation_id = TEST_CONVERSATION_ID \<and> access_key = EXPECTED_ACCESS_KEY
                 \<and> nonce = EXPECTED_NONCE) (throw ''Redeem failed'')))
            no_informer no_lander no_proxy)
          (test_command Unknown_Command None))"

definition test_execute_unknown :: "'uri node_run \<Rightarrow> (unit, bool, status) prog" where
  "test_execute_unknown r =
     expect_ok (\<lambda>result. result = None)
       (execute_command (test_proxy_service r True (mock_router (\<lambda>_ _. panic) redeem_ok)
            no_informer no_lander no_proxy)
          (test_command Unknown_Command None))"

definition test_execute_status :: "'uri node_run \<Rightarrow> (unit, bool, status) prog" where
  "test_execute_status r =
     expect_ok (\<lambda>result. result \<noteq> None)
       (execute_command (test_proxy_service r True (mock_router (\<lambda>_ _. panic) redeem_ok)
            (mock_informer (\<lambda>access_key. when_called (access_key = EXPECTED_ACCESS_KEY)
               (ret \<lparr>sr_version = ''1.0.0'', sr_connected_proxies = 10, sr_connected_clients = 5,
                     sr_connected_controllers = 3\<rparr>)))
            no_lander no_proxy)
          (test_command Status_Command None))"

definition test_execute_send_on :: "'uri node_run \<Rightarrow> (unit, bool, status) prog" where
  "test_execute_send_on r =
     expect_ok (\<lambda>result. result = Some ''Message sent'')
       (execute_command (test_proxy_service r True
            (mock_router (\<lambda>_ _. ret (test_route_response False)) redeem_ok) no_informer no_lander
            (mock_proxy (\<lambda>conversation_id nonce command content.
               when_called (conversation_id = TEST_CONVERSATION_ID \<and> nonce = EXPECTED_NONCE
                 \<and> command = Send_Command \<and> content = as_bytes ''Test message'')
                 (ret (Some ''Message sent'')))))
          (test_command Send_Command (Some (as_bytes ''Test message''))))"

definition test_execute_send_to_end :: "'uri node_run \<Rightarrow> (unit, bool, status) prog" where
  "test_execute_send_to_end r =
     expect_ok (\<lambda>result. result = Some ''Message sent'')
       (execute_command (test_proxy_service r True
            (mock_router (\<lambda>_ _. ret (test_route_response True)) redeem_ok) no_informer
            (mock_lander (\<lambda>conversation_id access_key nonce content.
               when_called (conversation_id = TEST_CONVERSATION_ID \<and> access_key = EXPECTED_ACCESS_KEY
                 \<and> nonce = EXPECTED_NONCE \<and> content = as_bytes ''Test message'') (ret ())))
            no_proxy)
          (test_command Send_Command (Some (as_bytes ''Test message''))))"

subsection \<open>The landing service\<close>

text \<open>The channel is the list of the messages sent on it.\<close>

definition test_text_request :: text_request where
  "test_text_request =
     \<lparr>tr_conversation_id = TEST_CONVERSATION_ID, tr_access_key = EXPECTED_ACCESS_KEY,
      tr_nonce = EXPECTED_NONCE, tr_content = as_bytes ''test_message''\<rparr>"

definition test_receive ::
  "(string \<Rightarrow> string \<Rightarrow> string \<Rightarrow> (text_message list, string option, string) prog) \<Rightarrow>
     (text_message list, unit, status) prog" where
  "test_receive redeem =
     landing_receive (mock_router (\<lambda>_ _. panic) redeem) (\<lambda>_. 0) (\<lambda>m tx. tx @ [m]) test_text_request"

definition test_receive_redeem_fails :: "(text_message list, bool, status) prog" where
  "test_receive_redeem_fails =
     expect_err (\<lambda>s. st_code s = Internal \<and> st_message s = ''Failed to redeem'')
       (test_receive (\<lambda>_ _ _. throw ''Something went wrong''))"

definition test_receive_channels_message :: "(text_message list, bool, status) prog" where
  "test_receive_channels_message =
     and_then (expect_ok (\<lambda>_. True) (test_receive redeem_ok)) (\<lambda>ok.
     reads (\<lambda>rx. ok \<and> (case rx of [] \<Rightarrow> False
       | message # _ \<Rightarrow> tm_from message = EXPECTED_SENDER_UID \<and> tm_to message = ''myself''
           \<and> tm_content message = ''test_message'')))"

subsection \<open>The command parser\<close>

definition test_parse_send :: bool where
  "test_parse_send \<longleftrightarrow>
     command_from_str ''/send user123 Hello, World!'' = Ok (Send ''user123'' (as_bytes ''Hello, World!''))"

definition test_parse_send_alone :: bool where
  "test_parse_send_alone \<longleftrightarrow>
     command_from_str ''/send'' = Err ''Invalid command format. Usage: /send <to> <message>''"

definition test_parse_send_no_content :: bool where
  "test_parse_send_no_content \<longleftrightarrow>
     command_from_str ''/send uid132132'' = Err ''Invalid command format. Usage: /send <to> <message>''"

definition test_parse_status :: bool where
  "test_parse_status \<longleftrightarrow> (\<exists>cmd. command_from_str ''/status'' = Ok cmd)"

definition test_parse_invalid :: bool where
  "test_parse_invalid \<longleftrightarrow>
     command_from_str ''/invalid_command'' = Err ''Unknown command: /invalid_command''"

subsection \<open>The tests pass\<close>

lemmas node_test_run = passes_in_def expect_ok_def expect_err_def proxy_service_defs
  test_proxy_service_def mock_authenticator_def mock_router_def mock_informer_def mock_lander_def
  mock_proxy_def no_router_def no_informer_def no_lander_def no_proxy_def when_called_def
  test_command_def redeem_ok_def test_route_response_def command_from_i32_def Let_def prog_simps unwrap_or_panic_def

lemma show_nat_8080: "show_nat 8080 = ''8080''"
  by (simp add: show_nat.simps digit_def char_of_def bit_0)

lemma proxy_tests_pass:
  assumes "nr_uri r ''https://127.0.0.1:8080'' = Some uri"
  shows "passes_in () (test_execute_unauthenticated r)" "passes_in () (test_execute_redeem_fails r)"
    "passes_in () (test_execute_unknown r)" "passes_in () (test_execute_status r)"
    "passes_in () (test_execute_send_on r)" "passes_in () (test_execute_send_to_end r)"
proof -
  show "passes_in () (test_execute_unauthenticated r)"
    by (simp add: node_test_run test_execute_unauthenticated_def)
  show "passes_in () (test_execute_redeem_fails r)"
    by (simp add: node_test_run test_execute_redeem_fails_def)
  show "passes_in () (test_execute_unknown r)"
    by (simp add: node_test_run test_execute_unknown_def)
  show "passes_in () (test_execute_status r)"
    by (simp add: node_test_run test_execute_status_def)
  note send = node_test_run get_public_endpoint_def to_https_endpoint_def to_endpoint_def
    show_nat_8080 assms
  show "passes_in () (test_execute_send_on r)"
    by (simp add: send test_execute_send_on_def)
  show "passes_in () (test_execute_send_to_end r)"
    by (simp add: send test_execute_send_to_end_def)
qed

lemma landing_tests_pass:
  "passes_in [] test_receive_redeem_fails" "passes_in [] test_receive_channels_message"
proof -
  note run = node_test_run landing_receive_def test_receive_def
  show "passes_in [] test_receive_redeem_fails"
    by (simp add: run test_receive_redeem_fails_def)
  have "valid_utf8 (as_bytes ''test_message'')"
    by (simp add: as_bytes_def valid_utf8.simps [of "_ # _"] valid_utf8.simps [of "[]"]
        utf8_step_def Let_def byte_at_def utf8_width_def)
  then show "passes_in [] test_receive_channels_message"
    by (simp add: run test_receive_channels_message_def new_text_message_def test_text_request_def
        from_utf8_lossy_def utf8_lossy_valid)
qed

subsection \<open>The parser on its test inputs\<close>

lemma plain_words:
  "plain ''/send''" "plain ''/status''" "plain ''/invalid_command''" "plain ''user123''"
  "plain ''uid132132''"
  by (simp_all add: plain_def byte_def)

lemma lower_words:
  "to_lowercase ''/send'' = ''/send''" "to_lowercase ''/status'' = ''/status''"
  "to_lowercase ''/invalid_command'' = ''/invalid_command''"
  by (simp_all add: to_lowercase_def lower_char_def byte_def)

lemma parser_tests_pass:
  "test_parse_send" "test_parse_send_alone" "test_parse_send_no_content" "test_parse_status"
  "test_parse_invalid"
proof -
  note word = split_whitespace_word plain_words lower_words command_from_str_def
  show "test_parse_send_alone" by (simp add: test_parse_send_alone_def word SEND_USAGE_def)
  show "test_parse_status" by (simp add: test_parse_status_def word)
  show "test_parse_invalid" by (simp add: test_parse_invalid_def word)
  have "find ''uid132132'' ''/send uid132132'' = Some 6" by (simp add: starts_with_def)
  moreover have "split_whitespace ''/send uid132132'' = [''/send'', ''uid132132'']"
    using split_whitespace_first [of "''/send''" "''uid132132''"]
    by (simp add: word split_whitespace_space)
  ultimately show "test_parse_send_no_content"
    by (simp add: test_parse_send_no_content_def word SEND_USAGE_def trim_def trim_start.simps as_bytes_def)
  have "trim (CHR ''H'' # ''ello, World'' @ ''!'') = CHR ''H'' # ''ello, World'' @ ''!''"
    by (rule trim_plain) (simp_all add: byte_def)
  then have "trim (CHR '' '' # ''Hello, World!'') = ''Hello, World!''"
    by (simp add: trim_def trim_start_space)
  moreover have "find ''user123'' (''/send'' @ '' '' @ ''user123'' @ '' '' @ ''Hello, World!'') =
      Some (length ''/send'' + 1)"
    by (simp add: starts_with_def)
  ultimately show "test_parse_send"
    using send_command_parsed [of "''/send''" "''user123''" "''Hello, World!''"]
    by (simp add: test_parse_send_def plain_words lower_words)
qed

definition proxy_tests :: "('uri node_run \<Rightarrow> (unit, bool, status) prog) list" where
  "proxy_tests =
     [test_execute_unauthenticated, test_execute_redeem_fails, test_execute_unknown,
      test_execute_status, test_execute_send_on, test_execute_send_to_end]"

definition landing_tests :: "(text_message list, bool, status) prog list" where
  "landing_tests = [test_receive_redeem_fails, test_receive_channels_message]"

definition parser_tests :: "bool list" where
  "parser_tests =
     [test_parse_send, test_parse_send_alone, test_parse_send_no_content, test_parse_status,
      test_parse_invalid]"

end
