(* ===== verification/Unit_Tests.thy ===== *)
theory Unit_Tests
  imports Node_Tests Storage_Samples
begin

section \<open>The repository's own tests\<close>

text \<open>
  All tests of the four crates, together.  What a test leaves open, such as the UUIDs it draws, the
  order of a table or the text a parser returns, is universally quantified; what it takes for granted
  of its surroundings, such as that no Redis server runs, that the host has a name and that the parsers
  of addresses answer as documented, is a hypothesis.
\<close>

text \<open>
  The model does what the authors of the code test: in the model every test of the services, the
  managers, the storage, the settings, the proxy, the landing service and the parser passes.
\<close>

theorem unit_tests_pass:
  assumes "test_run_ok r" and "storage_run_ok s" and "settings_run_ok t"
    and "nr_uri n ''https://127.0.0.1:8080'' = Some uri"
  shows "list_all (\<lambda>test. passes (test r)) service_tests
    \<and> list_all (\<lambda>test. passes_in () (test r)) manager_tests
    \<and> list_all (\<lambda>test. test s) storage_tests
    \<and> list_all (\<lambda>test. test t) settings_tests
    \<and> list_all (\<lambda>test. passes_in () (test n)) proxy_tests
    \<and> list_all (passes_in []) landing_tests
    \<and> list_all (\<lambda>test. test) parser_tests"
proof -
  have "uuid r 0 \<noteq> []" using assms(1) by (auto elim: test_run_okE)
  then show ?thesis
    using service_tests_pass [OF assms(1)] manager_tests_pass storage_tests_pass [OF assms(2)]
      settings_tests_pass [OF assms(3)] proxy_tests_pass [OF assms(4)] landing_tests_pass parser_tests_pass
    by (simp add: proxy_tests_def landing_tests_def parser_tests_def)
qed

subsection \<open>A place where they pass\<close>

definition test_place :: test_run where
  "test_place =
     \<lparr>tr_uuids = [''a'', ''b'', ''c'', ''d''], tr_addr = SocketAddrV4 0x7F000001 8080,
      tr_order = (\<lambda>m. if m = Map.empty then [] else [EXPECTED_UID]), tr_pick = pick_first\<rparr>"

definition test_environment :: environment where
  "test_environment =
     \<lparr>env_var = Map.empty, current_dir = Some [],
      read_file = [''../assets/certs/controller/ca.crt'' \<mapsto> []]\<rparr>"

definition test_storage :: "(unit, string, redis_store, unit) storage_run" where
  "test_storage =
     \<lparr>sr_env = test_environment, sr_redis = sample_crate, sr_codec = sample_codec,
      sr_order = (\<lambda>_. []), sr_pick = pick_first, sr_state = ()\<rparr>"

definition test_settings :: "string settings_run" where
  "test_settings =
     \<lparr>st_env = test_environment, st_uri = Some,
      st_addr = [''127.0.0.1:8080'' \<mapsto> SocketAddrV4 0x7F000001 8080], st_hostname = None\<rparr>"

definition test_node :: "string node_run" where
  "test_node = \<lparr>nr_uri = Some, nr_debug = (\<lambda>_. ''ok'')\<rparr>"

theorem unit_tests_pass_witness:
  "list_all (\<lambda>test. passes (test test_place)) service_tests
    \<and> list_all (\<lambda>test. passes_in () (test test_place)) manager_tests
    \<and> list_all (\<lambda>test. test test_storage) storage_tests
    \<and> list_all (\<lambda>test. test test_settings) settings_tests
    \<and> list_all (\<lambda>test. passes_in () (test test_node)) proxy_tests
    \<and> list_all (passes_in []) landing_tests
    \<and> list_all (\<lambda>test. test) parser_tests"
proof (rule unit_tests_pass)
  show "test_run_ok test_place"
    by (auto simp: test_place_def test_run_ok_def enumerates_def picks_pick_first)
  show "storage_run_ok test_storage"
    by (simp add: test_storage_def storage_run_ok_def test_environment_def sample_crate_def redis_url_def
        get_env_variable_def REDIS_URL_KEY_def throw_def)
  have "valid_utf8 (as_bytes [])" by (simp add: as_bytes_def valid_utf8.simps)
  then show "settings_run_ok test_settings"
    by (simp add: test_settings_def settings_run_ok_def test_environment_def get_hostname_def dom_def)
  show "nr_uri test_node ''https://127.0.0.1:8080'' = Some ''https://127.0.0.1:8080''"
    by (simp add: test_node_def)
qed

end
