(* ===== verification/Redis_Time.thy ===== *)
theory Redis_Time
  imports Redis_Properties
begin

section \<open>Redis and the time\<close>

text \<open>
  \<open>Redis_Contracts\<close> speaks of the entries a server holds and lets no time pass.  Here the server has a
  clock, its entries have deadlines, and time passes during every command and between commands.
  A server that answers at once is one as \<open>Redis_Contracts\<close> wants it; for one that does not, it is shown
  how long a session lives, and that the index of the proxies can outlive a session it names.
\<close>

subsection \<open>A server with a clock\<close>

type_synonym timed_keyspace = "string \<rightharpoonup> redis_entry \<times> instant option"

definition unexpired :: "instant \<Rightarrow> timed_keyspace \<Rightarrow> timed_keyspace" where
  "unexpired t es k =
     (case es k of
        Some (e, Some d) \<Rightarrow> if t < d then Some (e, Some d) else None
      | x \<Rightarrow> x)"

definition entries :: "timed_keyspace \<Rightarrow> keyspace" where
  "entries es = map_option fst \<circ> es"

definition set_deadline :: "string \<Rightarrow> instant \<Rightarrow> timed_keyspace \<Rightarrow> timed_keyspace" where
  "set_deadline k d es =
     (case es k of
        Some (e, _) \<Rightarrow> es(k \<mapsto> (e, Some d))
      | None \<Rightarrow> es)"

text \<open>A hash keeps its deadline when a field is set or deleted.\<close>

definition deadline :: "timed_keyspace \<Rightarrow> string \<Rightarrow> instant option" where
  "deadline es k = Option.bind (es k) snd"

fun timed_command :: "instant \<Rightarrow> redis_command \<Rightarrow> timed_keyspace \<Rightarrow> timed_keyspace" where
  "timed_command t (Set_Ex k v secs) es = es(k \<mapsto> (Str v, Some (t + 1000 * secs)))"
| "timed_command t (H_Set k f v) es =
     es(k \<mapsto> (Hash ((hash_field (entries es) k)(f \<mapsto> v)), deadline es k))"
| "timed_command t (Expire k secs) es = set_deadline k (t + 1000 * secs) es"

text \<open>
  The effect \<open>f\<close> of a command at the time it begins; at the time it ends, what has expired is gone.
\<close>

definition server_step ::
  "('w \<Rightarrow> instant) \<Rightarrow> ('w \<Rightarrow> timed_keyspace) \<Rightarrow> 'w \<Rightarrow> (timed_keyspace \<Rightarrow> timed_keyspace) \<Rightarrow> 'w \<Rightarrow> bool" where
  "server_step now ts w f w' \<longleftrightarrow> now w \<le> now w' \<and> ts w' = unexpired (now w') (f (ts w))"

abbreviation later :: "('w \<Rightarrow> instant) \<Rightarrow> ('w \<Rightarrow> timed_keyspace) \<Rightarrow> 'w \<Rightarrow> 'w \<Rightarrow> bool" where
  "later now ts w w' \<equiv> server_step now ts w (\<lambda>es. es) w'"

definition timed_strings ::
  "('w, 'r) redis \<Rightarrow> ('w \<Rightarrow> instant) \<Rightarrow> ('w \<Rightarrow> timed_keyspace) \<Rightarrow> bool" where
  "timed_strings R now ts \<longleftrightarrow>
     (\<forall>w. unexpired (now w) (ts w) = ts w) \<and>
     (\<forall>w k v t. 0 < t \<longrightarrow> (\<exists>w'. rd_set_ex R k v t w = (Ok (), w') \<and>
        server_step now ts w (timed_command (now w) (Set_Ex k v t)) w')) \<and>
     (\<forall>w k v. entries (ts w) k = Some (Str v) \<longrightarrow>
        (\<exists>w'. rd_get R k w = (Ok v, w') \<and> later now ts w w')) \<and>
     (\<forall>w k. not_string (entries (ts w)) k \<longrightarrow>
        (\<exists>e w'. rd_get R k w = (Err e, w') \<and> later now ts w w')) \<and>
     (\<forall>w k v t. 0 < t \<longrightarrow> entries (ts w) k = Some (Str v) \<longrightarrow>
        (\<exists>w'. rd_get_ex R k t w = (Ok v, w') \<and> server_step now ts w (set_deadline k (now w + 1000 * t)) w')) \<and>
     (\<forall>w k t. 0 < t \<longrightarrow> not_string (entries (ts w)) k \<longrightarrow>
        (\<exists>e w'. rd_get_ex R k t w = (Err e, w') \<and> later now ts w w')) \<and>
     (\<forall>w k. \<exists>w'. rd_del R k w = (Ok (), w') \<and> server_step now ts w (\<lambda>es. es(k := None)) w') \<and>
     (\<forall>w k t. 0 < t \<longrightarrow> (\<exists>w'. rd_expire R k t w = (Ok (), w') \<and>
        server_step now ts w (timed_command (now w) (Expire k t)) w'))"

definition timed_others ::
  "('w, 'r) redis \<Rightarrow> ('w \<Rightarrow> instant) \<Rightarrow> ('w \<Rightarrow> timed_keyspace) \<Rightarrow> bool" where
  "timed_others R now ts \<longleftrightarrow>
     (\<forall>w cs. commands_ok cs (entries (ts w)) \<longrightarrow>
        (\<exists>w'. rd_exec_atomic R cs w = (Ok (), w') \<and>
           server_step now ts w (fold (timed_command (now w)) cs) w')) \<and>
     (\<forall>w p. set p \<inter> insert (CHR 0x5C) (set ''*?[]^'') = {} \<longrightarrow>
        (\<exists>found w'. rd_scan_match R (p @ ''*'') w = (Ok found, w') \<and> later now ts w w' \<and>
           set found = {k \<in> dom (ts w). starts_with p k}))"

text \<open>\<^verbatim>\<open>HDEL\<close> of the last field removes the key.\<close>

definition delete_field :: "string \<Rightarrow> string \<Rightarrow> timed_keyspace \<Rightarrow> timed_keyspace" where
  "delete_field k f es =
     (let h = (hash_field (entries es) k)(f := None)
      in if h = Map.empty then es(k := None) else es(k \<mapsto> (Hash h, deadline es k)))"

definition timed_hashes ::
  "('w, 'r) redis \<Rightarrow> ('w \<Rightarrow> instant) \<Rightarrow> ('w \<Rightarrow> timed_keyspace) \<Rightarrow> bool" where
  "timed_hashes R now ts \<longleftrightarrow>
     (\<forall>w k f v. not_string (entries (ts w)) k \<longrightarrow>
        (\<exists>w'. rd_hset R k f v w = (Ok (), w') \<and>
           server_step now ts w (timed_command (now w) (H_Set k f v)) w')) \<and>
     (\<forall>w k f v. hash_field (entries (ts w)) k f = Some v \<longrightarrow>
        (\<exists>w'. rd_hget R k f w = (Ok v, w') \<and> later now ts w w')) \<and>
     (\<forall>w k f. hash_field (entries (ts w)) k f = None \<longrightarrow>
        (\<exists>e w'. rd_hget R k f w = (Err e, w') \<and> later now ts w w')) \<and>
     (\<forall>w k f. not_string (entries (ts w)) k \<longrightarrow>
        (\<exists>w'. rd_hdel R k f w = (Ok (), w') \<and> server_step now ts w (delete_field k f) w'))"

definition redis_timed ::
  "('w, 'r) redis \<Rightarrow> ('w \<Rightarrow> instant) \<Rightarrow> ('w \<Rightarrow> timed_keyspace) \<Rightarrow> bool" where
  "redis_timed R now ts \<longleftrightarrow> timed_strings R now ts \<and> timed_hashes R now ts \<and> timed_others R now ts"

lemma timed_stringsD:
  assumes "redis_timed R now ts"
  shows "unexpired (now w) (ts w) = ts w"
    and "entries (ts w) k = Some (Str v) \<Longrightarrow> \<exists>w'. rd_get R k w = (Ok v, w') \<and> later now ts w w'"
    and "not_string (entries (ts w)) k \<Longrightarrow> \<exists>e w'. rd_get R k w = (Err e, w') \<and> later now ts w w'"
    and "0 < t \<Longrightarrow> entries (ts w) k = Some (Str v) \<Longrightarrow> \<exists>w'. rd_get_ex R k t w = (Ok v, w') \<and>
      server_step now ts w (set_deadline k (now w + 1000 * t)) w'"
    and "0 < t \<Longrightarrow> not_string (entries (ts w)) k \<Longrightarrow>
      \<exists>e w'. rd_get_ex R k t w = (Err e, w') \<and> later now ts w w'"
    and "0 < t \<Longrightarrow> \<exists>w'. rd_expire R k t w = (Ok (), w') \<and>
      server_step now ts w (set_deadline k (now w + 1000 * t)) w'"
    and "0 < t \<Longrightarrow> \<exists>w'. rd_set_ex R k v t w = (Ok (), w') \<and>
      server_step now ts w (timed_command (now w) (Set_Ex k v t)) w'"
    and "\<exists>w'. rd_del R k w = (Ok (), w') \<and> server_step now ts w (\<lambda>es. es(k := None)) w'"
proof -
  note c1 = conjunct1 [OF assms [unfolded redis_timed_def timed_strings_def timed_command.simps]]
  note c2 = conjunct2 [OF c1] note c3 = conjunct2 [OF c2] note c4 = conjunct2 [OF c3]
  note c5 = conjunct2 [OF c4] note c6 = conjunct2 [OF c5] note c7 = conjunct2 [OF c6]
  show "unexpired (now w) (ts w) = ts w" by (rule conjunct1 [OF c1, rule_format])
  show "entries (ts w) k = Some (Str v) \<Longrightarrow> \<exists>w'. rd_get R k w = (Ok v, w') \<and> later now ts w w'"
    by (rule conjunct1 [OF c3, rule_format])
  show "not_string (entries (ts w)) k \<Longrightarrow> \<exists>e w'. rd_get R k w = (Err e, w') \<and> later now ts w w'"
    by (rule conjunct1 [OF c4, rule_format])
  show "0 < t \<Longrightarrow> entries (ts w) k = Some (Str v) \<Longrightarrow> \<exists>w'. rd_get_ex R k t w = (Ok v, w') \<and>
      server_step now ts w (set_deadline k (now w + 1000 * t)) w'"
    by (rule conjunct1 [OF c5, rule_format])
  show "0 < t \<Longrightarrow> not_string (entries (ts w)) k \<Longrightarrow>
      \<exists>e w'. rd_get_ex R k t w = (Err e, w') \<and> later now ts w w'"
    by (rule conjunct1 [OF c6, rule_format])
  show "0 < t \<Longrightarrow> \<exists>w'. rd_expire R k t w = (Ok (), w') \<and>
      server_step now ts w (set_deadline k (now w + 1000 * t)) w'"
    by (rule conjunct2 [OF c7, rule_format])
  show "0 < t \<Longrightarrow> \<exists>w'. rd_set_ex R k v t w = (Ok (), w') \<and>
      server_step now ts w (timed_command (now w) (Set_Ex k v t)) w'"
    unfolding timed_command.simps by (rule conjunct1 [OF c2, rule_format])
  show "\<exists>w'. rd_del R k w = (Ok (), w') \<and> server_step now ts w (\<lambda>es. es(k := None)) w'"
    by (rule conjunct1 [OF c7, rule_format])
qed

lemma timed_atomicD:
  "redis_timed R now ts \<Longrightarrow> commands_ok cs (entries (ts w)) \<Longrightarrow>
   \<exists>w'. rd_exec_atomic R cs w = (Ok (), w') \<and> server_step now ts w (fold (timed_command (now w)) cs) w'"
  unfolding redis_timed_def timed_others_def by blast

lemma timed_scanD:
  assumes "redis_timed R now ts"
  obtains found w' where "rd_scan_match R (get_member_session_key c ''*'') w = (Ok found, w')"
    and "later now ts w w'" and "\<And>u e. ts w (get_member_session_key c u) = Some e \<Longrightarrow>
      get_member_session_key c u \<in> set found"
proof -
  let ?p = "component_session_key c @ '':''"
  have "set ?p \<inter> insert (CHR 0x5C) (set ''*?[]^'') = {}" by (cases c) simp_all
  then obtain found w' where "rd_scan_match R (?p @ ''*'') w = (Ok found, w')" "later now ts w w'"
    "set found = {k \<in> dom (ts w). starts_with ?p k}"
    using assms unfolding redis_timed_def timed_others_def by blast
  then show thesis
    by (intro that [of found w']) (auto simp: get_member_session_key_def starts_with_def)
qed

subsection \<open>The entries as time passes\<close>

lemma unexpired_twice: "t \<le> t' \<Longrightarrow> unexpired t' (unexpired t es) = unexpired t' es"
  by (auto simp: unexpired_def fun_eq_iff split: option.splits prod.splits)

lemma later_refl: "redis_timed R now ts \<Longrightarrow> later now ts w w"
  by (simp add: server_step_def timed_stringsD(1))

lemma later_trans: "later now ts u v \<Longrightarrow> later now ts v w \<Longrightarrow> later now ts u w"
  by (simp add: server_step_def unexpired_twice)

lemma later_gone: "later now ts v w \<Longrightarrow> ts v k = None \<Longrightarrow> ts w k = None"
  by (simp add: server_step_def unexpired_def)

lemma entries_None [simp]: "entries es k = None \<longleftrightarrow> es k = None"
  by (simp add: entries_def)

lemma entries_Some: "es k = Some (e, d) \<Longrightarrow> entries es k = Some e"
  by (simp add: entries_def)

text \<open>An entry with a deadline is there until then.\<close>

lemma later_entry:
  "later now ts v w \<Longrightarrow> ts v k = Some (e, Some d) \<Longrightarrow>
     ts w k = (if now w < d then Some (e, Some d) else None)"
  by (simp add: server_step_def unexpired_def)


subsection \<open>How long a session lives\<close>

lemma timed_set_session:
  assumes "redis_timed R now ts" and "component_from_u8 (ss_component_type s) = Some c"
  shows "\<exists>w'. redis_set_session R js s w = ((Ok () :: (unit, status) outcome), w') \<and> server_step now ts w (\<lambda>es. es
      (get_member_session_key c (ss_uid s) \<mapsto> (Str (ss_access_key s), Some (now w + 10000)),
       get_session_key (ss_access_key s) \<mapsto> (Str (session_to_json js s), Some (now w + 10000)))) w'"
proof -
  let ?cs = "[Set_Ex (get_member_session_key c (ss_uid s)) (ss_access_key s) 10,
        Set_Ex (get_session_key (ss_access_key s)) (session_to_json js s) 10]"
  have "commands_ok ?cs (entries (ts w))" by simp
  then obtain w' where "rd_exec_atomic R ?cs w = (Ok (), w')"
    "server_step now ts w (fold (timed_command (now w)) ?cs) w'"
    using timed_atomicD [OF assms(1)] by blast
  then show ?thesis by (simp add: redis_set_session_def assms(2) result_defs server_step_def)
qed

text \<open>The session with key \<open>k\<close> is \<open>s\<close>, until \<open>d\<close>.\<close>

definition session_until ::
  "codec \<Rightarrow> timed_keyspace \<Rightarrow> session_info \<Rightarrow> instant \<Rightarrow> bool" where
  "session_until js es s d \<longleftrightarrow>
     es (get_session_key (ss_access_key s)) = Some (Str (session_to_json js s), Some d)"

lemma timed_get_session_None:
  assumes "redis_timed R now ts" and "ts w (get_session_key k) = None"
  shows "\<exists>w'. redis_get_session R js k w = ((Ok None :: (session_info option, status) outcome), w') \<and> later now ts w w'"
proof -
  have "not_string (entries (ts w)) (get_session_key k)" using assms(2) by (simp add: not_string_None)
  then obtain e w' where "rd_get_ex R (get_session_key k) 10 w = (Err e, w')" "later now ts w w'"
    using timed_stringsD(5) [OF assms(1), of 10 w] by fastforce
  then show ?thesis by (simp add: redis_get_session_def prog_simps result_defs)
qed

text \<open>A look-up prolongs the session at the time it begins, and the index of its user a while later.\<close>

lemma timed_get_session_Some:
  assumes "redis_timed R now ts" and "codec_ok js" and "session_until js (ts w) s d"
    and c: "component_from_u8 (ss_component_type s) = Some c"
  obtains v w' where "redis_get_session R js (ss_access_key s) w = ((Ok (Some s) :: (session_info option, status) outcome), w')"
    and "server_step now ts w (set_deadline (get_session_key (ss_access_key s)) (now w + 10000)) v"
    and "server_step now ts v (set_deadline (get_member_session_key c (ss_uid s)) (now v + 10000)) w'"
proof -
  have "entries (ts w) (get_session_key (ss_access_key s)) = Some (Str (session_to_json js s))"
    using assms(3) by (simp add: session_until_def entries_def)
  then obtain v where v: "rd_get_ex R (get_session_key (ss_access_key s)) 10 w = (Ok (session_to_json js s), v)"
    "server_step now ts w (set_deadline (get_session_key (ss_access_key s)) (now w + 10000)) v"
    using timed_stringsD(4) [OF assms(1), of 10 w] by auto
  obtain w' where w': "rd_expire R (get_member_session_key c (ss_uid s)) 10 v = (Ok (), w')"
    "server_step now ts v (set_deadline (get_member_session_key c (ss_uid s)) (now v + 10000)) w'"
    using timed_stringsD(6) [OF assms(1), where t = 10 and w = v] by auto
  have "session_of_json js (session_to_json js s) = Some s" using assms(2) by (simp add: codec_ok_def)
  then show thesis
    using v w' c
    by (intro that [of w' v])
       (simp_all add: redis_get_session_def prog_simps result_defs session_from_redis_def)
qed

lemma session_after_set:
  assumes "server_step now ts w (\<lambda>es. es(k \<mapsto> e, get_session_key (ss_access_key s) \<mapsto>
      (Str (session_to_json js s), Some d))) w'" and "later now ts w' v"
  shows "if now v < d then session_until js (ts v) s d
    else ts v (get_session_key (ss_access_key s)) = None"
  using assms by (simp add: server_step_def unexpired_twice session_until_def unexpired_def)

lemma set_deadline_other [simp]: "k \<noteq> j \<Longrightarrow> set_deadline k d es j = es j"
  by (simp add: set_deadline_def split: option.splits prod.splits)

lemma set_deadline_same [simp]:
  "set_deadline k d es k = map_option (\<lambda>x. (fst x, Some d)) (es k)"
  by (simp add: set_deadline_def split: option.splits prod.splits)

lemma session_after_look_up:
  assumes "session_until js (ts w) s d0"
    and "server_step now ts w (set_deadline (get_session_key (ss_access_key s)) d) u"
    and "server_step now ts u (set_deadline (get_member_session_key c i) d') w'" and "later now ts w' v"
  shows "if now v < d then session_until js (ts v) s d
    else ts v (get_session_key (ss_access_key s)) = None"
  using assms by (simp add: server_step_def unexpired_def session_until_def)

lemma get_session_at:
  assumes "redis_timed R now ts" and "codec_ok js" and "component_from_u8 (ss_component_type s) = Some c"
    and "if now v < d then session_until js (ts v) s d
      else ts v (get_session_key (ss_access_key s)) = None"
  shows "fst (redis_get_session R js (ss_access_key s) v) = (Ok (if now v < d then Some s else None) :: (session_info option, status) outcome)"
proof (cases "now v < d")
  case True
  with assms(4) have "session_until js (ts v) s d" by simp
  from timed_get_session_Some [OF assms(1,2) this assms(3)] obtain w'
    where "redis_get_session R js (ss_access_key s) v = ((Ok (Some s) :: (session_info option, status) outcome), w')" .
  with True show ?thesis by simp
next
  case False
  with assms(4) have "ts v (get_session_key (ss_access_key s)) = None" by simp
  from timed_get_session_None [OF assms(1) this]
  obtain w' where "redis_get_session R js (ss_access_key s) v = ((Ok None :: (session_info option, status) outcome), w')" by blast
  with False show ?thesis by simp
qed

text \<open>
  C14. With Redis, too, a session lives for ten seconds from its log-in and from each look-up: at any
  later time it is found exactly if it is that young, and a look-up that finds it makes it young
  again.  Time may pass during every command; what counts is when the command that writes begins.
\<close>

theorem redis_session_lifetime:
  assumes "redis_timed R now ts" and "codec_ok js" and "component_from_u8 (ss_component_type s) = Some c"
    and "redis_set_session R js s w = ((r :: (unit, status) outcome), w1)" and "later now ts w1 v"
    and "redis_get_session R js (ss_access_key s) v = ((found :: (session_info option, status) outcome), v1)"
    and "later now ts v1 u"
  shows "found = Ok (if now v < now w + 10000 then Some s else None)
    \<and> fst (redis_get_session R js (ss_access_key s) u) =
        (Ok (if now v < now w + 10000 \<and> now u < now v + 10000 then Some s else None) :: (session_info option, status) outcome)"
proof -
  let ?k = "get_session_key (ss_access_key s)"
  have "server_step now ts w (\<lambda>es. es(get_member_session_key c (ss_uid s) \<mapsto> (Str (ss_access_key s),
      Some (now w + 10000)), ?k \<mapsto> (Str (session_to_json js s), Some (now w + 10000)))) w1"
    using timed_set_session [OF assms(1,3), of js w] assms(4) by auto
  from session_after_set [OF this assms(5)]
  have v: "if now v < now w + 10000 then session_until js (ts v) s (now w + 10000) else ts v ?k = None" .
  from get_session_at [OF assms(1-3) v] assms(6)
  have found: "found = Ok (if now v < now w + 10000 then Some s else None)" by simp
  show ?thesis
  proof (cases "now v < now w + 10000")
    case True
    with v have "session_until js (ts v) s (now w + 10000)" by simp
    from timed_get_session_Some [OF assms(1,2) this assms(3)] obtain x
      where x: "server_step now ts v (set_deadline ?k (now v + 10000)) x"
        "server_step now ts x (set_deadline (get_member_session_key c (ss_uid s)) (now x + 10000)) v1"
      using assms(6) by (metis prod.inject)
    from session_after_look_up [OF \<open>session_until js (ts v) s _\<close> x assms(7)]
    have "if now u < now v + 10000 then session_until js (ts u) s (now v + 10000) else ts u ?k = None" .
    from get_session_at [OF assms(1-3) this] found True show ?thesis by simp
  next
    case False
    with v have "ts v ?k = None" by simp
    then obtain v' where "redis_get_session R js (ss_access_key s) v = ((Ok None :: (session_info option, status) outcome), v')" "later now ts v v'"
      using timed_get_session_None [OF assms(1)] by blast
    with assms(6) have "later now ts v v1" by simp
    from later_trans [OF this assms(7)] have "later now ts v u" .
    from later_gone [OF this \<open>ts v ?k = None\<close>] have "ts u ?k = None" .
    from timed_get_session_None [OF assms(1) this]
    obtain u' where "redis_get_session R js (ss_access_key s) u =
        ((Ok None :: (session_info option, status) outcome), u')" by blast
    with found False show ?thesis by simp
  qed
qed

subsection \<open>An index that outlives its session\<close>

lemma timed_get_string:
  assumes "redis_timed R now ts"
  obtains v w' where "rd_get R k w = (Ok v, w')" and "later now ts w w'" and "entries (ts w) k = Some (Str v)"
  | e w' where "rd_get R k w = (Err e, w')" and "later now ts w w'" and "not_string (entries (ts w)) k"
proof (cases "not_string (entries (ts w)) k")
  case True
  with timed_stringsD(3) [OF assms] that(2) show thesis by blast
next
  case False
  then obtain v where "entries (ts w) k = Some (Str v)" by (auto simp: not_string_def)
  with timed_stringsD(2) [OF assms] that(1) show thesis by blast
qed

text \<open>Once the session of an index entry is gone, the loop of \<^verbatim>\<open>get_proxies\<close> does not get past the entry.\<close>

lemma later_entries: "later now ts w v \<Longrightarrow> entries (ts v) k = Some e \<Longrightarrow> entries (ts w) k = Some e"
  by (auto simp: server_step_def unexpired_def entries_def split: option.splits prod.splits if_splits)

lemma collect_dangling:
  assumes timed: "redis_timed R now ts" and "index \<in> set found"
    and "\<And>k. entries (ts w) index = Some (Str k) \<Longrightarrow> ts w (get_session_key k) = None"
  shows "\<exists>w'. redis_collect_proxies R js key found proxies w =
    ((Panic :: (session_info list, status) outcome), w')"
  using assms(2,3)
proof (induction found arbitrary: w proxies)
  case (Cons i rest)
  note dangling = Cons.prems(2)
  show ?case
  proof (cases rule: timed_get_string [OF timed, where k = i and w = w])
    case (2 e v)
    then show ?thesis by (simp add: prog_simps result_defs)
  next
    case get: (1 k v)
    show ?thesis
    proof (cases rule: timed_get_string [OF timed, where k = "get_session_key k" and w = v])
      case (2 e u)
      with get(1) show ?thesis by (simp add: prog_simps result_defs)
    next
      case session: (1 x u)
      have "later now ts w u" using later_trans [OF get(2) session(2)] .
      show ?thesis
      proof (cases "session_of_json js x")
        case None
        with get(1) session(1) show ?thesis
          by (simp add: prog_simps result_defs session_from_redis_def)
      next
        case (Some s)
        have "i \<noteq> index"
          using dangling [of k] later_gone [OF get(2)] get(3) session(3)
          by (auto simp flip: entries_None)
        with Cons.prems(1) have "index \<in> set rest" by simp
        have gone: "ts u (get_session_key j) = None" if "entries (ts u) index = Some (Str j)" for j
          using later_gone [OF \<open>later now ts w u\<close>] dangling
            later_entries [OF \<open>later now ts w u\<close> that] by blast
        from Cons.IH [OF \<open>index \<in> set rest\<close> gone] get(1) session(1) Some show ?thesis
          by (simp add: prog_simps result_defs session_from_redis_def)
      qed
    qed
  qed
qed simp

lemma dangling_index_panics:
  assumes "redis_timed R now ts" and "ts w (get_member_session_key Proxy u) = Some (Str k, d)"
    and "ts w (get_session_key k) = None"
  shows "\<exists>w'. redis_get_proxies R js key w = ((Panic :: (session_info list option, status) outcome), w')"
proof -
  obtain found v where scan: "rd_scan_match R (get_member_session_key Proxy ''*'') w = (Ok found, v)"
    "later now ts w v" and "get_member_session_key Proxy u \<in> set found"
    using timed_scanD [OF assms(1), of Proxy w] assms(2) by metis
  moreover have "ts v (get_session_key j) = None"
    if "entries (ts v) (get_member_session_key Proxy u) = Some (Str j)" for j
  proof -
    have "entries (ts w) (get_member_session_key Proxy u) = Some (Str k)"
      using assms(2) by (rule entries_Some)
    with later_entries [OF scan(2) that] have "j = k" by simp
    with later_gone [OF scan(2) assms(3)] show ?thesis by simp
  qed
  ultimately obtain w' where "redis_collect_proxies R js key found [] v =
      ((Panic :: (session_info list, status) outcome), w')"
    using collect_dangling [OF assms(1)] by blast
  with scan(1) \<open>get_member_session_key Proxy u \<in> set found\<close> show ?thesis
    by (auto simp: redis_get_proxies_def prog_simps result_defs)
qed

text \<open>
  C37. With Redis a second log-in of a proxy can stop all routing.  The index of a user names the newest
  session, but a look-up of any session of the user prolongs it.  When the newer session is no longer
  looked up and the older one is, the index outlives the session it names, and every request
  for the proxies panics, though the proxy is logged in.
\<close>

theorem second_login_stops_routing:
  assumes "redis_timed R now ts" and "codec_ok js"
    and "component_from_u8 (ss_component_type s1) = Some Proxy"
    and "component_from_u8 (ss_component_type s2) = Some Proxy"
    and "ss_uid s1 = ss_uid s2" and "ss_access_key s1 \<noteq> ss_access_key s2"
    and "redis_set_session R js s1 w0 = ((r1 :: (unit, status) outcome), w1)" and "later now ts w1 w2"
    and "redis_set_session R js s2 w2 = ((r2 :: (unit, status) outcome), w3)" and "later now ts w3 w4"
    and "now w4 < now w0 + 10000"
    and "redis_get_session R js (ss_access_key s1) w4 =
      ((found :: (session_info option, status) outcome), w5)"
    and "now w5 < now w2 + 10000" and "later now ts w5 w6"
    and "now w2 + 10000 \<le> now w6" and "now w6 < now w4 + 10000"
  shows "fst (redis_get_session R js (ss_access_key s1) w6) =
      (Ok (Some s1) :: (session_info option, status) outcome)
    \<and> fst (redis_get_proxies R js key w6) = (Panic :: (session_info list option, status) outcome)"
proof -
  let ?k1 = "get_session_key (ss_access_key s1)" and ?k2 = "get_session_key (ss_access_key s2)"
  let ?i = "get_member_session_key Proxy (ss_uid s2)"
  let ?set = "\<lambda>s t es. es(?i \<mapsto> (Str (ss_access_key s), Some (t + 10000)),
    get_session_key (ss_access_key s) \<mapsto> (Str (session_to_json js s), Some (t + 10000)))"
  have s1: "server_step now ts w0 (?set s1 (now w0)) w1"
    using timed_set_session [OF assms(1,3), of js w0] assms(5,7) by auto
  have s2: "server_step now ts w2 (?set s2 (now w2)) w3"
    using timed_set_session [OF assms(1,4), of js w2] assms(9) by auto
  have times: "now w0 \<le> now w1" "now w1 \<le> now w2" "now w2 \<le> now w3" "now w3 \<le> now w4" "now w5 \<le> now w6"
    using s1 s2 assms(8,10,14) by (simp_all add: server_step_def)
  have w4: "session_until js (ts w4) s1 (now w0 + 10000)"
    using s1 s2 assms(6,8,10,11) times
    by (simp add: server_step_def session_until_def unexpired_def)
  obtain x where x: "server_step now ts w4 (set_deadline ?k1 (now w4 + 10000)) x"
    "server_step now ts x (set_deadline (get_member_session_key Proxy (ss_uid s1)) (now x + 10000)) w5"
    using timed_get_session_Some [OF assms(1,2) w4 assms(3)] assms(12) by (metis prod.inject)
  then have times2: "now w4 \<le> now x" "now x \<le> now w5" by (simp_all add: server_step_def)
  have "ts w4 ?i = Some (Str (ss_access_key s2), Some (now w2 + 10000))"
    using s2 assms(10,13) times times2 by (simp add: server_step_def unexpired_def)
  then have index: "ts w6 ?i = Some (Str (ss_access_key s2), Some (now x + 10000))"
    using x assms(5,13,14,16) times times2 by (simp add: server_step_def unexpired_def)
  have "ts w6 ?k2 = None"
    using s2 x assms(6,10,14,15) times times2 by (simp add: server_step_def unexpired_def)
  from dangling_index_panics [OF assms(1) index this, of js key]
  have panic: "fst (redis_get_proxies R js key w6) =
      (Panic :: (session_info list option, status) outcome)" by auto
  have "if now w6 < now w4 + 10000 then session_until js (ts w6) s1 (now w4 + 10000)
      else ts w6 ?k1 = None"
    by (rule session_after_look_up [OF w4 x assms(14)])
  from get_session_at [OF assms(1-3) this] panic assms(16) show ?thesis by simp
qed

subsection \<open>A server that answers at once\<close>

text \<open>Commands that read leave the server as it is, and the others its clock.\<close>

definition answers_at_once :: "('w, 'r) redis \<Rightarrow> ('w \<Rightarrow> instant) \<Rightarrow> bool" where
  "answers_at_once R now \<longleftrightarrow>
     (\<forall>w k. snd (rd_get R k w) = w) \<and> (\<forall>w k f. snd (rd_hget R k f w) = w) \<and>
     (\<forall>w p. snd (rd_scan_match R p w) = w) \<and>
     (\<forall>w k v t. now (snd (rd_set_ex R k v t w)) = now w) \<and>
     (\<forall>w k t. now (snd (rd_get_ex R k t w)) = now w) \<and>
     (\<forall>w k. now (snd (rd_del R k w)) = now w) \<and>
     (\<forall>w k t. now (snd (rd_expire R k t w)) = now w) \<and>
     (\<forall>w k f v. now (snd (rd_hset R k f v w)) = now w) \<and>
     (\<forall>w k f. now (snd (rd_hdel R k f w)) = now w) \<and>
     (\<forall>w cs. now (snd (rd_exec_atomic R cs w)) = now w)"

lemma entries_upd [simp]: "entries (es(k := x)) = (entries es)(k := map_option fst x)"
  by (simp add: entries_def fun_eq_iff)

lemma entries_set_deadline [simp]: "entries (set_deadline k d es) = entries es"
  by (cases "es k") (auto simp: set_deadline_def entries_def fun_eq_iff)

lemma entries_command [simp]: "entries (timed_command t c es) = apply_command c (entries es)"
  by (cases c) simp_all

lemma entries_commands [simp]:
  "entries (fold (timed_command t) cs es) = apply_commands cs (entries es)"
  by (induction cs arbitrary: es) simp_all

text \<open>What is not expired is not made so by a command whose lifetime is positive.\<close>

lemma unexpired_upd:
  "unexpired t es = es \<Longrightarrow> (case x of Some (_, Some d) \<Rightarrow> t < d | _ \<Rightarrow> True) \<Longrightarrow>
     unexpired t (es(k := x)) = es(k := x)"
  by (auto simp: unexpired_def fun_eq_iff split: option.splits prod.splits)

lemma unexpired_deadline: "unexpired t es = es \<Longrightarrow> deadline es k = Some d \<Longrightarrow> t < d"
  by (drule fun_cong [where x = k])
    (auto simp: unexpired_def deadline_def split: option.splits prod.splits if_splits)

lemma unexpired_set_deadline: "unexpired t es = es \<Longrightarrow> t < d \<Longrightarrow> unexpired t (set_deadline k d es) = set_deadline k d es"
  by (auto simp: set_deadline_def unexpired_upd split: option.splits)

lemma unexpired_command:
  "unexpired t es = es \<Longrightarrow> command_ok c (entries es) \<Longrightarrow> unexpired t (timed_command t c es) = timed_command t c es"
  by (cases c) (auto simp: unexpired_upd unexpired_set_deadline unexpired_deadline split: option.splits)

lemma unexpired_commands:
  "unexpired t es = es \<Longrightarrow> commands_ok cs (entries es) \<Longrightarrow>
     unexpired t (fold (timed_command t) cs es) = fold (timed_command t) cs es"
  by (induction cs arbitrary: es) (simp_all add: unexpired_command)

lemma unexpired_delete_field:
  "unexpired t es = es \<Longrightarrow> unexpired t (delete_field k f es) = delete_field k f es"
  by (auto simp: delete_field_def Let_def unexpired_upd unexpired_deadline split: option.splits)

text \<open>The step of a server whose clock stands still.\<close>

lemma still_step:
  "server_step now ts w f w' \<Longrightarrow> now w' = now w \<Longrightarrow> unexpired (now w) (f (ts w)) = f (ts w) \<Longrightarrow>
     ts w' = f (ts w)"
  by (simp add: server_step_def)

lemma at_onceD:
  assumes "answers_at_once R now"
  shows "rd_get R k w = (r1, w') \<Longrightarrow> w' = w" "rd_hget R k f w = (r1, w') \<Longrightarrow> w' = w"
    "rd_scan_match R k w = (r2, w') \<Longrightarrow> w' = w" "rd_set_ex R k v t w = (r3, w') \<Longrightarrow> now w' = now w"
    "rd_get_ex R k t w = (r1, w') \<Longrightarrow> now w' = now w" "rd_del R k w = (r3, w') \<Longrightarrow> now w' = now w"
    "rd_expire R k t w = (r3, w') \<Longrightarrow> now w' = now w" "rd_hset R k f v w = (r3, w') \<Longrightarrow> now w' = now w"
    "rd_hdel R k f w = (r3, w') \<Longrightarrow> now w' = now w" "rd_exec_atomic R cs w = (r3, w') \<Longrightarrow> now w' = now w"
  using assms [unfolded answers_at_once_def] by (auto dest!: arg_cong [where f = snd])

lemma prompt_strings:
  assumes timed: "redis_timed R now ts" and once: "answers_at_once R now"
  shows "string_commands R (\<lambda>w. entries (ts w))"
  unfolding string_commands_def
proof (intro conjI allI impI)
  note D = timed_stringsD [OF timed] and O = at_onceD [OF once]
  fix w k v and t :: nat
  show "\<exists>w'. rd_set_ex R k v t w = (Ok (), w') \<and> entries (ts w') = (entries (ts w))(k \<mapsto> Str v)" if p: "0 < t"
  proof -
    obtain w' where w': "rd_set_ex R k v t w = (Ok (), w')"
      "server_step now ts w (timed_command (now w) (Set_Ex k v t)) w'"
      using D(7) [OF p] by blast
    have "ts w' = timed_command (now w) (Set_Ex k v t) (ts w)"
      by (rule still_step [OF w'(2) O(4) [OF w'(1)]]) (rule unexpired_command [OF D(1)], simp add: p)
    with w'(1) show ?thesis by simp
  qed
  show "rd_get R k w = (Ok v, w)" if p: "entries (ts w) k = Some (Str v)"
    using D(2) [OF p] O(1) by blast
  show "\<exists>e. rd_get R k w = (Err e, w)" if p: "not_string (entries (ts w)) k"
    using D(3) [OF p] O(1) by blast
  show "\<exists>w'. rd_get_ex R k t w = (Ok v, w') \<and> entries (ts w') = entries (ts w)"
    if p: "0 < t" "entries (ts w) k = Some (Str v)"
  proof -
    obtain w' where w': "rd_get_ex R k t w = (Ok v, w')"
      "server_step now ts w (set_deadline k (now w + 1000 * t)) w'"
      using D(4) [OF p] by blast
    have "ts w' = set_deadline k (now w + 1000 * t) (ts w)"
      by (rule still_step [OF w'(2) O(5) [OF w'(1)]]) (rule unexpired_set_deadline [OF D(1)], simp add: p)
    with w'(1) show ?thesis by simp
  qed
  show "\<exists>e w'. rd_get_ex R k t w = (Err e, w') \<and> entries (ts w') = entries (ts w)"
    if p: "0 < t" "not_string (entries (ts w)) k"
  proof -
    obtain e w' where w': "rd_get_ex R k t w = (Err e, w')" "later now ts w w'"
      using D(5) [OF p] by blast
    have "ts w' = ts w" by (rule still_step [OF w'(2) O(5) [OF w'(1)] D(1)])
    with w'(1) show ?thesis by simp
  qed
  show "\<exists>w'. rd_del R k w = (Ok (), w') \<and> entries (ts w') = (entries (ts w))(k := None)"
  proof -
    obtain w' where w': "rd_del R k w = (Ok (), w')" "server_step now ts w (\<lambda>es. es(k := None)) w'"
      using D(8) by blast
    have "ts w' = (ts w)(k := None)"
      by (rule still_step [OF w'(2) O(6) [OF w'(1)]]) (simp add: unexpired_upd D(1))
    with w'(1) show ?thesis by simp
  qed
  show "\<exists>w'. rd_expire R k t w = (Ok (), w') \<and> entries (ts w') = entries (ts w)" if p: "0 < t"
  proof -
    obtain w' where w': "rd_expire R k t w = (Ok (), w')"
      "server_step now ts w (set_deadline k (now w + 1000 * t)) w'"
      using D(6) [OF p] by blast
    have "ts w' = set_deadline k (now w + 1000 * t) (ts w)"
      by (rule still_step [OF w'(2) O(7) [OF w'(1)]]) (rule unexpired_set_deadline [OF D(1)], simp add: p)
    with w'(1) show ?thesis by simp
  qed
qed

lemma prompt_hashes:
  assumes timed: "redis_timed R now ts" and once: "answers_at_once R now"
  shows "hash_commands R (\<lambda>w. entries (ts w))"
  unfolding hash_commands_def
proof (intro conjI allI impI)
  note t = conjunct1 [OF conjunct2 [OF timed [unfolded redis_timed_def]], unfolded timed_hashes_def]
  note t2 = conjunct2 [OF t] note t3 = conjunct2 [OF t2]
  note fresh = timed_stringsD(1) [OF timed] and O = at_onceD [OF once]
  fix w k f v
  show "\<exists>w'. rd_hset R k f v w = (Ok (), w') \<and>
      entries (ts w') = (entries (ts w))(k \<mapsto> Hash ((hash_field (entries (ts w)) k)(f \<mapsto> v)))"
    if p: "not_string (entries (ts w)) k"
  proof -
    obtain w' where w': "rd_hset R k f v w = (Ok (), w')"
      "server_step now ts w (timed_command (now w) (H_Set k f v)) w'"
      using conjunct1 [OF t, rule_format, OF p] by blast
    have "ts w' = timed_command (now w) (H_Set k f v) (ts w)"
      by (rule still_step [OF w'(2) O(8) [OF w'(1)]]) (rule unexpired_command [OF fresh], simp add: p)
    with w'(1) show ?thesis by simp
  qed
  show "rd_hget R k f w = (Ok v, w)" if p: "hash_field (entries (ts w)) k f = Some v"
    using conjunct1 [OF t2, rule_format, OF p] O(2) by blast
  show "\<exists>e. rd_hget R k f w = (Err e, w)" if p: "hash_field (entries (ts w)) k f = None"
    using conjunct1 [OF t3, rule_format, OF p] O(2) by blast
  show "\<exists>w'. rd_hdel R k f w = (Ok (), w') \<and> not_string (entries (ts w')) k \<and>
      hash_field (entries (ts w')) k = (hash_field (entries (ts w)) k)(f := None) \<and>
      (\<forall>j. j \<noteq> k \<longrightarrow> entries (ts w') j = entries (ts w) j)"
    if p: "not_string (entries (ts w)) k"
  proof -
    obtain w' where w': "rd_hdel R k f w = (Ok (), w')" "server_step now ts w (delete_field k f) w'"
      using conjunct2 [OF t3, rule_format, OF p] by blast
    have "ts w' = delete_field k f (ts w)"
      by (rule still_step [OF w'(2) O(9) [OF w'(1)] unexpired_delete_field [OF fresh]])
    with w'(1) show ?thesis
      by (auto simp: delete_field_def Let_def not_string_def) (simp add: hash_field_def fun_eq_iff)
  qed
qed

text \<open>
  What holds of every server of \<open>Redis_Contracts\<close> holds of one with a clock that answers at once,
  whatever expires between its commands.
\<close>

theorem prompt_server_works:
  assumes "redis_timed R now ts" and "answers_at_once R now"
  shows "redis_works R (\<lambda>w. entries (ts w))"
proof -
  note t = conjunct2 [OF conjunct2 [OF assms(1) [unfolded redis_timed_def]], unfolded timed_others_def]
  note fresh = timed_stringsD(1) [OF assms(1)] and O = at_onceD [OF assms(2)]
  have "\<exists>w'. rd_exec_atomic R cs w = (Ok (), w') \<and> entries (ts w') = apply_commands cs (entries (ts w))"
    if p: "commands_ok cs (entries (ts w))" for w cs
  proof -
    obtain w' where w': "rd_exec_atomic R cs w = (Ok (), w')"
      "server_step now ts w (fold (timed_command (now w)) cs) w'"
      using conjunct1 [OF t, rule_format, OF p] by blast
    have "ts w' = fold (timed_command (now w)) cs (ts w)"
      by (rule still_step [OF w'(2) O(10) [OF w'(1)] unexpired_commands [OF fresh p]])
    with w'(1) show ?thesis by simp
  qed
  moreover have "\<exists>found. rd_scan_match R (p @ ''*'') w = (Ok found, w) \<and>
      set found = {k \<in> dom (entries (ts w)). starts_with p k}"
    if p: "set p \<inter> insert (CHR 0x5C) (set ''*?[]^'') = {}" for w p
  proof -
    obtain found w' where w': "rd_scan_match R (p @ ''*'') w = (Ok found, w')"
      "set found = {k \<in> dom (ts w). starts_with p k}"
      using conjunct2 [OF t, rule_format, OF p] by blast
    moreover have "dom (entries (ts w)) = dom (ts w)" by (auto simp: entries_def)
    ultimately show ?thesis using O(3) [OF w'(1)] by simp
  qed
  ultimately have "other_commands R (\<lambda>w. entries (ts w))"
    unfolding other_commands_def by (intro conjI allI impI)
  then show ?thesis using prompt_strings [OF assms] prompt_hashes [OF assms] by (simp add: redis_works_def)
qed

end
