(* ===== verification/Redis_Time_Samples.thy ===== *)
theory Redis_Time_Samples
  imports Redis_Time Redis_Samples
begin

section \<open>A concrete server with a clock\<close>

text \<open>
  A clock and an association list; every command takes \<open>latency\<close> milliseconds.  The theorems of
  \<open>Redis_Time\<close> are applied to it.
\<close>

record timed_store =
  tw_now :: instant
  tw_table :: "(string \<times> redis_entry \<times> instant option) list"

definition tw_view :: "timed_store \<Rightarrow> timed_keyspace" where
  "tw_view w = unexpired (tw_now w) (map_of (tw_table w))"

definition purge :: "instant \<Rightarrow> (string \<times> redis_entry \<times> instant option) list \<Rightarrow>
  (string \<times> redis_entry \<times> instant option) list" where
  "purge t table =
     map (\<lambda>k. (k, the (unexpired t (map_of table) k)))
       (filter (\<lambda>k. unexpired t (map_of table) k \<noteq> None) (map fst table))"

lemma map_of_purge: "map_of (purge t table) = unexpired t (map_of table)"
proof
  fix k
  have "k \<in> set (map fst table)" if "unexpired t (map_of table) k \<noteq> None"
  proof -
    have "map_of table k \<noteq> None" using that by (cases "map_of table k") (auto simp: unexpired_def)
    then show ?thesis by (simp add: map_of_eq_None_iff)
  qed
  then show "map_of (purge t table) k = unexpired t (map_of table) k"
    by (cases "unexpired t (map_of table) k")
      (simp_all add: purge_def map_of_map_restrict restrict_map_def)
qed

fun table_command :: "instant \<Rightarrow> redis_command \<Rightarrow> (string \<times> redis_entry \<times> instant option) list \<Rightarrow>
  (string \<times> redis_entry \<times> instant option) list" where
  "table_command t (Set_Ex k v secs) table = (k, Str v, Some (t + 1000 * secs)) # table"
| "table_command t (H_Set k f v) table =
     (k, Hash ((hash_field (entries (map_of table)) k)(f \<mapsto> v)), deadline (map_of table) k) # table"
| "table_command t (Expire k secs) table =
     (case map_of table k of
        Some (e, _) \<Rightarrow> (k, e, Some (t + 1000 * secs)) # table
      | None \<Rightarrow> table)"

lemma map_of_table_command: "map_of (table_command t c table) = timed_command t c (map_of table)"
  by (cases c) (auto simp: set_deadline_def split: option.splits)

lemma map_of_table_commands:
  "map_of (fold (table_command t) cs table) = fold (timed_command t) cs (map_of table)"
  by (induction cs arbitrary: table) (simp_all add: map_of_table_command)

definition reply :: "nat \<Rightarrow> 'a \<Rightarrow> timed_store \<Rightarrow> 'a \<times> timed_store" where
  "reply latency x w = (x, w\<lparr>tw_now := tw_now w + latency\<rparr>)"

definition change ::
  "nat \<Rightarrow> (instant \<Rightarrow> (string \<times> redis_entry \<times> instant option) list \<Rightarrow>
     (string \<times> redis_entry \<times> instant option) list) \<Rightarrow> 'a \<Rightarrow> timed_store \<Rightarrow> 'a \<times> timed_store" where
  "change latency g x w =
     (x, w\<lparr>tw_now := tw_now w + latency, tw_table := g (tw_now w) (purge (tw_now w) (tw_table w))\<rparr>)"

lemma reply_run: "\<exists>w'. reply d x w = (x, w') \<and> later tw_now tw_view w w'"
  by (simp add: reply_def server_step_def tw_view_def unexpired_twice)

lemma change_run:
  "(\<And>table. map_of (g (tw_now w) table) = f (map_of table)) \<Longrightarrow>
   \<exists>w'. change d g x w = (x, w') \<and> server_step tw_now tw_view w f w'"
  by (simp add: change_def server_step_def tw_view_def map_of_purge)

definition drop_field :: "string \<Rightarrow> string \<Rightarrow> (string \<times> redis_entry \<times> instant option) list \<Rightarrow>
  (string \<times> redis_entry \<times> instant option) list" where
  "drop_field k f table =
     (let h = (hash_field (entries (map_of table)) k)(f := None)
      in if h = Map.empty then filter (\<lambda>e. fst e \<noteq> k) table
         else (k, Hash h, deadline (map_of table) k) # table)"

lemma map_of_drop_field: "map_of (drop_field k f table) = delete_field k f (map_of table)"
proof -
  have "map_of (filter (\<lambda>e. fst e \<noteq> k) table) = (map_of table)(k := None)"
    by (induction table) (auto simp: fun_eq_iff)
  then show ?thesis by (simp add: drop_field_def delete_field_def Let_def)
qed

definition timed_redis :: "nat \<Rightarrow> (timed_store, unit) redis" where
  "timed_redis d =
     \<lparr>rd_set_ex = (\<lambda>k v t. change d (\<lambda>now. table_command now (Set_Ex k v t)) (Ok ())),
      rd_get = (\<lambda>k w. reply d (case entries (tw_view w) k of Some (Str v) \<Rightarrow> Ok v | _ \<Rightarrow> Err ()) w),
      rd_get_ex = (\<lambda>k t w. (case entries (tw_view w) k of
          Some (Str v) \<Rightarrow> change d (\<lambda>now. table_command now (Expire k t)) (Ok v) w
        | _ \<Rightarrow> reply d (Err ()) w)),
      rd_del = (\<lambda>k. change d (\<lambda>_. filter (\<lambda>e. fst e \<noteq> k)) (Ok ())),
      rd_expire = (\<lambda>k t. change d (\<lambda>now. table_command now (Expire k t)) (Ok ())),
      rd_hset = (\<lambda>k f v. change d (\<lambda>now. table_command now (H_Set k f v)) (Ok ())),
      rd_hget = (\<lambda>k f w. reply d (case hash_field (entries (tw_view w)) k f of
          Some v \<Rightarrow> Ok v | None \<Rightarrow> Err ()) w),
      rd_hdel = (\<lambda>k f. change d (\<lambda>_. drop_field k f) (Ok ())),
      rd_scan_match = (\<lambda>p w. reply d
        (Ok (filter (starts_with (butlast p)) (map fst (purge (tw_now w) (tw_table w))))) w),
      rd_exec_atomic = (\<lambda>cs. change d (\<lambda>now. fold (table_command now) cs) (Ok ()))\<rparr>"

lemma timed_redis_sel [simp]:
  "rd_set_ex (timed_redis d) k v t = change d (\<lambda>now. table_command now (Set_Ex k v t)) (Ok ())"
  "rd_del (timed_redis d) k = change d (\<lambda>_. filter (\<lambda>e. fst e \<noteq> k)) (Ok ())"
  "rd_expire (timed_redis d) k t = change d (\<lambda>now. table_command now (Expire k t)) (Ok ())"
  "rd_hset (timed_redis d) k f v = change d (\<lambda>now. table_command now (H_Set k f v)) (Ok ())"
  "rd_hdel (timed_redis d) k f = change d (\<lambda>_. drop_field k f) (Ok ())"
  "rd_exec_atomic (timed_redis d) cs = change d (\<lambda>now. fold (table_command now) cs) (Ok ())"
  by (simp_all add: timed_redis_def)

lemma tw_view_fresh: "unexpired (tw_now w) (tw_view w) = tw_view w"
  by (simp add: tw_view_def unexpired_twice)

lemma timed_redis_get:
  "entries (tw_view w) k = Some (Str v) \<Longrightarrow> rd_get (timed_redis d) k w = reply d (Ok v) w"
  "not_string (entries (tw_view w)) k \<Longrightarrow> rd_get (timed_redis d) k w = reply d (Err ()) w"
  "entries (tw_view w) k = Some (Str v) \<Longrightarrow>
     rd_get_ex (timed_redis d) k t w = change d (\<lambda>now. table_command now (Expire k t)) (Ok v) w"
  "not_string (entries (tw_view w)) k \<Longrightarrow> rd_get_ex (timed_redis d) k t w = reply d (Err ()) w"
  by (auto simp: timed_redis_def not_string_def split: option.splits redis_entry.splits)

lemma timed_redis_strings: "timed_strings (timed_redis d) tw_now tw_view"
  unfolding timed_strings_def timed_redis_sel
proof (intro conjI allI impI)
  have del: "map_of (filter (\<lambda>e. fst e \<noteq> k) table) = (map_of table)(k := None)"
    for k and table :: "(string \<times> redis_entry \<times> instant option) list"
    by (induction table) (auto simp: fun_eq_iff)
  fix w k v and t :: nat
  show "unexpired (tw_now w) (tw_view w) = tw_view w" by (rule tw_view_fresh)
  show "\<exists>w'. change d (\<lambda>now. table_command now (Set_Ex k v t)) (Ok ()) w = (Ok (), w') \<and>
      server_step tw_now tw_view w (timed_command (tw_now w) (Set_Ex k v t)) w'"
    by (rule change_run) (rule map_of_table_command)
  show "\<exists>w'. change d (\<lambda>now. table_command now (Expire k t)) (Ok ()) w = (Ok (), w') \<and>
      server_step tw_now tw_view w (timed_command (tw_now w) (Expire k t)) w'"
    by (rule change_run) (rule map_of_table_command)
  show "\<exists>w'. change d (\<lambda>_. filter (\<lambda>e. fst e \<noteq> k)) (Ok ()) w = (Ok (), w') \<and>
      server_step tw_now tw_view w (\<lambda>es. es(k := None)) w'"
    by (rule change_run) (rule del)
  show "\<exists>w'. rd_get (timed_redis d) k w = (Ok v, w') \<and> later tw_now tw_view w w'"
    if "entries (tw_view w) k = Some (Str v)"
    unfolding timed_redis_get(1) [OF that] by (rule reply_run)
  show "\<exists>e w'. rd_get (timed_redis d) k w = (Err e, w') \<and> later tw_now tw_view w w'"
    if "not_string (entries (tw_view w)) k"
    unfolding timed_redis_get(2) [OF that] by (rule exI) (rule reply_run)
  show "\<exists>w'. rd_get_ex (timed_redis d) k t w = (Ok v, w') \<and>
      server_step tw_now tw_view w (set_deadline k (tw_now w + 1000 * t)) w'"
    if "entries (tw_view w) k = Some (Str v)"
    unfolding timed_redis_get(3) [OF that]
    by (rule change_run) (simp only: map_of_table_command timed_command.simps)
  show "\<exists>e w'. rd_get_ex (timed_redis d) k t w = (Err e, w') \<and> later tw_now tw_view w w'"
    if "not_string (entries (tw_view w)) k"
    unfolding timed_redis_get(4) [OF that] by (rule exI) (rule reply_run)
qed

lemma timed_redis_timed: "redis_timed (timed_redis d) tw_now tw_view"
proof -
  have "timed_hashes (timed_redis d) tw_now tw_view"
    unfolding timed_hashes_def timed_redis_sel
  proof (intro conjI allI impI)
    fix w k f v
    show "\<exists>w'. change d (\<lambda>now. table_command now (H_Set k f v)) (Ok ()) w = (Ok (), w') \<and>
        server_step tw_now tw_view w (timed_command (tw_now w) (H_Set k f v)) w'"
      by (rule change_run) (rule map_of_table_command)
    show "\<exists>w'. change d (\<lambda>_. drop_field k f) (Ok ()) w = (Ok (), w') \<and>
        server_step tw_now tw_view w (delete_field k f) w'"
      by (rule change_run) (rule map_of_drop_field)
    show "\<exists>w'. rd_hget (timed_redis d) k f w = (Ok v, w') \<and> later tw_now tw_view w w'"
      if "hash_field (entries (tw_view w)) k f = Some v"
      using that reply_run [of d "Ok v :: (string, unit) outcome"] by (simp add: timed_redis_def)
    show "\<exists>e w'. rd_hget (timed_redis d) k f w = (Err e, w') \<and> later tw_now tw_view w w'"
      if "hash_field (entries (tw_view w)) k f = None"
      using that reply_run [of d "Err () :: (string, unit) outcome"] by (simp add: timed_redis_def)
  qed
  moreover have "timed_others (timed_redis d) tw_now tw_view"
    unfolding timed_others_def timed_redis_sel
  proof (intro conjI allI impI)
    fix w cs and p :: string
    show "\<exists>w'. change d (\<lambda>now. fold (table_command now) cs) (Ok ()) w = (Ok (), w') \<and>
        server_step tw_now tw_view w (fold (timed_command (tw_now w)) cs) w'"
      by (rule change_run) (rule map_of_table_commands)
    let ?found = "filter (starts_with p) (map fst (purge (tw_now w) (tw_table w)))"
    have "set (map fst (purge (tw_now w) (tw_table w))) = dom (tw_view w)"
      by (simp add: tw_view_def dom_map_of_conv_image_fst flip: map_of_purge)
    then have "set ?found = {k \<in> dom (tw_view w). starts_with p k}" by auto
    moreover have "\<exists>w'. rd_scan_match (timed_redis d) (p @ ''*'') w = (Ok ?found, w') \<and>
        later tw_now tw_view w w'"
      using reply_run [of d "Ok ?found :: (string list, unit) outcome"]
      by (simp add: timed_redis_def butlast_append)
    ultimately show "\<exists>found w'. rd_scan_match (timed_redis d) (p @ ''*'') w = (Ok found, w') \<and>
        later tw_now tw_view w w' \<and> set found = {k \<in> dom (tw_view w). starts_with p k}"
      by blast
  qed
  ultimately show ?thesis using timed_redis_strings by (simp add: redis_timed_def)
qed

text \<open>A server without latency answers at once.\<close>

lemma timed_redis_at_once: "answers_at_once (timed_redis 0) tw_now"
  by (simp add: answers_at_once_def timed_redis_def change_def reply_def split: option.splits redis_entry.splits)

subsection \<open>Sessions on it\<close>

text \<open>A proxy logs in, again after two seconds, and the older session is looked up after nine.\<close>

definition wait_until :: "instant \<Rightarrow> timed_store \<Rightarrow> timed_store" where
  "wait_until t w = w\<lparr>tw_now := t\<rparr>"

lemma wait_until_later: "tw_now w \<le> t \<Longrightarrow> later tw_now tw_view w (wait_until t w)"
  by (simp add: wait_until_def server_step_def tw_view_def unexpired_twice)

abbreviation timed_sessions :: "(timed_store, status) session_repository" where
  "timed_sessions \<equiv> redis_session_repository (timed_redis 1) sample_codec"

definition older_session :: session_info where
  "older_session = sample_session_of ''k1'' Proxy ''p1'' ''pp1''"

definition newer_session :: session_info where
  "newer_session = sample_session_of ''k2'' Proxy ''p1'' ''pp1''"

lemma sample_sessions [simp]:
  "ss_access_key older_session = ''k1''" "ss_access_key newer_session = ''k2''"
  "ss_uid older_session = ''p1''" "ss_uid newer_session = ''p1''"
  "component_from_u8 (ss_component_type older_session) = Some Proxy"
  "component_from_u8 (ss_component_type newer_session) = Some Proxy"
  by (simp_all add: older_session_def newer_session_def)

lemma wait_until_now [simp]: "tw_now (wait_until t w) = t"
  by (simp add: wait_until_def)

text \<open>A log-in takes one command, a look-up at most two.\<close>

lemma set_session_time:
  "component_from_u8 (ss_component_type s) = Some c \<Longrightarrow>
   tw_now (snd (redis_set_session (timed_redis d) js s w :: (unit, status) outcome \<times> timed_store)) = tw_now w + d"
  by (simp add: redis_set_session_def result_defs prog_simps change_def)

lemma get_session_time:
  "tw_now (snd (redis_get_session (timed_redis d) js k w :: (session_info option, status) outcome \<times> timed_store))
     \<le> tw_now w + 2 * d"
  by (auto simp: redis_get_session_def timed_redis_def result_defs prog_simps change_def reply_def
      session_from_redis_def unwrap_or_panic_def split: option.splits redis_entry.splits outcome.splits)

definition start_store :: timed_store where
  "start_store = \<lparr>tw_now = 0, tw_table = []\<rparr>"

definition first_login :: timed_store where
  "first_login = snd (repo_set_session timed_sessions older_session start_store)"

definition first_look_up :: timed_store where
  "first_look_up = snd (repo_get_session timed_sessions ''k1'' (wait_until 9000 first_login))"

lemma first_times: "tw_now first_login = 1" "tw_now first_look_up \<le> 9002"
  using set_session_time [of older_session Proxy 1 sample_codec start_store]
    get_session_time [of 1 sample_codec "''k1''" "wait_until 9000 first_login"]
  by (simp_all add: first_login_def first_look_up_def start_store_def)

theorem redis_session_lifetime_witness:
  "fst (repo_get_session timed_sessions ''k1'' (wait_until 9000 first_login)) = Ok (Some older_session)
   \<and> fst (repo_get_session timed_sessions ''k1'' (wait_until 18999 first_look_up)) = Ok (Some older_session)
   \<and> fst (repo_get_session timed_sessions ''k1'' (wait_until 19000 first_look_up)) = Ok None"
proof -
  have start: "redis_set_session (timed_redis 1) sample_codec older_session start_store =
      (fst (repo_set_session timed_sessions older_session start_store), first_login)"
    by (simp add: first_login_def)
  have up: "redis_get_session (timed_redis 1) sample_codec (ss_access_key older_session)
      (wait_until 9000 first_login) =
      (fst (repo_get_session timed_sessions ''k1'' (wait_until 9000 first_login)), first_look_up)"
    by (simp add: first_look_up_def)
  note lifetime = redis_session_lifetime [OF timed_redis_timed sample_codec_ok sample_sessions(5) start
      wait_until_later up wait_until_later]
  have "tw_now start_store = 0" by (simp add: start_store_def)
  then show ?thesis
    using lifetime [of 18999] lifetime [of 19000] first_times by simp
qed

definition second_login :: timed_store where
  "second_login = snd (repo_set_session timed_sessions newer_session (wait_until 2000 first_login))"

definition older_looked_up :: timed_store where
  "older_looked_up = snd (repo_get_session timed_sessions ''k1'' (wait_until 9000 second_login))"

theorem second_login_stops_routing_witness:
  "fst (repo_get_session timed_sessions ''k1'' (wait_until 12500 older_looked_up)) = Ok (Some older_session)
   \<and> fst (repo_get_proxies timed_sessions ''k1'' (wait_until 12500 older_looked_up)) = Panic"
proof -
  have first: "redis_set_session (timed_redis 1) sample_codec older_session start_store =
      (fst (repo_set_session timed_sessions older_session start_store), first_login)"
    by (simp add: first_login_def)
  have second: "redis_set_session (timed_redis 1) sample_codec newer_session (wait_until 2000 first_login) =
      (fst (repo_set_session timed_sessions newer_session (wait_until 2000 first_login)), second_login)"
    by (simp add: second_login_def)
  have up: "redis_get_session (timed_redis 1) sample_codec (ss_access_key older_session)
      (wait_until 9000 second_login) =
      (fst (repo_get_session timed_sessions ''k1'' (wait_until 9000 second_login)), older_looked_up)"
    by (simp add: older_looked_up_def)
  have times: "tw_now start_store = 0" "tw_now second_login = 2001" "tw_now older_looked_up \<le> 9002"
    using set_session_time [of newer_session Proxy 1 sample_codec "wait_until 2000 first_login"]
      get_session_time [of 1 sample_codec "''k1''" "wait_until 9000 second_login"]
    by (simp_all add: start_store_def second_login_def older_looked_up_def)
  have "repo_get_proxies timed_sessions = redis_get_proxies (timed_redis 1) sample_codec"
    by (simp add: redis_session_repository_def)
  then show ?thesis
    using second_login_stops_routing [OF timed_redis_timed sample_codec_ok sample_sessions(5,6) _ _ first
        wait_until_later second wait_until_later _ up _ wait_until_later, of 12500 "''k1''"]
      first_times times by simp
qed

end
