(* ===== verification/Endless_Relay.thy ===== *)
theory Endless_Relay
  imports Network
begin

section \<open>A message that is relayed without end\<close>

text \<open>
  The end route is the fourth of a conversation and no other, so a conversation that has issued it
  and goes on has only inner hops left.  A client can bring that about by asking for four hops itself
  before it uses the first: then each proxy finds another proxy to pass the message on to.
\<close>

subsection \<open>Beyond the end route\<close>

lemma relayed_without_end:
  assumes "configured tg" and "distinct_ids tg"
  shows "serving tg net \<Longrightarrow> two_proxies (nw_controller net) \<Longrightarrow>
    indexed_proxy (nw_controller net) j t \<Longrightarrow>
    stored_conversation (nw_controller net) c = Some x \<Longrightarrow> 4 \<le> length (conv_routes x) \<Longrightarrow>
    stored_route (nw_controller net) c n = Some r \<Longrightarrow> \<not> rt_end_route r \<Longrightarrow>
    \<exists>e net'. tp_execute_command (network_transport tg depth) (session_uri t) (send_request c n content) net =
        (Err e, net') \<and> nw_mail net' = nw_mail net \<and> nw_next net' = nw_next net + 2 * depth"
proof (induction depth arbitrary: net j t x n r)
  case 0
  show ?case by (simp add: client_calls_def controller_calls_def throw_def)
next
  case (Suc depth)
  have fin: "False = (length (conv_routes x) = 3)" using Suc.prems(5) by simp
  obtain t0 where target: "hop_target j x (nw_controller net) t0"
    by (rule another_proxy [OF Suc.prems(2)]) (use fin in auto)
  obtain t' n' net2 where two: "hop_target j x (nw_controller net) t'" "serving tg net2"
    "same_sessions (nw_controller net) (nw_controller net2)"
    "nw_mail net2 = nw_mail net" "nw_next net2 = Suc (Suc (nw_next net))"
    "stored_conversation (nw_controller net2) =
      (stored_conversation (nw_controller net))(c \<mapsto> push_route (hop_route n' False t') x)"
    "stored_route (nw_controller net2) =
      (\<lambda>a. (stored_route (nw_controller net) a)(n := None, n' \<mapsto> hop_route n' False t'))"
    and fails: "\<And>content e net'. tp_execute_command (network_transport tg depth) (session_uri t')
        (send_request c n' content) net2 = (Err e, net') \<Longrightarrow>
      \<exists>e'. tp_execute_command (network_transport tg (Suc depth)) (session_uri t) (send_request c n content) net =
        (Err e', net')"
    by (rule proxy_turn [OF assms Suc.prems(1,3,4,6,7) target fin, of depth]) blast
  obtain j' where "indexed_proxy (nw_controller net) j' t'"
    using two(1) fin by (auto simp: hop_target_proxy)
  then have proxies: "two_proxies (nw_controller net2)" "indexed_proxy (nw_controller net2) j' t'"
    using Suc.prems(2) same_sessions_proxies [OF two(3)] by simp_all
  have "\<exists>e net'. tp_execute_command (network_transport tg depth) (session_uri t')
        (send_request c n' content) net2 = (Err e, net') \<and> nw_mail net' = nw_mail net2 \<and>
      nw_next net' = nw_next net2 + 2 * depth"
    by (rule Suc.IH [OF two(2) proxies, where x = "push_route (hop_route n' False t') x"
          and r = "hop_route n' False t'"])
       (use two(6,7) Suc.prems(5) in simp_all)
  with fails two(4,5) show ?case by fastforce
qed

subsection \<open>Four hops in advance\<close>

definition request_hop :: "topology \<Rightarrow> string \<Rightarrow> string \<Rightarrow> (network, route_response, status) prog" where
  "request_hop tg k c = ask tg sel_hop (Next_Route k c) (tg_controller tg)"

text \<open>Five requests that every client with a session may make.\<close>

definition prefetch :: "topology \<Rightarrow> string \<Rightarrow> string \<Rightarrow> (network, string \<times> route_response, status) prog" where
  "prefetch tg k to =
     and_then (ask tg sel_initialized (Initialize k to) (tg_controller tg)) (\<lambda>c.
     and_then (request_hop tg k c) (\<lambda>first.
     and_then (request_hop tg k c) (\<lambda>_.
     and_then (request_hop tg k c) (\<lambda>_.
     and_then (request_hop tg k c) (\<lambda>_.
     ret (c, first))))))"

text \<open>
  The network \<open>net\<close>, which came from \<open>net0\<close> by requests to the controller: the conversation has
  \<open>m\<close> hops, and the route with nonce \<open>n\<close> is stored.
\<close>

definition primed :: "topology \<Rightarrow> network \<Rightarrow> string \<Rightarrow> string \<Rightarrow> string \<Rightarrow> route \<Rightarrow> nat \<Rightarrow> network \<Rightarrow> bool" where
  "primed tg net0 to c n r m net \<longleftrightarrow>
     serving tg net \<and> same_sessions (nw_controller net0) (nw_controller net) \<and> nw_mail net = nw_mail net0 \<and>
     stored_route (nw_controller net) c n = Some r \<and>
     (\<exists>x. stored_conversation (nw_controller net) c = Some x \<and> conv_to x = init_target to \<and>
          length (conv_routes x) = m)"

lemma hop_requested:
  assumes "distinct_ids tg" and "primed tg net0 to c n r m net" and "two_proxies (nw_controller net0)"
    and "live_session (nw_controller net0) k = Some s"
    and "inmem_get_client (init_target to) (session_repo (nw_controller net0)) = Some cl"
  shows "\<exists>y net'. request_hop tg k c net = (Ok y, net') \<and> primed tg net0 to c n r (Suc m) net'"
proof -
  obtain x where serving: "serving tg net" and same: "same_sessions (nw_controller net0) (nw_controller net)"
    and x: "stored_conversation (nw_controller net) c = Some x" "conv_to x = init_target to"
      "length (conv_routes x) = m"
    and mail: "nw_mail net = nw_mail net0" and r: "stored_route (nw_controller net) c n = Some r"
    using assms(2) by (auto simp: primed_def)
  note views = same_sessions_views [OF same] same_sessions_proxies [OF same]
  obtain t0 where t0: "hop_target k x (nw_controller net) t0"
  proof (cases "length (conv_routes x) = 3")
    case True
    with assms(5) x(2) that show thesis by (simp add: hop_target_def views)
  next
    case False
    have "two_proxies (nw_controller net)" using assms(3) by (simp add: views)
    from another_proxy [OF this False, of k] that show thesis by blast
  qed
  let ?n = "tg_uuid tg (nw_next net)" and ?fin = "length (conv_routes x) = 3"
  have "stored_route (nw_controller net) c ?n = None"
    using serving by (simp add: serving_def Let_def fresh_uuid_views)
  then have n: "?n \<noteq> n" using r by auto
  have live: "live_session (nw_controller net) k = Some s" using assms(4) by (simp add: views)
  obtain t w' where w': "ask tg sel_hop (Next_Route k c) (tg_controller tg) net =
      (Ok (hop_response ?n ?fin t), moved w' net)" "serving tg (moved w' net)"
    "same_sessions (nw_controller net) w'"
    "stored_conversation w' = (stored_conversation (nw_controller net))(c \<mapsto> push_route (hop_route ?n ?fin t) x)"
    "stored_route w' = (\<lambda>a. (stored_route (nw_controller net) a)(?n \<mapsto> hop_route ?n ?fin t))"
    by (rule ask_route [OF serving assms(1) live x(1) t0 refl refl])
  have "primed tg net0 to c n r (Suc m) (moved w' net)"
    using w'(2,4,5) same_sessions_trans [OF same w'(3)] mail r n x(2,3) by (simp add: primed_def)
  with w'(1) show ?thesis by (auto simp: request_hop_def)
qed

text \<open>
  C31. A client can make the proxies pass a message on without end.  In a network that serves, with two
  proxies and a recipient that is connected, a client opens a conversation, asks for four hops
  and gives the message to the first: it is never delivered, and however deep the calls of the
  proxies may nest, every level of it is used, at two requests to the controller each.  (No time passes
  in the network; with the in-memory tables it ends when a sweep removes the conversation, with Redis
  every hop gives the conversation another minute.)
\<close>

theorem prefetched_hops_relay_without_end:
  assumes "configured tg" and "distinct_ids tg" and "serving tg net"
    and "two_proxies (nw_controller net)" and "live_session (nw_controller net) k = Some s"
    and "inmem_get_client (init_target to) (session_repo (nw_controller net)) = Some cl"
  shows "\<exists>c hop t net1. prefetch tg k to net = (Ok (c, hop), net1) \<and> hop = hop_response (rr_nonce hop) False t
    \<and> (\<forall>depth. \<exists>e net'. tp_execute_command (network_transport tg depth) (session_uri t)
          (send_request c (rr_nonce hop) content) net1 = (Err e, net')
        \<and> nw_mail net' = nw_mail net \<and> nw_next net' = nw_next net1 + 2 * depth)"
proof -
  obtain c x n j t net1 net2 where x: "x = new_conversation c (ss_uid s) (init_target to) 1"
    and calls: "ask tg sel_initialized (Initialize k to) (tg_controller tg) net = (Ok c, net1)"
      "ask tg sel_hop (Next_Route k c) (tg_controller tg) net1 = (Ok (hop_response n False t), net2)"
    and net2: "serving tg net2" "same_sessions (nw_controller net) (nw_controller net2)"
      "nw_mail net2 = nw_mail net"
    and j: "indexed_proxy (nw_controller net) j t"
    and views: "stored_conversation (nw_controller net2) =
        (stored_conversation (nw_controller net))(c \<mapsto> push_route (hop_route n False t) x)"
      "stored_route (nw_controller net2) =
        (\<lambda>a. (stored_route (nw_controller net) a)(n \<mapsto> hop_route n False t))"
    by (rule first_hop_run [OF assms(2-5), where to = to]) blast
  let ?r = "hop_route n False t"
  have "primed tg net to c n ?r 1 net2"
    using net2 views x by (simp add: primed_def new_conversation_def)
  note step = hop_requested [OF assms(2) _ assms(4-6)]
  from step [OF \<open>primed tg net to c n ?r 1 net2\<close>] obtain y2 net3
    where net3: "request_hop tg k c net2 = (Ok y2, net3)" "primed tg net to c n ?r (Suc 1) net3" by blast
  from step [OF net3(2)] obtain y3 net4
    where net4: "request_hop tg k c net3 = (Ok y3, net4)" "primed tg net to c n ?r (Suc (Suc 1)) net4" by blast
  from step [OF net4(2)] obtain y4 net5
    where net5: "request_hop tg k c net4 = (Ok y4, net5)" "primed tg net to c n ?r (Suc (Suc (Suc 1))) net5"
    by blast
  obtain x5 where x5: "serving tg net5" "same_sessions (nw_controller net) (nw_controller net5)"
    "nw_mail net5 = nw_mail net" "stored_route (nw_controller net5) c n = Some ?r"
    "stored_conversation (nw_controller net5) c = Some x5" "4 \<le> length (conv_routes x5)"
    using net5(2) by (auto simp: primed_def)
  have proxies: "two_proxies (nw_controller net5)" "indexed_proxy (nw_controller net5) j t"
    using assms(4) j same_sessions_proxies [OF x5(2)] by simp_all
  have endless: "\<exists>e net'. tp_execute_command (network_transport tg depth) (session_uri t)
        (send_request c n content) net5 = (Err e, net') \<and> nw_mail net' = nw_mail net \<and>
      nw_next net' = nw_next net5 + 2 * depth" for depth
    using relayed_without_end [OF assms(1,2) x5(1) proxies x5(5,6,4)] x5(3) by simp
  have "prefetch tg k to net = (Ok (c, hop_response n False t), net5)"
    using calls(2) net3(1) net4(1) net5(1)
    by (simp add: prefetch_def prog_simps calls(1) request_hop_def)
  moreover have "rr_nonce (hop_response n False t) = n" by (simp add: hop_response_def)
  ultimately show ?thesis
    using endless
    by (intro exI [of _ c] exI [of _ "hop_response n False t"] exI [of _ t] exI [of _ net5]) simp
qed

end
