(* ===== verification/Endless_Relay_Samples.thy ===== *)
theory Endless_Relay_Samples
  imports Network_Samples Endless_Relay
begin

section \<open>A concrete message that is relayed without end\<close>

text \<open>The network of \<open>Network_Samples\<close>, in which seven levels of nested calls are used up.\<close>

theorem prefetched_hops_relay_without_end_witness:
  "\<exists>c hop t net1 e net'. prefetch net_topology ''k3'' ''bob'' net_start = (Ok (c, hop), net1)
   \<and> tp_execute_command (network_transport net_topology 7) (session_uri t)
        (send_request c (rr_nonce hop) (as_bytes ''hi'')) net1 = (Err e, net')
   \<and> nw_mail net' = nw_mail net_start \<and> nw_next net' = nw_next net1 + 14"
proof -
  obtain c hop t net1
    where "prefetch net_topology ''k3'' ''bob'' net_start = (Ok (c, hop), net1)"
      and all: "\<And>depth. \<exists>e net'. tp_execute_command (network_transport net_topology depth) (session_uri t)
          (send_request c (rr_nonce hop) (as_bytes ''hi'')) net1 = (Err e, net')
        \<and> nw_mail net' = nw_mail net_start \<and> nw_next net' = nw_next net1 + 2 * depth"
    using prefetched_hops_relay_without_end
        [OF net_configured net_ids net_serving net_two_proxies net_clients, of "as_bytes ''hi''"] by blast
  with all [of 7] show ?thesis by fastforce
qed

end
