(* ===== verification/Redis_Races.thy ===== *)
theory Redis_Races
  imports Redis_Properties Interleavings
begin

section \<open>Two hops at the same time, with Redis\<close>

text \<open>
  \<^verbatim>\<open>set_route\<close> of the Redis repository reads the conversation in one command, gives the connection
  back, and writes the conversation with the new route in a second.  Two of them that read before
  either writes lose a route.
\<close>

definition redis_set_route_t ::
  "('w, 'r) redis \<Rightarrow> codec \<Rightarrow> string \<Rightarrow> route \<Rightarrow> ('w, string option, 'e) thread" where
  "redis_set_route_t R js c r =
     t_bind (call (redis_get_conversation R js c)) (\<lambda>found.
     t_bind (t_unwrap found) (\<lambda>conversation.
     let conversation = conversation\<lparr>conv_routes := conv_routes conversation @ [r]\<rparr>;
         key = get_routes_key c
     in t_bind (call (unwrap_result (rd_exec_atomic R
          [H_Set key (rt_nonce r) (route_to_json js r),
           Expire key (as_secs ROUTES_EXPIRATION_TIME),
           Set_Ex (get_conversation_key c) (conversation_to_json js conversation)
             (as_secs CONVERSATIONS_EXPIRATION_TIME)]))) (\<lambda>_.
        t_ret (Some (rt_nonce r)))))"

lemma redis_set_route_alone: "run_alone (redis_set_route_t R js c r) = redis_set_route R js c r"
  by (simp add: redis_set_route_t_def redis_set_route_def Let_def)

text \<open>What is left of it when the conversation has been read.\<close>

definition route_write ::
  "('w, 'r) redis \<Rightarrow> codec \<Rightarrow> string \<Rightarrow> conversation \<Rightarrow> route \<Rightarrow> ('w, string option, 'e) thread" where
  "route_write R js c x r =
     t_bind (call (unwrap_result (rd_exec_atomic R
          [H_Set (get_routes_key c) (rt_nonce r) (route_to_json js r), Expire (get_routes_key c) 60,
           Set_Ex (get_conversation_key c)
             (conversation_to_json js (x\<lparr>conv_routes := conv_routes x @ [r]\<rparr>)) 60]))) (\<lambda>_.
        t_ret (Some (rt_nonce r)))"

lemma route_read:
  assumes "redis_works R ks" and "codec_ok js" and "redis_inv js (ks w)"
    and "redis_conversation js (ks w) c = Some x"
  shows "advance 1 (redis_set_route_t R js c r, w) = (route_write R js c x r, w)"
  using assms(4) by (simp add: redis_set_route_t_def route_write_def redis_get_conversation_run [OF assms(1-3)] Let_def)

lemma route_written:
  assumes "redis_works R ks" and "redis_inv js (ks w)"
  obtains w' where "advance 1 (route_write R js c x r, w) = (Done (Ok (Some (rt_nonce r))), w')"
    and "ks w' = (ks w)(get_routes_key c \<mapsto>
        Hash ((hash_field (ks w) (get_routes_key c))(rt_nonce r \<mapsto> route_to_json js r)),
      get_conversation_key c \<mapsto> Str (conversation_to_json js (x\<lparr>conv_routes := conv_routes x @ [r]\<rparr>)))"
proof -
  let ?cs = "[H_Set (get_routes_key c) (rt_nonce r) (route_to_json js r), Expire (get_routes_key c) 60,
    Set_Ex (get_conversation_key c) (conversation_to_json js (x\<lparr>conv_routes := conv_routes x @ [r]\<rparr>)) 60]"
  have "commands_ok ?cs (ks w)" using redis_invD(4) [OF assms(2)] by simp
  then obtain w' where "rd_exec_atomic R ?cs w = (Ok (), w')" "ks w' = apply_commands ?cs (ks w)"
    using redis_atomicD [OF assms(1)] by blast
  then show thesis by (intro that [of w']) (simp_all add: route_write_def result_defs)
qed

text \<open>
  C40. Two hops stored at the same time with Redis, in an explicit interleaving: both calls read the
  conversation, then each writes it.  Both routes are stored and both calls succeed, but the
  conversation has one more hop and not two, so the next request counts a hop too few.
\<close>

theorem redis_concurrent_hops_lose_one:
  fixes R :: "('w, 'r) redis"
  assumes "redis_works R ks" and "codec_ok js" and "redis_inv js (ks w)"
    and "redis_conversation js (ks w) c = Some x" and "rt_nonce r \<noteq> rt_nonce r'"
  shows "\<exists>t t' w1 w2 :: 'w.
      advance 1 (redis_set_route_t R js c r, w) = ((t :: ('w, string option, status) thread), w)
    \<and> advance 1 (redis_set_route_t R js c r', w) = ((t' :: ('w, string option, status) thread), w)
    \<and> advance 1 (t, w) = (Done (Ok (Some (rt_nonce r))), w1)
    \<and> advance 1 (t', w1) = (Done (Ok (Some (rt_nonce r'))), w2)
    \<and> redis_conversation js (ks w2) c = Some (x\<lparr>conv_routes := conv_routes x @ [r']\<rparr>)
    \<and> redis_route js (ks w2) c (rt_nonce r) = Some r \<and> redis_route js (ks w2) c (rt_nonce r') = Some r'"
proof -
  obtain w1 where w1: "advance 1 (route_write R js c x r, w) =
      ((Done (Ok (Some (rt_nonce r))) :: ('w, string option, status) thread), w1)"
    "ks w1 = (ks w)(get_routes_key c \<mapsto>
        Hash ((hash_field (ks w) (get_routes_key c))(rt_nonce r \<mapsto> route_to_json js r)),
      get_conversation_key c \<mapsto> Str (conversation_to_json js (x\<lparr>conv_routes := conv_routes x @ [r]\<rparr>)))"
    by (rule route_written [OF assms(1,3)])
  have "redis_inv js (ks w1)"
    unfolding w1(2)
    by (rule redis_inv_conversation, rule redis_inv_routes [OF assms(3), where c = c and r = r])
       (auto split: if_splits)
  then obtain w2 where w2: "advance 1 (route_write R js c x r', w1) =
      ((Done (Ok (Some (rt_nonce r'))) :: ('w, string option, status) thread), w2)"
    "ks w2 = (ks w1)(get_routes_key c \<mapsto>
        Hash ((hash_field (ks w1) (get_routes_key c))(rt_nonce r' \<mapsto> route_to_json js r')),
      get_conversation_key c \<mapsto> Str (conversation_to_json js (x\<lparr>conv_routes := conv_routes x @ [r']\<rparr>)))"
    by (rule route_written [OF assms(1)])
  have "redis_conversation js (ks w2) c = Some (x\<lparr>conv_routes := conv_routes x @ [r']\<rparr>)"
    "redis_route js (ks w2) c (rt_nonce r) = Some r" "redis_route js (ks w2) c (rt_nonce r') = Some r'"
    using assms(2,5) by (simp_all add: w2(2) w1(2) redis_conversation_def redis_route_def codec_ok_def)
  with w1(1) w2(1) show ?thesis
    using route_read [OF assms(1-4)] by blast
qed

end
