(* ===== verification/Redis_Routing_Time.thy ===== *)
theory Redis_Routing_Time
  imports Redis_Time
begin

section \<open>Routing data and the time\<close>

text \<open>
  With Redis the pipeline that stores a route also gives the conversation, and all of its routes,
  another minute.  So a conversation lasts for as long as a hop is asked for once a minute; the in-memory
  tables drop it a minute after it was opened, whatever is asked for.  The server is that of
  \<open>Redis_Time\<close>: time passes during every command.
\<close>

subsection \<open>Storing a route\<close>

definition conversation_at ::
  "codec \<Rightarrow> timed_keyspace \<Rightarrow> string \<Rightarrow> conversation \<Rightarrow> instant \<Rightarrow> bool" where
  "conversation_at js es c x d \<longleftrightarrow>
     es (get_conversation_key c) = Some (Str (conversation_to_json js x), Some d)
     \<and> not_string (entries es) (get_routes_key c)"

definition with_route :: "route \<Rightarrow> conversation \<Rightarrow> conversation" where
  "with_route r x = x\<lparr>conv_routes := conv_routes x @ [r]\<rparr>"

lemma later_not_string:
  "later now ts w v \<Longrightarrow> not_string (entries (ts w)) k \<Longrightarrow> not_string (entries (ts v)) k"
  using later_entries [of now ts w v k] by (auto simp: not_string_def)

lemma timed_set_route:
  assumes "redis_timed R now ts" and "codec_ok js" and "conversation_at js (ts w) c x d"
  obtains w1 u where "redis_set_route R js c r w = ((Ok (Some (rt_nonce r)) :: (string option, status) outcome), w1)"
    and "later now ts w u" and "server_step now ts u (fold (timed_command (now u))
      [H_Set (get_routes_key c) (rt_nonce r) (route_to_json js r), Expire (get_routes_key c) 60,
       Set_Ex (get_conversation_key c) (conversation_to_json js (with_route r x)) 60]) w1"
proof -
  have stored: "entries (ts w) (get_conversation_key c) = Some (Str (conversation_to_json js x))"
    and hash: "not_string (entries (ts w)) (get_routes_key c)"
    using assms(3) by (simp_all add: conversation_at_def entries_def)
  obtain u where u: "rd_get R (get_conversation_key c) w = (Ok (conversation_to_json js x), u)" "later now ts w u"
    using timed_stringsD(2) [OF assms(1) stored] by blast
  let ?cs = "[H_Set (get_routes_key c) (rt_nonce r) (route_to_json js r), Expire (get_routes_key c) 60,
       Set_Ex (get_conversation_key c) (conversation_to_json js (with_route r x)) 60]"
  have "commands_ok ?cs (entries (ts u))" using later_not_string [OF u(2) hash] by simp
  then obtain w1 where w1: "rd_exec_atomic R ?cs u = (Ok (), w1)"
    "server_step now ts u (fold (timed_command (now u)) ?cs) w1"
    using timed_atomicD [OF assms(1)] by blast
  have "conversation_of_json js (conversation_to_json js x) = Some x" using assms(2) by (simp add: codec_ok_def)
  with u(1) w1(1) show thesis
    by (intro that [OF _ u(2) w1(2)])
       (simp add: redis_set_route_def redis_get_conversation_def conversation_from_redis_def prog_simps
         result_defs with_route_def Let_def)
qed

text \<open>
  From \<open>w\<close> to \<open>v\<close> time passes, and other operations may run; the conversation \<open>c\<close> and its routes
  are left alone.
\<close>

definition undisturbed ::
  "('w \<Rightarrow> instant) \<Rightarrow> ('w \<Rightarrow> timed_keyspace) \<Rightarrow> string \<Rightarrow> 'w \<Rightarrow> 'w \<Rightarrow> bool" where
  "undisturbed now ts c w v \<longleftrightarrow> now w \<le> now v
     \<and> ts v (get_conversation_key c) = unexpired (now v) (ts w) (get_conversation_key c)
     \<and> ts v (get_routes_key c) = unexpired (now v) (ts w) (get_routes_key c)"

lemma later_undisturbed: "later now ts w v \<Longrightarrow> undisturbed now ts c w v"
  by (simp add: server_step_def undisturbed_def)

text \<open>The entries at a later time, when the pipeline began at the time of \<open>u\<close>.\<close>

lemma after_set_route:
  assumes "server_step now ts u (fold (timed_command (now u))
      [H_Set (get_routes_key c) n v, Expire (get_routes_key c) 60, Set_Ex (get_conversation_key c) y 60]) w1"
    and "undisturbed now ts c w1 z"
  shows "ts z (get_conversation_key c) =
      (if now z < now u + 60000 then Some (Str y, Some (now u + 60000)) else None)"
    and "ts z (get_routes_key c) =
      (if now z < now u + 60000
       then Some (Hash ((hash_field (entries (ts u)) (get_routes_key c))(n \<mapsto> v)), Some (now u + 60000)) else None)"
proof -
  let ?es = "fold (timed_command (now u))
      [H_Set (get_routes_key c) n v, Expire (get_routes_key c) 60, Set_Ex (get_conversation_key c) y 60] (ts u)"
  have "ts w1 = unexpired (now w1) ?es" and "now w1 \<le> now z"
    using assms by (simp_all only: server_step_def undisturbed_def)
  then have z: "ts z k = unexpired (now z) ?es k" if "k = get_conversation_key c \<or> k = get_routes_key c" for k
    using assms(2) that by (auto simp only: undisturbed_def unexpired_twice)
  show "ts z (get_conversation_key c) =
      (if now z < now u + 60000 then Some (Str y, Some (now u + 60000)) else None)"
    by (simp add: z unexpired_def [of "now z"])
  show "ts z (get_routes_key c) =
      (if now z < now u + 60000
       then Some (Hash ((hash_field (entries (ts u)) (get_routes_key c))(n \<mapsto> v)), Some (now u + 60000)) else None)"
    by (simp add: z unexpired_def [of "now z"])
qed

subsection \<open>Looking it up\<close>

lemma timed_get_conversation:
  assumes "redis_timed R now ts" and "codec_ok js"
    and "ts z (get_conversation_key c) =
      (if b then Some (Str (conversation_to_json js x), Some d) else None)"
  shows "fst (redis_get_conversation R js c z) = (Ok (if b then Some x else None) :: (conversation option, status) outcome)"
proof (cases b)
  case True
  then have "entries (ts z) (get_conversation_key c) = Some (Str (conversation_to_json js x))"
    using assms(3) by (simp add: entries_def)
  then obtain z' where "rd_get R (get_conversation_key c) z = (Ok (conversation_to_json js x), z')"
    using timed_stringsD(2) [OF assms(1)] by blast
  moreover have "conversation_of_json js (conversation_to_json js x) = Some x"
    using assms(2) by (simp add: codec_ok_def)
  ultimately show ?thesis using True
    by (simp add: redis_get_conversation_def conversation_from_redis_def prog_simps result_defs)
next
  case False
  then have "not_string (entries (ts z)) (get_conversation_key c)"
    using assms(3) by (simp add: not_string_None)
  then obtain e z' where "rd_get R (get_conversation_key c) z = (Err e, z')"
    using timed_stringsD(3) [OF assms(1)] by blast
  with False show ?thesis by (simp add: redis_get_conversation_def prog_simps result_defs)
qed

lemma timed_get_route:
  assumes "redis_timed R now ts" and "codec_ok js"
    and "hash_field (entries (ts z)) (get_routes_key c) n = (if b then Some (route_to_json js r) else None)"
  shows "fst (redis_get_route R js c n z) = (Ok (if b then Some r else None) :: (route option, status) outcome)"
proof (cases b)
  case True
  then obtain z' where "rd_hget R (get_routes_key c) n z = (Ok (route_to_json js r), z')"
    using assms unfolding redis_timed_def timed_hashes_def by (metis (full_types))
  moreover have "route_of_json js (route_to_json js r) = Some r" using assms(2) by (simp add: codec_ok_def)
  ultimately show ?thesis using True
    by (simp add: redis_get_route_def route_from_redis_def prog_simps result_defs)
next
  case False
  then obtain e z' where "rd_hget R (get_routes_key c) n z = (Err e, z')"
    using assms unfolding redis_timed_def timed_hashes_def by (metis (full_types))
  with False show ?thesis by (simp add: redis_get_route_def prog_simps result_defs)
qed

subsection \<open>A hop a minute\<close>

text \<open>
  The routes \<open>rs\<close> are stored one after the other, each less than a minute after the one before.
\<close>

fun hops_in_time ::
  "('w, 'r) redis \<Rightarrow> codec \<Rightarrow> ('w \<Rightarrow> instant) \<Rightarrow> ('w \<Rightarrow> timed_keyspace) \<Rightarrow> string \<Rightarrow> route list \<Rightarrow>
     'w \<Rightarrow> 'w \<Rightarrow> bool" where
  "hops_in_time R js now ts c [] w v \<longleftrightarrow> v = w"
| "hops_in_time R js now ts c (r # rs) w v \<longleftrightarrow>
     (\<exists>u. undisturbed now ts c (snd (redis_set_route R js c r w :: (string option, status) outcome \<times> 'w)) u \<and>
        now u < now w + 60000 \<and> hops_in_time R js now ts c rs u v)"

lemma hops_keep_conversation:
  assumes "redis_timed R now ts" and "codec_ok js"
  shows "conversation_at js (ts w) c x d \<Longrightarrow> hops_in_time R js now ts c rs w v \<Longrightarrow>
    \<exists>d'. conversation_at js (ts v) c (x\<lparr>conv_routes := conv_routes x @ rs\<rparr>) d'"
proof (induction rs arbitrary: w x d)
  case Nil
  then show ?case by auto
next
  case (Cons r rs)
  from Cons.prems(2) obtain u where
    u: "undisturbed now ts c (snd (redis_set_route R js c r w :: (string option, status) outcome \<times> 'a)) u"
      "now u < now w + 60000" "hops_in_time R js now ts c rs u v" by auto
  obtain w1 y where w1: "redis_set_route R js c r w = ((Ok (Some (rt_nonce r)) :: (string option, status) outcome), w1)"
    and y: "later now ts w y" "server_step now ts y (fold (timed_command (now y))
      [H_Set (get_routes_key c) (rt_nonce r) (route_to_json js r), Expire (get_routes_key c) 60,
       Set_Ex (get_conversation_key c) (conversation_to_json js (with_route r x)) 60]) w1"
    by (rule timed_set_route [OF assms Cons.prems(1), of r])
  have "undisturbed now ts c w1 u" using u(1) w1 by simp
  note stored = after_set_route [OF y(2) this]
  have "now u < now y + 60000" using u(2) y(1) by (simp add: server_step_def)
  then have "conversation_at js (ts u) c (with_route r x) (now y + 60000)"
    using stored by (simp add: conversation_at_def not_string_def entries_def)
  from Cons.IH [OF this u(3)] show ?case by (simp add: with_route_def)
qed

text \<open>
  C15. With Redis a conversation goes on for as long as hops are asked for: however many routes \<open>rs\<close>
  were stored, each within a minute of the one before, one more is stored, and the conversation
  with all of them, like the new route, is there for exactly a minute from then on.  The instant
  that counts is one between the beginning and the end of the call.
\<close>

theorem redis_hops_prolong_conversation:
  assumes "redis_timed R now ts" and "codec_ok js" and "conversation_at js (ts w) c x d"
    and "hops_in_time R js now ts c rs w v"
    and "redis_set_route R js c r v = ((res :: (string option, status) outcome), v1)"
    and "undisturbed now ts c v1 z"
  shows "res = Ok (Some (rt_nonce r)) \<and> (\<exists>t. now v \<le> t \<and> t \<le> now v1
    \<and> fst (redis_get_conversation R js c z) = (Ok (if now z < t + 60000
        then Some (x\<lparr>conv_routes := conv_routes x @ rs @ [r]\<rparr>) else None) :: (conversation option, status) outcome)
    \<and> fst (redis_get_route R js c (rt_nonce r) z) =
        (Ok (if now z < t + 60000 then Some r else None) :: (route option, status) outcome))"
proof -
  obtain d' where "conversation_at js (ts v) c (x\<lparr>conv_routes := conv_routes x @ rs\<rparr>) d'"
    using hops_keep_conversation [OF assms(1-4)] by blast
  then obtain w1 y where w1: "redis_set_route R js c r v = ((Ok (Some (rt_nonce r)) :: (string option, status) outcome), w1)"
    and y: "later now ts v y" "server_step now ts y (fold (timed_command (now y))
      [H_Set (get_routes_key c) (rt_nonce r) (route_to_json js r), Expire (get_routes_key c) 60,
       Set_Ex (get_conversation_key c)
         (conversation_to_json js (with_route r (x\<lparr>conv_routes := conv_routes x @ rs\<rparr>))) 60]) w1"
    by (rule timed_set_route [OF assms(1,2)])
  have run: "res = Ok (Some (rt_nonce r))" "w1 = v1" using w1 assms(5) by simp_all
  have times: "now v \<le> now y" "now y \<le> now v1" using y run(2) by (simp_all add: server_step_def)
  note stored = after_set_route [OF y(2) assms(6) [folded run(2)]]
  have conversation: "fst (redis_get_conversation R js c z) = (Ok (if now z < now y + 60000
      then Some (with_route r (x\<lparr>conv_routes := conv_routes x @ rs\<rparr>)) else None) :: (conversation option, status) outcome)"
    by (rule timed_get_conversation [OF assms(1,2) stored(1)])
  have field: "hash_field (entries (ts z)) (get_routes_key c) (rt_nonce r) =
      (if now z < now y + 60000 then Some (route_to_json js r) else None)"
    using stored(2) by (simp add: hash_field_def entries_def)
  have route: "fst (redis_get_route R js c (rt_nonce r) z) =
      (Ok (if now z < now y + 60000 then Some r else None) :: (route option, status) outcome)"
    by (rule timed_get_route [OF assms(1,2) field])
  show ?thesis
    using run(1) times conversation route by (intro conjI exI [of _ "now y"]) (simp_all add: with_route_def)
qed

end
