(* ===== verification/Redis_Routing_Samples.thy ===== *)
theory Redis_Routing_Samples
  imports Redis_Routing_Time Redis_Time_Samples Redis_Races
begin

section \<open>A concrete conversation on a server with a clock\<close>

text \<open>
  A conversation is opened, and a hop is stored fifty seconds later and again after fifty more: it is
  there until sixty seconds after the second hop.  And, on the server of \<open>Redis_Samples\<close>, two hops stored
  at the same time.
\<close>

abbreviation timed_routes :: "(timed_store, status) route_repository" where
  "timed_routes \<equiv> redis_route_repository (timed_redis 1) sample_codec"

definition opened :: timed_store where
  "opened = snd (repo_set_conversation timed_routes (sample_conversation ''c1'' []) start_store)"

definition one_hop :: timed_store where
  "one_hop = snd (repo_set_route timed_routes ''c1'' (hop_to_p1 ''n0'') (wait_until 50000 opened))"

definition two_hops :: timed_store where
  "two_hops = snd (repo_set_route timed_routes ''c1'' (hop_to_p1 ''n1'') (wait_until 100000 one_hop))"

lemma set_route_time:
  "tw_now (snd (redis_set_route (timed_redis d) js c r w :: (string option, status) outcome \<times> timed_store))
     \<le> tw_now w + 2 * d"
  by (auto simp: redis_set_route_def redis_get_conversation_def timed_redis_def result_defs prog_simps
      change_def reply_def conversation_from_redis_def unwrap_or_panic_def Let_def
      split: option.splits redis_entry.splits outcome.splits)

lemma opened_facts:
  "tw_now opened = 1"
  "conversation_at sample_codec (tw_view (wait_until 50000 opened)) ''c1'' (sample_conversation ''c1'' []) 60000"
  by (simp_all add: opened_def start_store_def redis_set_conversation_def redis_route_repository_def
      sample_conversation_def result_defs prog_simps change_def purge_def conversation_at_def tw_view_def
      wait_until_def unexpired_def not_string_def entries_def new_conversation_def)

theorem redis_hops_prolong_conversation_witness:
  "fst (repo_get_conversation timed_routes ''c1'' (wait_until 159999 two_hops)) =
     Ok (Some (sample_conversation ''c1'' [hop_to_p1 ''n0'', hop_to_p1 ''n1'']))
   \<and> fst (repo_get_conversation timed_routes ''c1'' (wait_until 160002 two_hops)) = Ok None"
proof -
  have times: "tw_now one_hop \<le> 50002" "tw_now two_hops \<le> 100002"
    using set_route_time [of 1 sample_codec "''c1''" "hop_to_p1 ''n0''" "wait_until 50000 opened"]
      set_route_time [of 1 sample_codec "''c1''" "hop_to_p1 ''n1''" "wait_until 100000 one_hop"]
    by (simp_all add: one_hop_def two_hops_def redis_route_repository_def)
  have hops: "hops_in_time (timed_redis 1) sample_codec tw_now tw_view ''c1'' [hop_to_p1 ''n0'']
      (wait_until 50000 opened) (wait_until 100000 one_hop)"
    using later_undisturbed [OF wait_until_later [of one_hop 100000]] times
    by (auto simp: one_hop_def redis_route_repository_def)
  have second: "redis_set_route (timed_redis 1) sample_codec ''c1'' (hop_to_p1 ''n1'') (wait_until 100000 one_hop) =
      (fst (repo_set_route timed_routes ''c1'' (hop_to_p1 ''n1'') (wait_until 100000 one_hop)), two_hops)"
    by (simp add: two_hops_def redis_route_repository_def)
  note prolonged = redis_hops_prolong_conversation [OF timed_redis_timed sample_codec_ok opened_facts(2) hops
      second later_undisturbed [OF wait_until_later]]
  have "repo_get_conversation timed_routes = redis_get_conversation (timed_redis 1) sample_codec"
    by (simp add: redis_route_repository_def)
  then show ?thesis
    using prolonged [of 159999] prolonged [of 160002] times by (fastforce simp: sample_conversation_def)
qed

text \<open>Two hops at the same time in an empty conversation.\<close>

theorem redis_concurrent_hops_lose_one_witness:
  "\<exists>t t' w1 w2.
      advance 1 (redis_set_route_t sample_redis sample_codec ''c1'' (hop_to_p1 ''n1''), redis_store []) =
        ((t :: (redis_store, string option, status) thread), redis_store [])
    \<and> advance 1 (redis_set_route_t sample_redis sample_codec ''c1'' (hop_to_p1 ''n2''), redis_store []) =
        ((t' :: (redis_store, string option, status) thread), redis_store [])
    \<and> advance 1 (t, redis_store []) = (Done (Ok (Some ''n1'')), w1)
    \<and> advance 1 (t', w1) = (Done (Ok (Some ''n2'')), w2)
    \<and> redis_conversation sample_codec (map_of w2) ''c1'' = Some (sample_conversation ''c1'' [hop_to_p1 ''n2''])
    \<and> redis_route sample_codec (map_of w2) ''c1'' ''n1'' = Some (hop_to_p1 ''n1'')
    \<and> redis_route sample_codec (map_of w2) ''c1'' ''n2'' = Some (hop_to_p1 ''n2'')"
proof -
  have n: "rt_nonce (hop_to_p1 m) = m" for m by simp
  have nonces: "rt_nonce (hop_to_p1 ''n1'') \<noteq> rt_nonce (hop_to_p1 ''n2'')" by simp
  have x: "sample_conversation ''c1'' []\<lparr>conv_routes := conv_routes (sample_conversation ''c1'' []) @ [r]\<rparr> =
      sample_conversation ''c1'' [r]" for r
    by (simp add: sample_conversation_def)
  show ?thesis
    using redis_concurrent_hops_lose_one [OF sample_redis_works sample_codec_ok redis_store_inv [of "[]"]
      redis_store_views(3) [of "[]"] nonces] unfolding n x .
qed

end
