(* ===== verification/Typed_Messages.thy ===== *)
theory Typed_Messages
  imports Network
begin

section \<open>From the keyboard to the screen\<close>




end
