(* ===== verification/Typed_Samples.thy ===== *)
theory Typed_Samples
  imports Network_Samples Typed_Messages
begin

section \<open>A concrete line of input\<close>




end
