(* ===== verification/Spec2Isabelle.thy ===== *)
theory Spec2Isabelle
  imports Network_Samples Process_Samples Repository_Locks Interleaving_Samples Unit_Tests
    Redis_Time_Samples Endless_Relay_Samples
    Redis_Races Redis_Routing_Samples Typed_Samples
begin

text \<open>
  A model of \<^verbatim>\<open>fuzzy-chat\<close>.

  \<^bold>\<open>The program.\<close>  A chat in which a message travels over three proxies.  A controller keeps the
  sessions of proxies and clients, opens conversations and hands out the hops of a conversation one
  at a time, each under a nonce that is redeemed once.  A client opens a conversation, asks for the
  first hop and gives the message to that proxy; each proxy redeems the nonce it was
  reached with, asks for the next hop and passes the message on; the fourth hop is the receiving
  client, which redeems its nonce, learns the sender and prints the message.  The crates are
  \<^verbatim>\<open>crosscutting\<close> (settings, addresses), \<^verbatim>\<open>gateway\<close> (clients of the services and the log-in loop),
  \<^verbatim>\<open>controller\<close>, \<^verbatim>\<open>proxy\<close> and \<^verbatim>\<open>client\<close>.

  \<^bold>\<open>The theories.\<close>
  \<^item> \<open>Prelude\<close>, \<open>Rust_Std\<close>: machine types, results with panics, state-passing programs, maps; the
    string functions of the standard library the code uses, UTF-8 included.
  \<^item> \<open>Crosscutting\<close> (\<^verbatim>\<open>crosscutting/src\<close>), \<open>Models\<close> (\<^verbatim>\<open>controller/src/models.rs\<close> and the messages).
  \<^item> \<open>Storage\<close> (\<^verbatim>\<open>controller/src/storage/mod.rs\<close>): the repository traits as records of operations and
    their contracts as locales; \<open>InMemory_Sessions\<close>, \<open>InMemory_Routes\<close>, \<open>InMemory\<close>
    (\<^verbatim>\<open>storage/inmemory\<close>): the tables, their invariants, and the interpretations of the contracts.
  \<^item> \<open>Managers\<close> (\<^verbatim>\<open>session.rs\<close>, \<^verbatim>\<open>membership.rs\<close>, \<^verbatim>\<open>routing.rs\<close>) and \<open>Services\<close> (\<^verbatim>\<open>services\<close>): the
    handlers of the controller over any repositories, with lemmas proved once in the locales
    \<open>services\<close> and \<open>single_use_services\<close>.
  \<^item> \<open>Redis_Repositories\<close> (\<^verbatim>\<open>storage/redis\<close>): the traits over a connection and a JSON codec, which are
    arguments; \<open>Redis_Contracts\<close>: what is relied on of them (\<open>redis_works\<close>, \<open>codec_ok\<close>), the abstract
    maps the entries of the server stand for, and the effect of each operation on them;
    \<open>Redis_Properties\<close>: the storage contracts, and where this storage differs from the in-memory
    one; \<open>Redis_Time\<close>: a server with a clock and deadlines, over which time passes during every
    command, with \<open>Redis_Time_Samples\<close>; \<open>Redis_Routing_Time\<close>, \<open>Redis_Routing_Samples\<close>: how long
    routing data lives on it; \<open>Redis_Races\<close>: two hops stored at the same time.  \<open>Domain_Components\<close> (the \<^verbatim>\<open>create_...\<close> functions of \<^verbatim>\<open>storage/mod.rs\<close>,
    \<^verbatim>\<open>create_domain_components\<close> of \<^verbatim>\<open>main.rs\<close>): the storage the controller starts with.
    \<open>Session_Directory\<close>: an abstract directory of sessions that the authentication service
    implements over either storage.  \<open>Redis_Samples\<close>, \<open>Storage_Samples\<close>: a concrete server and codec.
  \<^item> \<open>Handler_Threads\<close>: the handlers again, as threads of atomic repository calls (the two
    writes of \<^verbatim>\<open>set_session\<close> apart), and that a thread run alone is the handler; \<open>Interleavings\<close>: any number of requests, the sweeps, the clock and the
    registration interleaved; the locales \<open>table_invariant\<close> (what each repository call keeps, every
    handler keeps) and \<open>pool_invariant\<close> (what every thread keeps, every interleaving keeps), each
    interpreted for two invariants; and two races; \<open>Hop_Races\<close>: a third, between two requests for
    the next hop; \<open>Interleaving_Samples\<close>: concrete interleavings.  \<open>Repository_Locks\<close>: the lock steps
    of the in-memory repositories, interleaved in every order.
  \<^item> \<open>Controller\<close> (\<^verbatim>\<open>main.rs\<close>): start-up, requests, and the closed form of every handler on the
    in-memory repositories; \<open>Controller_Runs\<close>: the controller as a state machine, the effects a step
    is made of, and the invariant; \<open>Controller_Properties\<close>: what follows;
    \<open>Sender_Privacy\<close>: tables that differ only in the senders of conversations, and what of them the
    replies depend on; \<open>Controller_Samples\<close>: a concrete run.
  \<^item> \<open>Process_Set_Up\<close> (\<^verbatim>\<open>settings/logging.rs\<close>, \<^verbatim>\<open>tracing.rs\<close>, the \<^verbatim>\<open>start_server_handler\<close> functions):
    logging, tracing and the server tasks over the third-party crates; \<open>Processes\<close> (the three
    \<^verbatim>\<open>main.rs\<close>): the processes with the tasks they spawn, cancel, abort and await;
    \<open>Process_Properties\<close>: when each of them starts, and with what; \<open>Process_Samples\<close>: concrete
    start-ups.
  \<^item> \<open>Gateway\<close> (\<^verbatim>\<open>gateway/src\<close>), \<open>Proxy_Node\<close> (\<^verbatim>\<open>proxy/src\<close>), \<open>Client_Node\<close> (\<^verbatim>\<open>client/src\<close>),
    \<open>Node_Samples\<close>: the other processes, over a transport that is an argument.
  \<^item> \<open>Network\<close>: the processes put together, the transport being the network itself: a remote call runs
    the handler of the process it is sent to, command calls nest; a message is delivered.
    \<open>Network_Reports\<close>: a transport that refuses connections, loses calls and replies and drops texts in
    any way, and what a sender is told over it, in any state of the network.  \<open>Typed_Messages\<close>: from the
    line typed at one client to the text shown at the other.  \<open>Endless_Relay\<close>: how a
    client makes the proxies pass a message on without end, at every depth of nested calls.
    \<open>Network_Samples\<close>, \<open>Typed_Samples\<close>, \<open>Endless_Relay_Samples\<close>: a concrete network.
  \<^item> \<open>Settings_Tests\<close>, \<open>Controller_Tests\<close>, \<open>Manager_Tests\<close>, \<open>Node_Tests\<close> (the modules \<^verbatim>\<open>tests\<close> of the
    crates and \<^verbatim>\<open>crosscutting/tests\<close>): the tests of the repository over the model, with mocks as records
    of operations; \<open>Unit_Tests\<close>: they pass, a check of the model and not a property of the program.

  \<^bold>\<open>How the code is modelled.\<close>  An \<^verbatim>\<open>async\<close> function is a program \<open>'w \<Rightarrow> outcome \<times> 'w\<close>; \<open>Ok\<close>, \<open>Err\<close> and
  \<open>Panic\<close> are its ends, and the state reached is kept in each.  In \<open>Services\<close> and what is
  built on it a handler runs to completion, so a theorem on runs is on requests served one after the
  other; what holds of requests served at the same time is \<open>Interleavings\<close>.  Traits are records of
  operations.
  Clock readings, time stamps, fresh UUIDs, the random choice and the iteration order of hash maps
  are arguments; where a theorem needs something of them it says so (\<open>picks\<close>, \<open>enumerates\<close>,
  \<open>fresh_uuid\<close>).  Integers have their width; \<^verbatim>\<open>as u16\<close> truncates.  Loops that may not end
  (\<open>keep_alive\<close>, \<open>auth_handler\<close>) carry fuel, with \<open>None\<close> for a run that is not over; that the
  log-in loop ends once its token is cancelled, with a round of fuel for each second until then and
  two more, is \<open>auth_handler_ends\<close>; \<open>pings_are_timely\<close> proves the same of the keep-alive loop.

  \<^bold>\<open>What is shown.\<close> For the in-memory tables: their invariant, the exact effect
  of the sweeps in any order, what a look-up returns. For the handlers: who is rejected, exactly
  when a login succeeds, what a route request and a redemption answer and change. For runs: senders
  are members, the fourth hop and only it is the end of a route and leads to the client the
  conversation is for, the others to proxies, a nonce is good for one redemption, routing data is
  gone a minute after it was made, and no request but a login with an unknown component code panics.
  In any interleaving: the users of sessions, the senders of conversations and the senders named by
  redemptions are members, and a nonce that was not issued is refused; but a nonce can be redeemed
  twice at the same time, two requests for a hop can skip the end route, and a ping can panic.
  Who sent a message stays private: no reply but the redemption of an end route depends on it.
  For the processes: exactly what a start-up needs, that the tables it leaves are those the runs begin
  with, that a proxy or client never logs in without a channel, in which order tasks are spawned and
  cleaned up, and that a server which cannot start goes
  unnoticed. For the storage: both kinds keep the contracts the
  services are proved over, authentication is answered alike over either, start-up ends in the one the
  environment names or, with Redis, in a panic at the first connection that fails, a session lives for ten seconds from each look-up in either, and the
  operations of the in-memory route repository all come to an end; but a conversation lives for a
  minute from its last hop with Redis and from its opening in memory, and with Redis one of two
  hops stored at the same time can be lost. For the other processes: a command
  needs a redeemed nonce, the log-in loop pings in time until it is cancelled and then logs out in
  bounded time, the command parser is total and right up to a recipient that occurs in the
  command word, a message arrives once and with the text that was typed where nothing is lost, and at
  most once where calls and replies are, when a failure may be reported of a message that arrived;
  but a client that asks for its hops in advance can keep the proxies busy without end.
  The model is also run on the tests of the repository, which pass under hypotheses on what they
  leave to their surroundings (\<open>unit_tests_pass\<close>).
  Several theorems state behaviour that is surprising: \<open>nonce_redeemable_elsewhere\<close>,
  \<open>old_session_unlists_user\<close>, \<open>logged_out_proxy_stays_counted\<close>,
  \<open>random_route_never_last\<close>, \<open>send_to_s_is_misread\<close>,
  \<open>logout_leaves_shared_session\<close>, \<open>early_command_ends_input\<close>,
  \<open>session_repository_can_deadlock\<close>, \<open>redis_nonce_reusable\<close>, \<open>second_login_stops_routing\<close>,
  \<open>redis_offline_recipient_panics\<close>, \<open>redis_logout_breaks_routing\<close>,
  \<open>concurrent_redemptions_both_succeed\<close>, \<open>concurrent_log_out_panics_ping\<close>,
  \<open>concurrent_hops_skip_the_end\<close>, \<open>server_failure_unnoticed\<close>,
  \<open>prefetched_hops_relay_without_end\<close>, \<open>redis_hops_prolong_conversation\<close>,
  \<open>redis_concurrent_hops_lose_one\<close>.

  \<^bold>\<open>Not modelled.\<close>  Interleavings of whole handlers over Redis (expiry is modelled for single
  operations and for chains of hops, in \<open>Redis_Time\<close> and \<open>Redis_Routing_Time\<close>; the other
  theorems on Redis speak of the entries present), what the listener of the client prints, the insides of the third-party crates (\<^verbatim>\<open>tonic\<close>, \<^verbatim>\<open>redis\<close>, \<^verbatim>\<open>fern\<close>, \<^verbatim>\<open>csv\<close>,
  \<^verbatim>\<open>tokio\<close>), which are arguments where the code calls them, and generated stubs.  Of a process only
  the start-up and the shutdown are a program; between them its tasks run as the other theories say.
\<close>

end
